(* ===== verification/Prelude.thy ===== *)
theory Prelude
  imports Complex_Main "HOL-Library.FSet"
begin

text \<open>
  The generic part of the development: results of code that may throw, the decimal printing of
  \<open>std::to_string\<close>, the narrowing of a 64 bit integer to an \<open>int\<close>, and the collections of
  rewrite rules the component theories add to and use.

  A C++ function that may throw keeps every change it made to the state before the throw, so a
  result carries the state in both cases: \<open>Ret r s\<close> is a return, \<open>Raise e s\<close> an exception.
\<close>

named_theorems state_simps \<open>definitions of state primitives, unfolded together\<close>
named_theorems frame_simps \<open>fields an operation leaves alone\<close>

datatype exn =
    Logic_error
  | Missing_name
  | Missing_message
  | Missing_parameter string
  | Not_an_integer string
  | Invalid_address string
  | Invalid_name
  | Invalid_parameter
  | Path_already_set
  | Connection_unavailable
  | Security_issue
  | Null_dereference
  | User_missing
  | Switching_to_user_failed
  | Socket_error

datatype ('s, 'r) res = Ret (res_value: 'r) (res_state: 's) | Raise exn (res_state: 's)

primrec bind_res :: "('s, 'r) res \<Rightarrow> ('r \<Rightarrow> 's \<Rightarrow> ('s, 'q) res) \<Rightarrow> ('s, 'q) res" where
  "bind_res (Ret r s) f = f r s"
| "bind_res (Raise e s) f = Raise e s"

primrec seq :: "('s, unit) res \<Rightarrow> ('s \<Rightarrow> ('s, 'q) res) \<Rightarrow> ('s, 'q) res" where
  "seq (Ret r s) f = f s"
| "seq (Raise e s) f = Raise e s"

definition ok :: "'s \<Rightarrow> ('s, unit) res" where
  "ok s = Ret () s"

text \<open>The value of code that cannot change the state but may throw.\<close>

definition of_sum :: "exn + 'r \<Rightarrow> 's \<Rightarrow> ('s, 'r) res" where
  "of_sum x s = (case x of Inl e \<Rightarrow> Raise e s | Inr r \<Rightarrow> Ret r s)"

lemma of_sum_simps [simp]: "of_sum (Inl e) s = Raise e s" "of_sum (Inr r) s = Ret r s"
  by (simp_all add: of_sum_def)

lemma res_state_of_sum [simp]: "res_state (of_sum x s) = s"
  by (simp add: of_sum_def split: sum.split)

lemma of_sum_RetE:
  assumes "of_sum x s = Ret r t" obtains "x = Inr r" and "t = s"
  using assms by (cases x) simp_all

lemma bind_res_RetE:
  assumes "bind_res m f = Ret r t" obtains q s where "m = Ret q s" and "f q s = Ret r t"
  using assms by (cases m) simp_all

lemma ok_inject [simp]: "ok s = ok t \<longleftrightarrow> s = t"
  by (simp add: ok_def)

lemma seq_ok [simp]: "seq (ok s) f = f s"
  by (simp add: ok_def)

lemma res_state_ok [simp]: "res_state (ok s) = s"
  by (simp add: ok_def)

lemma ok_neq_Raise [simp]: "ok s \<noteq> Raise e t" "Raise e t \<noteq> ok s"
  by (simp_all add: ok_def)

text \<open>An invariant of the state survives a sequence when both parts keep it.\<close>

lemma seq_inv:
  assumes "P (res_state m)" and "\<And>s. P s \<Longrightarrow> P (res_state (f s))"
  shows "P (res_state (seq m f))"
  using assms by (cases m) simp_all

lemma bind_res_inv:
  assumes "P (res_state m)" and "\<And>r s. P s \<Longrightarrow> P (res_state (f r s))"
  shows "P (res_state (bind_res m f))"
  using assms by (cases m) simp_all

lemma foldl_inv:
  assumes "P s" and "\<And>s x. x \<in> set xs \<Longrightarrow> P s \<Longrightarrow> P (f s x)"
  shows "P (foldl f s xs)"
  using assms by (induction xs arbitrary: s) auto

text \<open>A field that no step of a loop changes keeps its value.\<close>

lemma foldl_frame:
  assumes "\<And>s x. g (f s x) = g s"
  shows "g (foldl f s xs) = g s"
  by (induction xs arbitrary: s) (simp_all add: assms)

section \<open>Numbers as the C++ code writes and reads them\<close>

definition digit_char :: "nat \<Rightarrow> char" where
  "digit_char n = char_of (48 + n)"

fun dec_nat :: "nat \<Rightarrow> string" where
  "dec_nat n = (if n < 10 then [digit_char n] else dec_nat (n div 10) @ [digit_char (n mod 10)])"

declare dec_nat.simps [simp del]

definition dec_string :: "int \<Rightarrow> string" where
  "dec_string i = (if i < 0 then CHR ''-'' # dec_nat (nat (- i)) else dec_nat (nat i))"

text \<open>The value of a string of decimal digits, for the examples that read numbers back.\<close>

fun undec_digits :: "nat \<Rightarrow> string \<Rightarrow> nat option" where
  "undec_digits acc [] = Some acc"
| "undec_digits acc (c # cs) =
     (if 48 \<le> (of_char c :: nat) \<and> (of_char c :: nat) \<le> 57
      then undec_digits (10 * acc + (of_char c - 48)) cs else None)"

definition undec_string :: "string \<Rightarrow> int option" where
  "undec_string s = (case s of
      [] \<Rightarrow> None
    | c # cs \<Rightarrow>
        if c = CHR ''-'' then (if cs = [] then None else map_option (\<lambda>n. - int n) (undec_digits 0 cs))
        else map_option int (undec_digits 0 (c # cs)))"

lemma of_char_digit: "n < 10 \<Longrightarrow> (of_char (digit_char n) :: nat) = 48 + n"
  by (simp add: digit_char_def)

lemma undec_digits_append:
  "undec_digits acc (xs @ ys) =
     (case undec_digits acc xs of None \<Rightarrow> None | Some a \<Rightarrow> undec_digits a ys)"
  by (induction xs arbitrary: acc) auto

lemma dec_nat_nonempty: "dec_nat n \<noteq> []"
  by (subst dec_nat.simps) simp

lemma undec_dec_nat: "undec_digits 0 (dec_nat n) = Some n"
proof (induction n rule: dec_nat.induct)
  case (1 n)
  show ?case
  proof (cases "n < 10")
    case True
    then show ?thesis by (simp add: dec_nat.simps [of n] of_char_digit)
  next
    case False
    have "n mod 10 < 10" by simp
    with False "1.IH" [OF False] show ?thesis
      by (simp add: dec_nat.simps [of n] undec_digits_append of_char_digit)
  qed
qed

lemma dec_nat_hd: "hd (dec_nat n) \<noteq> CHR ''-''"
proof (induction n rule: dec_nat.induct)
  case (1 n)
  have d: "digit_char k \<noteq> CHR ''-''" if "k < 10" for k
  proof
    assume "digit_char k = CHR ''-''"
    then have "(of_char (digit_char k) :: nat) = of_char (CHR ''-'')" by simp
    with that show False by (simp add: of_char_digit)
  qed
  show ?case
  proof (cases "n < 10")
    case True
    then show ?thesis by (simp add: dec_nat.simps [of n] d)
  next
    case False
    with "1.IH" [OF False] show ?thesis
      by (simp add: dec_nat.simps [of n] dec_nat_nonempty)
  qed
qed

lemma undec_dec_string: "undec_string (dec_string i) = Some i"
proof (cases "i < 0")
  case True
  then show ?thesis
    by (simp add: dec_string_def undec_string_def dec_nat_nonempty undec_dec_nat)
next
  case False
  obtain c cs where c: "dec_nat (nat i) = c # cs"
    using dec_nat_nonempty by (cases "dec_nat (nat i)") auto
  with dec_nat_hd [of "nat i"] undec_dec_nat [of "nat i"] False show ?thesis
    by (simp add: dec_string_def undec_string_def)
qed

text \<open>The conversion of an \<open>int64_t\<close> to an \<open>int\<close> keeps the low 32 bits, read as a signed number.\<close>

definition to_int32 :: "int \<Rightarrow> int" where
  "to_int32 i = (i + 2 ^ 31) mod 2 ^ 32 - 2 ^ 31"

lemma to_int32_id: "- (2 ^ 31) \<le> i \<Longrightarrow> i < 2 ^ 31 \<Longrightarrow> to_int32 i = i"
  by (simp add: to_int32_def)

section \<open>Invariants\<close>

text \<open>
  The invariant of a machine given by its initial states and its steps: an interface of the proofs,
  that the daemon (theory System) and the plugin of the clock (theory Check_Clock) provide.
\<close>

locale invariant_machine =
  fixes initial :: "'s \<Rightarrow> bool"
    and step :: "'s \<Rightarrow> 's \<Rightarrow> bool"
    and inv :: "'s \<Rightarrow> bool"
  assumes inv_initial: "initial s \<Longrightarrow> inv s"
    and inv_step: "\<lbrakk>step s t; inv s\<rbrakk> \<Longrightarrow> inv t"
begin

lemma inv_steps: "\<lbrakk>step\<^sup>*\<^sup>* s t; inv s\<rbrakk> \<Longrightarrow> inv t"
  by (induction rule: rtranclp_induct) (auto intro: inv_step)

lemma inv_run: "\<lbrakk>initial s; step\<^sup>*\<^sup>* s t\<rbrakk> \<Longrightarrow> inv t"
  using inv_initial inv_steps by blast

end

end
