(* ===== verification/Std_Map.thy ===== *)
theory Std_Map
  imports Prelude
begin

text \<open>
  \<open>std::map\<close> as an association list sorted by key, which is the order the container is iterated
  in. The locale \<open>ordered_map\<close> states what the daemon relies on (what a lookup returns after an
  insertion or an erasure, and that the keys stay sorted and distinct); the lemmas about sequences
  of such operations are proved in it and are available for the model's maps as \<open>sm.<lemma>\<close>.
\<close>

type_synonym ('k, 'v) std_map = "('k \<times> 'v) list"

fun map_insert :: "'k::linorder \<Rightarrow> 'v \<Rightarrow> ('k, 'v) std_map \<Rightarrow> ('k, 'v) std_map" where
  "map_insert k v [] = [(k, v)]"
| "map_insert k v ((k', v') # m) =
     (if k < k' then (k, v) # (k', v') # m
      else if k = k' then (k, v) # m
      else (k', v') # map_insert k v m)"

fun map_erase :: "'k \<Rightarrow> ('k, 'v) std_map \<Rightarrow> ('k, 'v) std_map" where
  "map_erase k [] = []"
| "map_erase k ((k', v') # m) = (if k = k' then m else (k', v') # map_erase k m)"

definition map_find :: "('k, 'v) std_map \<Rightarrow> 'k \<Rightarrow> 'v option" where
  "map_find m = map_of m"

definition map_ok :: "('k::linorder, 'v) std_map \<Rightarrow> bool" where
  "map_ok m \<longleftrightarrow> sorted_wrt (<) (map fst m)"

text \<open>The loop that erases every entry satisfying a test while it walks over the map.\<close>

fun map_erase_if :: "('k \<Rightarrow> 'v \<Rightarrow> bool) \<Rightarrow> ('k, 'v) std_map \<Rightarrow> ('k, 'v) std_map" where
  "map_erase_if p [] = []"
| "map_erase_if p ((k, v) # m) = (if p k v then map_erase_if p m else (k, v) # map_erase_if p m)"

locale ordered_map =
  fixes empty :: "'m"
    and insert :: "'k::linorder \<Rightarrow> 'v \<Rightarrow> 'm \<Rightarrow> 'm"
    and erase :: "'k \<Rightarrow> 'm \<Rightarrow> 'm"
    and find :: "'m \<Rightarrow> 'k \<Rightarrow> 'v option"
    and invar :: "'m \<Rightarrow> bool"
  assumes find_empty: "find empty k = None"
    and find_insert: "invar m \<Longrightarrow> find (insert k v m) = (find m)(k \<mapsto> v)"
    and find_erase: "invar m \<Longrightarrow> find (erase k m) = (find m)(k := None)"
    and invar_empty: "invar empty"
    and invar_insert: "invar m \<Longrightarrow> invar (insert k v m)"
    and invar_erase: "invar m \<Longrightarrow> invar (erase k m)"
begin

lemma find_insert_same: "invar m \<Longrightarrow> find (insert k v m) k = Some v"
  by (simp add: find_insert)

lemma find_erase_same: "invar m \<Longrightarrow> find (erase k m) k = None"
  by (simp add: find_erase)

lemma dom_insert: "invar m \<Longrightarrow> dom (find (insert k v m)) = Set.insert k (dom (find m))"
  by (simp add: find_insert)

lemma dom_erase: "invar m \<Longrightarrow> dom (find (erase k m)) = dom (find m) - {k}"
  by (simp add: find_erase)

lemma erase_insert: "invar m \<Longrightarrow> find (erase k (insert k v m)) = (find m)(k := None)"
  by (simp add: find_erase find_insert invar_insert)

lemmas map_laws = find_insert find_erase invar_insert invar_erase

end

lemma map_find_Nil [simp]: "map_find [] k = None"
  by (simp add: map_find_def)

lemma map_find_insert: "map_ok m \<Longrightarrow> map_find (map_insert k v m) = (map_find m)(k \<mapsto> v)"
  by (induction k v m rule: map_insert.induct) (auto simp: map_find_def map_ok_def fun_eq_iff)

lemma map_of_less: "\<forall>y\<in>set (map fst m). x < y \<Longrightarrow> map_of m (x::'k::linorder) = None"
  by (induction m) auto

lemma map_find_erase: "map_ok m \<Longrightarrow> map_find (map_erase k m) = (map_find m)(k := None)"
proof (induction k m rule: map_erase.induct)
  case (2 k k' v' m)
  then show ?case
    by (auto simp: map_find_def map_ok_def fun_eq_iff map_of_less)
qed (simp add: map_find_def fun_eq_iff)

lemma keys_map_insert: "set (map fst (map_insert k v m)) = Set.insert k (set (map fst m))"
  by (induction k v m rule: map_insert.induct) auto

lemma keys_map_erase: "set (map fst (map_erase k m)) \<subseteq> set (map fst m)"
  by (induction k m rule: map_erase.induct) auto

lemma map_ok_insert: "map_ok m \<Longrightarrow> map_ok (map_insert k v m)"
proof (induction k v m rule: map_insert.induct)
  case (2 k v k' v' m)
  then show ?case
    using keys_map_insert [of k v m] by (auto simp: map_ok_def)
qed (simp add: map_ok_def)

lemma map_ok_erase: "map_ok m \<Longrightarrow> map_ok (map_erase k m)"
proof (induction k m rule: map_erase.induct)
  case (2 k k' v' m)
  then show ?case
    using keys_map_erase [of k m] by (fastforce simp: map_ok_def)
qed (simp add: map_ok_def)

interpretation sm: ordered_map "[]" map_insert map_erase map_find map_ok
  by unfold_locales
    (simp_all add: map_find_insert map_find_erase map_ok_insert map_ok_erase, simp add: map_ok_def)

lemma map_erase_if_filter: "map_erase_if p m = filter (\<lambda>(k, v). \<not> p k v) m"
  by (induction p m rule: map_erase_if.induct) auto

lemma map_ok_erase_if: "map_ok m \<Longrightarrow> map_ok (map_erase_if p m)"
  by (auto simp: map_ok_def map_erase_if_filter sorted_wrt_map sorted_wrt_filter)

lemma map_ok_distinct: "map_ok m \<Longrightarrow> distinct (map fst m)"
  unfolding map_ok_def by (induction m) auto

lemma map_find_Some_iff: "map_ok m \<Longrightarrow> map_find m k = Some v \<longleftrightarrow> (k, v) \<in> set m"
  by (simp add: map_find_def map_ok_distinct)

lemma map_find_erase_if:
  "map_ok m \<Longrightarrow> map_find (map_erase_if p m) k =
     (case map_find m k of None \<Rightarrow> None | Some v \<Rightarrow> if p k v then None else Some v)"
proof (induction p m rule: map_erase_if.induct)
  case (2 p k' v m)
  then show ?case
    by (auto simp: map_find_def map_ok_def map_of_less split: option.splits)
qed simp

lemma map_find_None_iff: "map_find m k = None \<longleftrightarrow> k \<notin> fst ` set m"
  by (simp add: map_find_def map_of_eq_None_iff)

end
