(* ===== verification/Message.thy ===== *)
theory Message
  imports Std_Map
begin

text \<open>
  The messages, and the third-party code the daemon calls.

  An \<open>ed::message\<close> is a command, a destination (server, service), a source (server, service), a map
  of parameters and the connection it came from (\<open>user_data\<close>).  The names of commands and parameters
  are those of \<open>communicator/names.an\<close>.

  The record \<open>lib\<close> holds the functions of libaddr, snapdev, advgetopt and eventdispatcher that the
  daemon calls and whose code is not in the repository.  Every definition that uses one takes the
  record as an argument.  Addresses (\<open>addr::addr\<close>) are a linearly ordered type variable \<open>'a\<close>.
\<close>

type_synonym cid = nat

record message =
  m_command :: string
  m_server :: string
  m_service :: string
  m_from_server :: string
  m_from_service :: string
  m_params :: "string \<rightharpoonup> string"
  m_user_data :: "cid option"

definition new_message :: message where
  "new_message = \<lparr>m_command = [], m_server = [], m_service = [], m_from_server = [],
     m_from_service = [], m_params = Map.empty, m_user_data = None\<rparr>"

definition add_parameter :: "string \<Rightarrow> string \<Rightarrow> message \<Rightarrow> message" where
  "add_parameter k v m = m\<lparr>m_params := (m_params m)(k \<mapsto> v)\<rparr>"

definition add_integer :: "string \<Rightarrow> int \<Rightarrow> message \<Rightarrow> message" where
  "add_integer k i = add_parameter k (dec_string i)"

definition has_parameter :: "message \<Rightarrow> string \<Rightarrow> bool" where
  "has_parameter m k \<longleftrightarrow> m_params m k \<noteq> None"

definition get_parameter :: "message \<Rightarrow> string \<Rightarrow> exn + string" where
  "get_parameter m k = (case m_params m k of None \<Rightarrow> Inl (Missing_parameter k) | Some v \<Rightarrow> Inr v)"

text \<open>A parameter the code reads after it checked that it is present.\<close>

definition param :: "message \<Rightarrow> string \<Rightarrow> string" where
  "param m k = (case m_params m k of None \<Rightarrow> [] | Some v \<Rightarrow> v)"

text \<open>A message made by the daemon: a command, and the daemon as its source.\<close>

definition daemon_message :: "string \<Rightarrow> string \<Rightarrow> message" where
  "daemon_message server_name cmd =
     new_message\<lparr>m_command := cmd, m_from_server := server_name, m_from_service := ''communicatord''\<rparr>"

lemma m_fields_add_parameter [simp]:
  "m_command (add_parameter k v m) = m_command m"
  "m_server (add_parameter k v m) = m_server m"
  "m_service (add_parameter k v m) = m_service m"
  "m_from_server (add_parameter k v m) = m_from_server m"
  "m_from_service (add_parameter k v m) = m_from_service m"
  "m_user_data (add_parameter k v m) = m_user_data m"
  "m_params (add_parameter k v m) = (m_params m)(k \<mapsto> v)"
  by (simp_all add: add_parameter_def)

lemma m_fields_add_integer [simp]:
  "m_command (add_integer k i m) = m_command m"
  "m_server (add_integer k i m) = m_server m"
  "m_service (add_integer k i m) = m_service m"
  "m_from_server (add_integer k i m) = m_from_server m"
  "m_from_service (add_integer k i m) = m_from_service m"
  "m_user_data (add_integer k i m) = m_user_data m"
  "m_params (add_integer k i m) = (m_params m)(k \<mapsto> dec_string i)"
  by (simp_all add: add_integer_def)

lemma m_fields_daemon_message [simp]:
  "m_command (daemon_message n c) = c"
  "m_server (daemon_message n c) = []"
  "m_service (daemon_message n c) = []"
  "m_from_server (daemon_message n c) = n"
  "m_from_service (daemon_message n c) = ''communicatord''"
  "m_user_data (daemon_message n c) = None"
  "m_params (daemon_message n c) = Map.empty"
  by (simp_all add: daemon_message_def new_message_def)

lemma has_parameter_add [simp]: "has_parameter (add_parameter k v m) k' \<longleftrightarrow> k' = k \<or> has_parameter m k'"
  by (simp add: has_parameter_def)

lemma has_parameter_daemon_message [simp]: "\<not> has_parameter (daemon_message n c) k"
  by (simp add: has_parameter_def)

lemma has_parameter_service [simp]: "has_parameter (m\<lparr>m_service := s\<rparr>) k = has_parameter m k"
  by (simp add: has_parameter_def)

section \<open>Code outside the repository\<close>

datatype network_type = Loopback | Private | Public | Multicast | Any_network | Other_network

text \<open>An \<open>addr::addr_range\<close>, as far as the daemon looks at one.\<close>

record 'a addr_range =
  has_to :: bool
  is_range :: bool
  range_from :: "'a option"

record 'a lib =
  net_type :: "'a \<Rightarrow> network_type"
  is_default_addr :: "'a \<Rightarrow> bool"
  default_addr :: "'a"
  set_port :: "'a \<Rightarrow> nat \<Rightarrow> 'a"
  ip_string :: "'a \<Rightarrow> string"
  ip_bracket_string :: "'a \<Rightarrow> string"
  ip_port_string :: "'a \<Rightarrow> string"
  string_to_addr :: "string \<Rightarrow> string \<Rightarrow> nat \<Rightarrow> 'a option"
  parse_default_port :: "string \<Rightarrow> 'a addr_range list"
  parse_required_port :: "string \<Rightarrow> 'a addr_range list"
  trim_string :: "string \<Rightarrow> string"
  tokens :: "string set \<Rightarrow> string \<Rightarrow> string \<Rightarrow> bool \<Rightarrow> string \<Rightarrow> string set"
  token_list :: "string \<Rightarrow> string \<Rightarrow> bool \<Rightarrow> string list"
  join_strings :: "string set \<Rightarrow> string \<Rightarrow> string"
  to_integer :: "string \<Rightarrow> int option"
  convert_duration :: "string \<Rightarrow> rat option"
  check_version :: "message \<Rightarrow> bool"
  add_version :: "message \<Rightarrow> message"

text \<open>\<open>ed::message::get_integer_parameter\<close> throws when the parameter is absent or no integer.\<close>

definition get_integer :: "('a, 'z) lib_scheme \<Rightarrow> message \<Rightarrow> string \<Rightarrow> exn + int" where
  "get_integer L m k = (case m_params m k of
      None \<Rightarrow> Inl (Missing_parameter k)
    | Some v \<Rightarrow> (case to_integer L v of None \<Rightarrow> Inl (Not_an_integer k) | Some i \<Rightarrow> Inr i))"

text \<open>What the library documents about reading back the integers it writes.\<close>

definition integer_roundtrip :: "('a, 'z) lib_scheme \<Rightarrow> bool" where
  "integer_roundtrip L \<longleftrightarrow> (\<forall>i. to_integer L (dec_string i) = Some i)"

lemma get_integer_add_integer: "integer_roundtrip L \<Longrightarrow> get_integer L (add_integer k i m) k = Inr i"
  by (simp add: get_integer_def integer_roundtrip_def)

end
