(* ===== verification/Utils.thy ===== *)
theory Utils
  imports Message "HOL-Library.FSet"
begin

text \<open>
  The standalone functions of communicator/daemon/utils.cpp: they bring the lists of services, of
  server types and of neighbors that come with messages or options into a canonical form.
\<close>

definition g_valid_types :: "string set" where
  "g_valid_types = {''proxy'', ''frontend'', ''backend'', ''database''}"

definition canonicalize_services :: "('a, 'z) lib_scheme \<Rightarrow> string \<Rightarrow> string set" where
  "canonicalize_services L services = tokens L {} services '','' True '' ''"

definition canonicalize_server_types :: "('a, 'z) lib_scheme \<Rightarrow> string \<Rightarrow> string" where
  "canonicalize_server_types L server_types =
     (let raw_types = tokens L {} server_types '','' True '' '';
          types = raw_types \<inter> g_valid_types
      in join_strings L types '','')"

text \<open>An address of a list of neighbors that the daemon accepts: one address, no range.\<close>

definition bad_range :: "'a addr_range \<Rightarrow> bool" where
  "bad_range r \<longleftrightarrow> has_to r \<or> is_range r \<or> range_from r = None"

fun neighbors_string :: "('a, 'z) lib_scheme \<Rightarrow> 'a addr_range list \<Rightarrow> string \<Rightarrow> string" where
  "neighbors_string L [] result = result"
| "neighbors_string L (r # rs) result =
     (if bad_range r then neighbors_string L rs result
      else neighbors_string L rs
        ((if result \<noteq> [] then result @ '','' else result) @ ip_port_string L (the (range_from r))))"

definition canonicalize_neighbors :: "('a, 'z) lib_scheme \<Rightarrow> string \<Rightarrow> string" where
  "canonicalize_neighbors L neighbors = neighbors_string L (parse_default_port L neighbors) []"

section \<open>Correctness\<close>

text \<open>The addresses of the list, without those that are rejected.\<close>

definition good_addresses :: "'a addr_range list \<Rightarrow> 'a list" where
  "good_addresses rs = map (\<lambda>r. the (range_from r)) (filter (\<lambda>r. \<not> bad_range r) rs)"

text \<open>Strings joined with commas.\<close>

fun comma_join :: "string list \<Rightarrow> string" where
  "comma_join [] = []"
| "comma_join [s] = s"
| "comma_join (s # t # ss) = s @ '','' @ comma_join (t # ss)"

lemma comma_join_snoc: "ss \<noteq> [] \<Longrightarrow> comma_join (ss @ [s]) = comma_join ss @ '','' @ s"
  by (induction ss rule: comma_join.induct) auto

lemma comma_join_nonempty: "\<lbrakk>ss \<noteq> []; [] \<notin> set ss\<rbrakk> \<Longrightarrow> comma_join ss \<noteq> []"
  by (induction ss rule: comma_join.induct) auto

text \<open>Strings trimmed, and split at delimiters.\<close>

definition trim_chars :: "string \<Rightarrow> string \<Rightarrow> string" where
  "trim_chars ws s = rev (dropWhile (\<lambda>c. c \<in> set ws) (rev (dropWhile (\<lambda>c. c \<in> set ws) s)))"

fun split_chars :: "string \<Rightarrow> string \<Rightarrow> string \<Rightarrow> string list" where
  "split_chars delims acc [] = [acc]"
| "split_chars delims acc (c # cs) =
     (if c \<in> set delims then acc # split_chars delims [] cs else split_chars delims (acc @ [c]) cs)"

lemma trim_chars_id: "t \<noteq> [] \<Longrightarrow> hd t \<notin> set ws \<Longrightarrow> last t \<notin> set ws \<Longrightarrow> trim_chars ws t = t"
  by (simp add: trim_chars_def dropWhile_eq_self_iff [THEN iffD2] hd_rev)

lemma split_chars_word:
  "set t \<inter> set delims = {} \<Longrightarrow> split_chars delims acc (t @ s) = split_chars delims (acc @ t) s"
  by (induction t arbitrary: acc) simp_all

lemma split_comma_join:
  "ts \<noteq> [] \<Longrightarrow> \<forall>t \<in> set ts. CHR '','' \<notin> set t \<Longrightarrow> split_chars '','' [] (comma_join ts) = ts"
proof (induction ts rule: comma_join.induct)
  case (2 t)
  then show ?case using split_chars_word [of t "'',''" "[]" "[]"] by simp
next
  case (3 s t ss)
  then show ?case using split_chars_word [of s "'',''" "[]" "'','' @ comma_join (t # ss)"] by simp
qed simp
lemma good_addresses_Cons:
  "good_addresses (r # rs) = (if bad_range r then good_addresses rs else the (range_from r) # good_addresses rs)"
  by (simp add: good_addresses_def)

lemma neighbors_string_join:
  assumes "\<forall>a. ip_port_string L a \<noteq> []" and "[] \<notin> set ss"
  shows "neighbors_string L rs (comma_join ss) = comma_join (ss @ map (ip_port_string L) (good_addresses rs))"
  using assms(2)
proof (induction rs arbitrary: ss)
  case Nil
  then show ?case by (simp add: good_addresses_def)
next
  case (Cons r rs)
  let ?s = "ip_port_string L (the (range_from r))"
  have step: "(if comma_join ss \<noteq> [] then comma_join ss @ '','' else comma_join ss) @ ?s = comma_join (ss @ [?s])"
    using Cons.prems by (cases "ss = []") (simp_all add: comma_join_snoc comma_join_nonempty)
  show ?case
  proof (cases "bad_range r")
    case True
    then show ?thesis using Cons by (simp add: good_addresses_Cons)
  next
    case False
    from assms(1) have "[] \<noteq> ?s" by metis
    with False Cons.IH [of "ss @ [?s]"] Cons.prems show ?thesis
      by (simp add: good_addresses_Cons step)
  qed
qed

lemma canonicalize_neighbors_join:
  assumes "\<forall>a. ip_port_string L a \<noteq> []"
  shows "canonicalize_neighbors L s = comma_join (map (ip_port_string L) (good_addresses (parse_default_port L s)))"
  using neighbors_string_join [OF assms, where ss = "[]"] by (simp add: canonicalize_neighbors_def)

end
