(* ===== verification/Base_Connection.thy ===== *)
theory Base_Connection
  imports Message
begin

text \<open>
  The class \<open>base_connection\<close> (communicator/daemon/base_connection.cpp): what the daemon knows about
  one of its connections, whatever its kind.  The record is extended by the kinds of connections, so
  that its operations apply to them as the member functions of a base class do.
\<close>

datatype connection_type = Down | Local | Remote_type

record 'a base_connection =
  f_understood_commands :: "string set"
  f_started_on :: int
  f_ended_on :: int
  f_type :: connection_type
  f_base_server_name :: string
  f_base_address :: 'a
  f_services :: "string set"
  f_base_heard_of :: "string set"
  f_username :: string
  f_password :: string
  f_remote_connection :: bool
  f_wants_loadavg :: bool
  f_is_udp :: bool

text \<open>The members that are only set.\<close>

definition set_server_name :: "string \<Rightarrow> ('a, 'z) base_connection_scheme \<Rightarrow> ('a, 'z) base_connection_scheme" where
  [simp]: "set_server_name v = (\<lambda>c. c\<lparr>f_base_server_name := v\<rparr>)"

definition set_connection_address :: "'a \<Rightarrow> ('a, 'z) base_connection_scheme \<Rightarrow> ('a, 'z) base_connection_scheme" where
  [simp]: "set_connection_address v = (\<lambda>c. c\<lparr>f_base_address := v\<rparr>)"

definition set_connection_type :: "connection_type \<Rightarrow> ('a, 'z) base_connection_scheme \<Rightarrow> ('a, 'z) base_connection_scheme" where
  [simp]: "set_connection_type v = (\<lambda>c. c\<lparr>f_type := v\<rparr>)"

definition set_username :: "string \<Rightarrow> ('a, 'z) base_connection_scheme \<Rightarrow> ('a, 'z) base_connection_scheme" where
  [simp]: "set_username v = (\<lambda>c. c\<lparr>f_username := v\<rparr>)"

definition set_password :: "string \<Rightarrow> ('a, 'z) base_connection_scheme \<Rightarrow> ('a, 'z) base_connection_scheme" where
  [simp]: "set_password v = (\<lambda>c. c\<lparr>f_password := v\<rparr>)"

definition set_wants_loadavg :: "bool \<Rightarrow> ('a, 'z) base_connection_scheme \<Rightarrow> ('a, 'z) base_connection_scheme" where
  [simp]: "set_wants_loadavg v = (\<lambda>c. c\<lparr>f_wants_loadavg := v\<rparr>)"

definition connection_started :: "int \<Rightarrow> ('a, 'z) base_connection_scheme \<Rightarrow> ('a, 'z) base_connection_scheme" where
  "connection_started now c = c\<lparr>f_started_on := now, f_ended_on := - 1\<rparr>"

definition connection_ended :: "int \<Rightarrow> ('a, 'z) base_connection_scheme \<Rightarrow> ('a, 'z) base_connection_scheme" where
  "connection_ended now c =
     (if f_started_on c \<noteq> - 1 \<and> f_ended_on c = - 1 then c\<lparr>f_ended_on := now\<rparr> else c)"

definition set_services :: "('a, 'l) lib_scheme \<Rightarrow> string \<Rightarrow> ('a, 'z) base_connection_scheme
    \<Rightarrow> ('a, 'z) base_connection_scheme" where
  "set_services L services c = c\<lparr>f_services := tokens L (f_services c) services '','' False []\<rparr>"

definition set_services_heard_of :: "('a, 'l) lib_scheme \<Rightarrow> string \<Rightarrow> ('a, 'z) base_connection_scheme
    \<Rightarrow> ('a, 'z) base_connection_scheme" where
  "set_services_heard_of L services c =
     c\<lparr>f_base_heard_of := tokens L (f_base_heard_of c) services '','' False []\<rparr>"

text \<open>
  \<open>std::set::merge\<close>: the elements of the source that the target lacks move to the target, the
  others stay in the source.  The first component is the target.
\<close>

definition set_merge :: "'b set \<Rightarrow> 'b set \<Rightarrow> 'b set \<times> 'b set" where
  "set_merge target source = (target \<union> source, source \<inter> target)"

text \<open>The services parameter is read and written, so it is part of the result.\<close>

definition get_services :: "('a, 'z) base_connection_scheme \<Rightarrow> string set
    \<Rightarrow> ('a, 'z) base_connection_scheme \<times> string set" where
  "get_services c services =
     (let (mine, rest) = set_merge (f_services c) services in (c\<lparr>f_services := mine\<rparr>, rest))"

definition get_services_heard_of :: "('a, 'z) base_connection_scheme \<Rightarrow> string set
    \<Rightarrow> ('a, 'z) base_connection_scheme \<times> string set" where
  "get_services_heard_of c services =
     (let (mine, rest) = set_merge (f_base_heard_of c) services in (c\<lparr>f_base_heard_of := mine\<rparr>, rest))"

definition has_service :: "('a, 'z) base_connection_scheme \<Rightarrow> string \<Rightarrow> bool" where
  "has_service c name \<longleftrightarrow> name \<in> f_services c"

definition add_commands :: "('a, 'l) lib_scheme \<Rightarrow> string \<Rightarrow> ('a, 'z) base_connection_scheme
    \<Rightarrow> ('a, 'z) base_connection_scheme" where
  "add_commands L commands c =
     c\<lparr>f_understood_commands := tokens L (f_understood_commands c) commands '','' False []\<rparr>"

definition understand_command :: "('a, 'z) base_connection_scheme \<Rightarrow> string \<Rightarrow> bool" where
  "understand_command c cmd \<longleftrightarrow> cmd \<in> f_understood_commands c"

definition has_commands :: "('a, 'z) base_connection_scheme \<Rightarrow> bool" where
  "has_commands c \<longleftrightarrow> f_understood_commands c \<noteq> {}"

definition remove_command :: "string \<Rightarrow> ('a, 'z) base_connection_scheme \<Rightarrow> ('a, 'z) base_connection_scheme" where
  "remove_command cmd c =
     (if cmd \<in> f_understood_commands c
      then c\<lparr>f_understood_commands := f_understood_commands c - {cmd}\<rparr> else c)"

definition mark_as_remote :: "('a, 'z) base_connection_scheme \<Rightarrow> ('a, 'z) base_connection_scheme" where
  "mark_as_remote c = c\<lparr>f_remote_connection := True\<rparr>"

section \<open>Times of a connection\<close>

text \<open>A connection that ended did start, and the daemon's clock orders the two events.\<close>

definition times_ok :: "int \<Rightarrow> ('a, 'z) base_connection_scheme \<Rightarrow> bool" where
  "times_ok now c \<longleftrightarrow>
     (f_ended_on c = - 1 \<or> f_started_on c \<noteq> - 1 \<and> f_started_on c \<le> f_ended_on c \<and> f_ended_on c \<le> now) \<and>
     f_started_on c \<le> now"

lemma times_ok_started: "0 \<le> now \<Longrightarrow> times_ok now (connection_started now c)"
  by (simp add: times_ok_def connection_started_def)

lemma times_ok_ended: "times_ok now c \<Longrightarrow> times_ok now (connection_ended now c)"
  by (auto simp: times_ok_def connection_ended_def)

lemma times_ok_later: "times_ok now c \<Longrightarrow> now \<le> now' \<Longrightarrow> times_ok now' c"
  by (auto simp: times_ok_def)

text \<open>Only the first end after a start is recorded.\<close>

lemma connection_ended_idem:
  "0 \<le> t1 \<Longrightarrow> connection_ended t2 (connection_ended t1 c) = connection_ended t1 c
     \<or> f_ended_on c = - 1 \<and> f_started_on c = - 1"
  by (auto simp: connection_ended_def)

lemma connection_ended_twice:
  "0 \<le> t1 \<Longrightarrow> connection_ended t2 (connection_ended t1 c) = connection_ended t1 c"
  by (auto simp: connection_ended_def)

lemma remove_command_not_understood: "\<not> understand_command (remove_command cmd c) cmd"
  by (simp add: remove_command_def understand_command_def)

lemma get_services_rest_subset: "snd (get_services c s) \<subseteq> s"
  by (simp add: get_services_def set_merge_def)

lemma get_services_heard_of_rest_subset: "snd (get_services_heard_of c s) \<subseteq> s"
  by (simp add: get_services_heard_of_def set_merge_def)

end
