(* ===== verification/Cache.thy ===== *)
theory Cache
  imports Message
begin

text \<open>
  The message cache (communicator/daemon/cache.cpp): messages for a local service that is not
  running are kept with a time limit until the service registers.  The cache is the list
  \<open>f_message_cache\<close> of pairs (\<open>f_timeout_timestamp\<close>, \<open>f_message\<close>), newest last.
\<close>

datatype cache_message_t = Cache_message_ignore | Cache_message_reply | Cache_message_cached

type_synonym cache = "(int \<times> message) list"

section \<open>Storing a message\<close>

text \<open>One \<open>name[=value]\<close> item of the \<open>cache\<close> parameter; an item with an empty name is skipped.\<close>

definition cache_parameter :: "(string \<rightharpoonup> string) \<Rightarrow> string \<Rightarrow> (string \<rightharpoonup> string)" where
  "cache_parameter params p =
     (if CHR ''='' \<notin> set p then params(p \<mapsto> ''true'')
      else if hd p = CHR ''='' then params
      else params(takeWhile (\<lambda>c. c \<noteq> CHR ''='') p \<mapsto> tl (dropWhile (\<lambda>c. c \<noteq> CHR ''='') p)))"

definition cache_parameters :: "('a, 'z) lib_scheme \<Rightarrow> message \<Rightarrow> (string \<rightharpoonup> string)" where
  "cache_parameters L m =
     foldl cache_parameter Map.empty (token_list L (param m ''cache'') '';'' True)"

definition cache_ttl :: "('a, 'z) lib_scheme \<Rightarrow> (string \<rightharpoonup> string) \<Rightarrow> int" where
  "cache_ttl L params =
     (case params ''ttl'' of
        None \<Rightarrow> 60
      | Some v \<Rightarrow>
          (case convert_duration L v of
             None \<Rightarrow> 60
           | Some value \<Rightarrow> if value < 10 \<or> value > 86400 then 60 else \<lceil>value\<rceil>))"

definition cache_message :: "('a, 'z) lib_scheme \<Rightarrow> int \<Rightarrow> message \<Rightarrow> cache \<Rightarrow> cache_message_t \<times> cache" where
  "cache_message L now m c =
     (let params = cache_parameters L m;
          response = (if params ''reply'' \<noteq> None then Cache_message_reply else Cache_message_ignore)
      in if params ''no'' \<noteq> None then (response, c)
         else (Cache_message_cached, c @ [(now + cache_ttl L params, m)]))"

section \<open>Dropping and delivering messages\<close>

fun remove_old_messages :: "int \<Rightarrow> cache \<Rightarrow> cache" where
  "remove_old_messages now [] = []"
| "remove_old_messages now ((t, m) # c) =
     (if now > t then remove_old_messages now c else (t, m) # remove_old_messages now c)"

text \<open>The callback says whether it took the message, and works on a state of its own.\<close>

fun process_messages :: "int \<Rightarrow> ('s \<Rightarrow> message \<Rightarrow> bool \<times> 's) \<Rightarrow> cache \<Rightarrow> 's \<Rightarrow> cache \<times> 's" where
  "process_messages now callback [] s = ([], s)"
| "process_messages now callback ((t, m) # c) s =
     (let (taken, s') = callback s m;
          (c', s'') = process_messages now callback c s'
      in (if taken \<or> now > t then c' else (t, m) # c', s''))"

section \<open>What the cache promises\<close>

lemma cache_ttl_bounds: "10 \<le> cache_ttl L params \<and> cache_ttl L params \<le> 86400"
  by (auto simp: cache_ttl_def ceiling_le_iff le_ceiling_iff split: option.splits)

lemma cache_message_cached:
  "fst (cache_message L now m c) = Cache_message_cached \<longleftrightarrow> cache_parameters L m ''no'' = None"
  by (simp add: cache_message_def Let_def)

lemma cache_message_snd:
  "snd (cache_message L now m c) =
     (if cache_parameters L m ''no'' = None
      then c @ [(now + cache_ttl L (cache_parameters L m), m)] else c)"
  by (simp add: cache_message_def Let_def)

lemma remove_old_messages_filter: "remove_old_messages now c = filter (\<lambda>(t, m). now \<le> t) c"
  by (induction now c rule: remove_old_messages.induct) auto

text \<open>
  For a callback that takes the messages satisfying \<open>p\<close> and has the effect \<open>eff\<close> for each of them:
  the messages taken are those satisfying \<open>p\<close>, in order, expired ones included; what stays is what
  is neither taken nor expired, in order.
\<close>

lemma process_messages_taken:
  "process_messages now (\<lambda>s m. if p m then (True, eff s m) else (False, s)) c s =
     (filter (\<lambda>(t, m). \<not> p m \<and> now \<le> t) c, foldl eff s (filter p (map snd c)))"
  by (induction now "\<lambda>s m. if p m then (True, eff s m) else (False, s)" c s
        rule: process_messages.induct) auto

text \<open>
  A store of messages as the rest of the daemon uses it: it puts messages in, and later takes out
  the ones it wants.
\<close>

locale message_store =
  fixes stored :: "'c \<Rightarrow> message list"
    and put :: "message \<Rightarrow> 'c \<Rightarrow> 'c"
    and take_out :: "(message \<Rightarrow> bool) \<Rightarrow> 'c \<Rightarrow> message list \<times> 'c"
  assumes stored_put: "stored (put m c) = stored c @ [m]"
    and taken: "fst (take_out p c) = filter p (stored c)"
    and left: "set (stored (snd (take_out p c))) \<subseteq> {m \<in> set (stored c). \<not> p m}"
begin

lemma delivered: "p m \<Longrightarrow> fst (take_out p (put m c)) = filter p (stored c) @ [m]"
  by (simp add: taken stored_put)

lemma not_for_others: "\<not> p m \<Longrightarrow> fst (take_out p (put m c)) = fst (take_out p c)"
  by (simp add: taken stored_put)

lemma delivered_once: "fst (take_out p (snd (take_out p c))) = []"
  using left [of p c] by (auto simp: taken filter_empty_conv)

lemma delivered_last: "p m \<Longrightarrow> m \<in> set (fst (take_out p (put m c)))"
  by (simp add: delivered)

end

definition cache_put :: "int \<Rightarrow> message \<Rightarrow> cache \<Rightarrow> cache" where
  "cache_put deadline m c = c @ [(deadline, m)]"

definition cache_take :: "int \<Rightarrow> (message \<Rightarrow> bool) \<Rightarrow> cache \<Rightarrow> message list \<times> cache" where
  "cache_take now p c =
     (let (c', out) = process_messages now (\<lambda>s m. if p m then (True, s @ [m]) else (False, s)) c []
      in (out, c'))"

lemma foldl_snoc: "foldl (\<lambda>s m. s @ [m]) s ms = s @ ms"
  by (induction ms arbitrary: s) auto

lemma cache_take_eq:
  "cache_take now p c = (filter p (map snd c), filter (\<lambda>(t, m). \<not> p m \<and> now \<le> t) c)"
  unfolding cache_take_def
  by (simp add: process_messages_taken [where eff = "\<lambda>s m. s @ [m]"] foldl_snoc)

text \<open>Who asks again is given nothing, at any later time.\<close>

lemma cache_take_again: "fst (cache_take t' p (snd (cache_take t p c))) = []"
  by (auto simp: cache_take_eq filter_empty_conv)

interpretation mc: message_store "map snd" "cache_put deadline" "cache_take now" for deadline now
  by unfold_locales (auto simp: cache_put_def cache_take_eq)

end
