(* ===== verification/Daemon_State.thy ===== *)
theory Daemon_State
  imports Base_Connection Cache "HOL-Library.Char_ord" "HOL-Library.List_Lexorder"
begin

text \<open>
  The state of the daemon: its connection objects, the list of connections registered with
  \<open>ed::communicator\<close>, the members of the class \<open>communicatord\<close>, those of \<open>remote_communicators\<close>, the
  static variables of the source files, the clock, and the log of what the daemon did.

  Connections are shared by pointers, so they live in a store \<open>obj\<close> indexed by identities \<open>cid\<close>; the
  list \<open>connections\<close> holds the identities registered with the event loop.  The kind of an object
  stands for the class a \<open>dynamic_pointer_cast\<close> tests for.
\<close>

datatype conn_kind =
    Service_conn | Unix_conn | Remote_conn | Ping_conn | Gossip_conn | Other_conn

text \<open>The classes derived from \<open>base_connection\<close>.\<close>

fun is_base :: "conn_kind \<Rightarrow> bool" where
  "is_base Service_conn = True"
| "is_base Unix_conn = True"
| "is_base Remote_conn = True"
| "is_base Ping_conn = True"
| "is_base _ = False"

text \<open>
  The members of the derived classes and, with the prefix \<open>c_\<close>, the state of the library's part of a
  connection that the daemon reads or sets.
\<close>

record 'a conn = "'a base_connection" +
  c_kind :: conn_kind
  c_name :: string
  f_address :: 'a
  f_own_server_name :: string
  f_named :: bool
  f_failures :: int
  f_failure_start_time :: int
  f_flagged :: bool
  f_connected :: bool
  f_wait :: int
  c_remote_address :: 'a
  c_connected :: bool
  c_socket :: int
  c_has_output :: bool
  c_done :: bool
  c_enabled :: bool
  c_timeout_delay :: int
  c_timeout_date :: int

datatype 'a event =
    Sent cid message
  | Status_file string string
  | Neighbors_file "'a fset"
  | Neighbors_file_failed
  | Flag_raised string string string int "string list"
  | Flag_lowered string string string

record hits_t =
  f_count :: int
  f_last_hit :: int

record 'a daemon =
  obj :: "cid \<Rightarrow> 'a conn"
  next_id :: cid
  connections :: "cid list"
  f_server_name :: string
  f_neighbors_cache_filename :: string
  f_public_ip :: string
  f_secure_ip :: string
  f_connection_address :: 'a
  f_local_services :: string
  f_local_services_list :: "string set"
  f_services_heard_of :: string
  f_services_heard_of_list :: "string set"
  f_explicit_neighbors :: string
  f_all_neighbors :: "'a fset"
  f_max_connections :: nat
  f_total_count_sent :: nat
  f_shutdown :: bool
  f_debug_all_messages :: bool
  f_local_message_cache :: cache
  f_received_broadcast_messages :: "(string, int) std_map"
  f_cluster_status :: string
  f_cluster_complete :: string
  f_interrupt :: "cid option"
  f_local_listener :: "cid option"
  f_remote_listener :: "cid option"
  f_secure_listener :: "cid option"
  f_unix_listener :: "cid option"
  f_ping :: "cid option"
  g_broadcast_sequence :: int
  f_last_start_date :: int
  f_all_ips :: "'a set"
  f_smaller_ips :: "('a, cid) std_map"
  f_gossip_ips :: "('a, cid) std_map"
  g_blocked_ips :: "('a, hits_t) std_map"
  g_max_gossip_timeout :: int
  p_loadavg :: bool
  now :: int
  debug_severity :: bool
  data_path :: string
  neighbors_txt :: "string option"
  can_write_neighbors :: bool
  out :: "'a event list"

section \<open>Primitives\<close>

definition upd_conn :: "cid \<Rightarrow> ('a conn \<Rightarrow> 'a conn) \<Rightarrow> 'a daemon \<Rightarrow> 'a daemon" where
  "upd_conn i f d = d\<lparr>obj := (obj d)(i := f (obj d i))\<rparr>"

definition emit :: "'a event \<Rightarrow> 'a daemon \<Rightarrow> 'a daemon" where
  "emit e d = d\<lparr>out := out d @ [e]\<rparr>"

definition send_message :: "cid \<Rightarrow> message \<Rightarrow> 'a daemon \<Rightarrow> 'a daemon" where
  "send_message i m = emit (Sent i m)"

definition send_message_to_connection :: "cid \<Rightarrow> message \<Rightarrow> bool \<Rightarrow> 'a daemon \<Rightarrow> 'a daemon" where
  "send_message_to_connection i m only_if_command_known d =
     (if \<not> only_if_command_known \<or> understand_command (obj d i) (m_command m)
      then send_message i m d else d)"

abbreviation send_to :: "cid \<Rightarrow> message \<Rightarrow> 'a daemon \<Rightarrow> 'a daemon" where
  "send_to i m \<equiv> send_message_to_connection i m False"

definition new_object :: "'a conn \<Rightarrow> 'a daemon \<Rightarrow> cid \<times> 'a daemon" where
  "new_object c d = (next_id d, d\<lparr>obj := (obj d)(next_id d := c), next_id := Suc (next_id d)\<rparr>)"

text \<open>\<open>ed::communicator::add_connection\<close> refuses a connection that is already registered.\<close>

definition add_connection :: "cid \<Rightarrow> 'a daemon \<Rightarrow> bool \<times> 'a daemon" where
  "add_connection i d =
     (if i \<in> set (connections d) then (False, d) else (True, d\<lparr>connections := connections d @ [i]\<rparr>))"

definition unlist_connection :: "cid \<Rightarrow> 'a daemon \<Rightarrow> 'a daemon" where
  "unlist_connection i d = d\<lparr>connections := filter (\<lambda>j. j \<noteq> i) (connections d)\<rparr>"

definition blank_conn :: "('a, 'z) lib_scheme \<Rightarrow> conn_kind \<Rightarrow> 'a conn" where
  "blank_conn L k =
     \<lparr>f_understood_commands = {}, f_started_on = - 1, f_ended_on = - 1, f_type = Down,
      f_base_server_name = [], f_base_address = default_addr L, f_services = {}, f_base_heard_of = {},
      f_username = [], f_password = [], f_remote_connection = False, f_wants_loadavg = False,
      f_is_udp = (k = Ping_conn), c_kind = k, c_name = [], f_address = default_addr L,
      f_own_server_name = [], f_named = False, f_failures = - 1, f_failure_start_time = 0,
      f_flagged = False, f_connected = False, f_wait = 5000000, c_remote_address = default_addr L,
      c_connected = False, c_socket = - 1, c_has_output = False, c_done = False, c_enabled = True,
      c_timeout_delay = 0, c_timeout_date = 0\<rparr>"

lemmas primitive_defs [state_simps] =
  upd_conn_def emit_def send_message_def send_message_to_connection_def unlist_connection_def

lemma send_to_eq: "send_to i m d = d\<lparr>out := out d @ [Sent i m]\<rparr>"
  by (simp add: state_simps)

text \<open>A message sent or an event logged changes the log only.\<close>

lemma emit_frame [frame_simps]:
  "obj (emit e d) = obj d" "connections (emit e d) = connections d" "next_id (emit e d) = next_id d"
  "out (emit e d) = out d @ [e]"
  by (simp_all add: emit_def)

lemma send_message_frame [frame_simps]:
  "obj (send_message i m d) = obj d" "connections (send_message i m d) = connections d"
  "next_id (send_message i m d) = next_id d" "out (send_message i m d) = out d @ [Sent i m]"
  by (simp_all add: send_message_def emit_def)

lemma send_message_to_connection_frame [frame_simps]:
  "obj (send_message_to_connection i m b d) = obj d"
  "connections (send_message_to_connection i m b d) = connections d"
  "next_id (send_message_to_connection i m b d) = next_id d"
  by (simp_all add: send_message_to_connection_def frame_simps)

text \<open>
  A change of the state that only sends messages: everything but the log is as before.  Most of what
  the daemon does to reach other processes is of this kind.
\<close>

definition only_sends :: "'a daemon \<Rightarrow> 'a daemon \<Rightarrow> bool" where
  "only_sends d d' \<longleftrightarrow> d' = d\<lparr>out := out d'\<rparr> \<and> (\<exists>es. out d' = out d @ es)"

lemma only_sends_refl [simp]: "only_sends d d"
  by (simp add: only_sends_def)

lemma only_sends_trans:
  assumes "only_sends a b" and "only_sends b c"
  shows "only_sends a c"
proof -
  obtain es fs where "b = a\<lparr>out := out a @ es\<rparr>" and "c = b\<lparr>out := out b @ fs\<rparr>"
    using assms unfolding only_sends_def by metis
  then have "c = a\<lparr>out := out a @ es @ fs\<rparr>" by simp
  then show ?thesis by (simp add: only_sends_def)
qed

lemma only_sends_emit [simp]: "only_sends d (emit e d)"
  by (simp add: only_sends_def emit_def)

lemma only_sends_send_message [simp]: "only_sends d (send_message i m d)"
  by (simp add: send_message_def)

lemma only_sends_send_to [simp]: "only_sends d (send_message_to_connection i m b d)"
  by (simp add: send_message_to_connection_def)

text \<open>What only sends leaves every field but the log as it was.\<close>

lemma only_sends_field:
  assumes "only_sends d d'" and "\<And>d es. g (d\<lparr>out := es\<rparr>) = g d"
  shows "g d' = g d"
  using assms unfolding only_sends_def by metis

lemma only_sends_foldl:
  assumes "\<And>s x. only_sends s (f s x)"
  shows "only_sends s (foldl f s xs)"
  by (induction xs arbitrary: s) (auto intro: only_sends_trans assms)

text \<open>The messages in the log, and the connections they went to.\<close>

fun sent_messages :: "'a event list \<Rightarrow> (cid \<times> message) list" where
  "sent_messages [] = []"
| "sent_messages (Sent i m # es) = (i, m) # sent_messages es"
| "sent_messages (_ # es) = sent_messages es"

lemma sent_messages_append [simp]: "sent_messages (xs @ ys) = sent_messages xs @ sent_messages ys"
  by (induction xs rule: sent_messages.induct) auto

lemma sent_messages_iff: "(i, m) \<in> set (sent_messages es) \<longleftrightarrow> Sent i m \<in> set es"
  by (induction es rule: sent_messages.induct) auto

end
