(* ===== verification/Remote_Communicators.thy ===== *)
theory Remote_Communicators
  imports Daemon_State
begin

text \<open>
  The class \<open>remote_communicators\<close> (communicator/daemon/remote_communicators.cpp): which other daemons
  this one connects to (those with a smaller address, \<open>f_smaller_ips\<close>) and which it tells about
  itself with GOSSIP messages (those with a larger address, \<open>f_gossip_ips\<close>).

  The library calls \<open>connection_removed\<close> on a connection it removes from its list; the daemon
  overrides it for \<open>service_connection\<close>, so \<open>remove_connection\<close> includes that callback.
\<close>

definition remote_connection_object :: "('a, 'z) lib_scheme \<Rightarrow> 'a \<Rightarrow> 'a conn" where
  "remote_connection_object L a = (blank_conn L Remote_conn)
     \<lparr>f_address := a, c_name := ''remote communicator (out)'' @ '': '' @ ip_port_string L a,
      c_timeout_delay := 60000000\<rparr>"

definition gossip_connection_object :: "('a, 'z) lib_scheme \<Rightarrow> 'a \<Rightarrow> 'a conn" where
  "gossip_connection_object L a = (blank_conn L Gossip_conn)
     \<lparr>f_address := a, c_name := ''gossip'' @ '': '' @ ip_port_string L a,
      c_timeout_delay := - 5000000, f_wait := 5000000\<rparr>"

definition connection_lost :: "('a::linorder, 'z) lib_scheme \<Rightarrow> 'a \<Rightarrow> 'a daemon \<Rightarrow> 'a daemon" where
  "connection_lost L a d =
     (if map_find (f_gossip_ips d) a \<noteq> None then d
      else
        let (i, d1) = new_object (gossip_connection_object L a) d;
            d2 = d1\<lparr>f_gossip_ips := map_insert a i (f_gossip_ips d1)\<rparr>;
            (added, d3) = add_connection i d2
        in if \<not> added then d3\<lparr>f_gossip_ips := map_erase a (f_gossip_ips d3)\<rparr> else d3)"

definition add_remote_communicator :: "('a::linorder, 'z) lib_scheme \<Rightarrow> 'a \<Rightarrow> 'a daemon \<Rightarrow> 'a daemon" where
  "add_remote_communicator L a d =
     (if a = f_connection_address d then d
      else if a \<in> f_all_ips d then
        (if a < f_connection_address d then
           (case map_find (f_smaller_ips d) a of
              Some i \<Rightarrow>
                if \<not> c_connected (obj d i)
                then upd_conn i (\<lambda>c. c\<lparr>c_timeout_delay := 86400000000,
                                      c_timeout_date := now d * 1000000, c_enabled := True\<rparr>) d
                else d
            | None \<Rightarrow> d)
         else d)
      else
        let d1 = d\<lparr>f_all_ips := insert a (f_all_ips d)\<rparr> in
        if a < f_connection_address d then
          let (i, d2) = new_object (remote_connection_object L a) d1;
              d3 = d2\<lparr>f_smaller_ips := map_insert a i (f_smaller_ips d2)\<rparr>;
              d4 = (if now d3 > f_last_start_date d3 then d3\<lparr>f_last_start_date := now d3\<rparr> else d3);
              d5 = upd_conn i (\<lambda>c. c\<lparr>c_timeout_date := f_last_start_date d4 * 1000000\<rparr>) d4;
              d6 = d5\<lparr>f_last_start_date := f_last_start_date d5 + 1\<rparr>;
              (added, d7) = add_connection i d6
          in if \<not> added then d7\<lparr>f_smaller_ips := map_erase a (f_smaller_ips d7)\<rparr> else d7
        else connection_lost L a d1)"

definition add_remote_communicator_string :: "('a::linorder, 'z) lib_scheme \<Rightarrow> string \<Rightarrow> 'a daemon
    \<Rightarrow> ('a daemon, unit) res" where
  "add_remote_communicator_string L addr_port d =
     (case string_to_addr L addr_port [] 4042 of
        None \<Rightarrow> Raise (Invalid_address addr_port) d
      | Some a \<Rightarrow> ok (add_remote_communicator L a d))"

function stop_gossiping :: "'a daemon \<Rightarrow> 'a daemon" where
  "stop_gossiping d =
     (case f_gossip_ips d of
        [] \<Rightarrow> d
      | (a, i) # rest \<Rightarrow>
          stop_gossiping ((unlist_connection i d)\<lparr>f_gossip_ips := rest\<rparr>))"
  by pat_completeness auto
termination
  by (relation "measure (\<lambda>d. length (f_gossip_ips d))") (auto simp: unlist_connection_def)

declare stop_gossiping.simps [simp del]

definition too_busy :: "'a \<Rightarrow> 'a daemon \<Rightarrow> 'a daemon" where
  "too_busy a d =
     (case map_find (f_smaller_ips d) a of
        Some i \<Rightarrow> upd_conn i (\<lambda>c. c\<lparr>c_timeout_delay := 86400000000, c_enabled := True\<rparr>) d
      | None \<Rightarrow> d)"

definition remote_shutting_down :: "'a \<Rightarrow> 'a daemon \<Rightarrow> 'a daemon" where
  "remote_shutting_down a d =
     (case map_find (f_smaller_ips d) a of
        Some i \<Rightarrow> upd_conn i (\<lambda>c. c\<lparr>c_timeout_delay := 300000000, c_enabled := True\<rparr>) d
      | None \<Rightarrow> d)"

definition gossip_received :: "'a \<Rightarrow> 'a daemon \<Rightarrow> 'a daemon" where
  "gossip_received a d =
     (case map_find (f_gossip_ips d) a of
        Some i \<Rightarrow> (unlist_connection i d)\<lparr>f_gossip_ips := map_erase a (f_gossip_ips d)\<rparr>
      | None \<Rightarrow> d)"

definition forget_remote_connection :: "'a \<Rightarrow> 'a daemon \<Rightarrow> 'a daemon" where
  "forget_remote_connection a d =
     (let d1 = (case map_find (f_smaller_ips d) a of
          Some i \<Rightarrow> (unlist_connection i d)\<lparr>f_smaller_ips := map_erase a (f_smaller_ips d)\<rparr>
        | None \<Rightarrow> d)
      in case map_find (f_gossip_ips d1) a of
          Some i \<Rightarrow> d1\<lparr>f_gossip_ips := map_erase a (f_gossip_ips d1)\<rparr>
        | None \<Rightarrow> d1)"

fun count_live :: "'a daemon \<Rightarrow> cid list \<Rightarrow> nat \<Rightarrow> nat" where
  "count_live d [] count = count"
| "count_live d (i # is) count =
     (let c = obj d i in
      if c_kind c = Remote_conn then
        count_live d is (if c_connected c then count + 1 else count)
      else
        count_live d is
          (if is_base (c_kind c) \<and> f_remote_connection c \<and> c_socket c \<noteq> - 1 then count + 1 else count))"

definition count_live_connections :: "'a daemon \<Rightarrow> nat" where
  "count_live_connections d = count_live d (connections d) 0"

section \<open>Removing a connection from the event loop\<close>

definition connection_removed :: "('a::linorder, 'z) lib_scheme \<Rightarrow> cid \<Rightarrow> 'a daemon \<Rightarrow> 'a daemon" where
  "connection_removed L i d =
     (if c_kind (obj d i) = Service_conn \<and> f_remote_connection (obj d i)
      then connection_lost L (f_address (obj d i)) d else d)"

definition remove_connection :: "('a::linorder, 'z) lib_scheme \<Rightarrow> cid \<Rightarrow> 'a daemon \<Rightarrow> 'a daemon" where
  "remove_connection L i d =
     (if i \<in> set (connections d) then connection_removed L i (unlist_connection i d) else d)"

section \<open>Invariant\<close>

text \<open>
  The registered connections are distinct objects; the two maps are sorted; each outgoing connection
  and each gossip connection is the object of its address; an address in \<open>f_smaller_ips\<close> is known and
  smaller than ours, and a registered outgoing connection is the one of its address.
\<close>

definition registered_ok :: "'a daemon \<Rightarrow> bool" where
  "registered_ok d \<longleftrightarrow> distinct (connections d) \<and> (\<forall>i \<in> set (connections d). i < next_id d)"

definition smaller_ok :: "'a::linorder daemon \<Rightarrow> bool" where
  "smaller_ok d \<longleftrightarrow> map_ok (f_smaller_ips d) \<and> f_connection_address d \<notin> f_all_ips d \<and>
     (\<forall>a i. map_find (f_smaller_ips d) a = Some i \<longrightarrow>
        a \<in> f_all_ips d \<and> a < f_connection_address d \<and> i < next_id d \<and>
        c_kind (obj d i) = Remote_conn \<and> f_address (obj d i) = a)"

definition outgoing_ok :: "'a daemon \<Rightarrow> bool" where
  "outgoing_ok d \<longleftrightarrow> (\<forall>i \<in> set (connections d). c_kind (obj d i) = Remote_conn \<longrightarrow>
     map_find (f_smaller_ips d) (f_address (obj d i)) = Some i)"

definition gossip_ok :: "'a::linorder daemon \<Rightarrow> bool" where
  "gossip_ok d \<longleftrightarrow> map_ok (f_gossip_ips d) \<and>
     (\<forall>a i. map_find (f_gossip_ips d) a = Some i \<longrightarrow>
        i \<in> set (connections d) \<and> c_kind (obj d i) = Gossip_conn \<and> f_address (obj d i) = a)"

definition rc_inv :: "'a::linorder daemon \<Rightarrow> bool" where
  "rc_inv d \<longleftrightarrow> registered_ok d \<and> smaller_ok d \<and> outgoing_ok d \<and> gossip_ok d"

lemmas rc_inv_defs = rc_inv_def registered_ok_def smaller_ok_def outgoing_ok_def gossip_ok_def

text \<open>The fields the invariant looks at; an operation that leaves them alone keeps it.\<close>

definition rc_view where
  "rc_view d = (connections d, next_id d, f_connection_address d, f_all_ips d, f_smaller_ips d,
     f_gossip_ips d, \<lambda>i. (c_kind (obj d i), f_address (obj d i)))"

lemma rc_inv_view: "rc_view d = rc_view d' \<Longrightarrow> rc_inv d = rc_inv d'"
  by (simp add: rc_view_def rc_inv_defs fun_eq_iff)

lemma rc_view_upd_conn:
  assumes "\<And>c. c_kind (f c) = c_kind c" and "\<And>c. f_address (f c) = f_address c"
  shows "rc_view (upd_conn i f d) = rc_view d"
  using assms by (simp add: rc_view_def upd_conn_def fun_eq_iff)

lemma rc_view_only_sends: "only_sends d d' \<Longrightarrow> rc_view d' = rc_view d"
  by (erule only_sends_field) (simp add: rc_view_def)

text \<open>
  Forgetting a daemon that is gossiped to leaves its gossip connection registered with the event loop.
\<close>

lemma forget_leaves_gossip:
  "map_find (f_smaller_ips d) a = None \<Longrightarrow> connections (forget_remote_connection a d) = connections d"
  by (simp add: forget_remote_connection_def Let_def split: option.split)

end
