(* ===== verification/Sample.thy ===== *)
theory Sample
  imports Utils Remote_Communicators
begin

text \<open>
  A concrete library and a concrete daemon, for the examples that show that the hypotheses of a
  property can hold.  Addresses are integers: 0 is the loopback, those below 100 are private, the
  others public; an address is written in decimal.
\<close>

definition sample_tokens :: "string \<Rightarrow> string \<Rightarrow> bool \<Rightarrow> string list" where
  "sample_tokens s delims trim_empty =
     (let ts = map (trim_chars '' '') (split_chars delims [] s)
      in filter (\<lambda>t. t \<noteq> []) ts)"

definition sample_range :: "string \<Rightarrow> int addr_range" where
  "sample_range s = \<lparr>has_to = False, is_range = False, range_from = undec_string s\<rparr>"

definition sample_lib :: "int lib" where
  "sample_lib =
     \<lparr>net_type = (\<lambda>a. if a = 0 then Loopback else if a < 100 then Private else Public),
      is_default_addr = (\<lambda>a. a = - 1), default_addr = - 1, set_port = (\<lambda>a p. a),
      ip_string = dec_string, ip_bracket_string = dec_string, ip_port_string = dec_string,
      string_to_addr = (\<lambda>s dflt port. undec_string s),
      parse_default_port = (\<lambda>s. map sample_range (sample_tokens s '','' True)),
      parse_required_port = (\<lambda>s. map sample_range (sample_tokens s '','' True)),
      trim_string = trim_chars '' '',
      tokens = (\<lambda>c s delims trim tc. c \<union> set (filter (\<lambda>t. t \<noteq> []) (map (trim_chars tc) (split_chars delims [] s)))),
      token_list = sample_tokens,
      join_strings = (\<lambda>S delim. comma_join (sorted_list_of_set S)),
      to_integer = undec_string,
      convert_duration = (\<lambda>s. map_option of_int (undec_string s)),
      check_version = (\<lambda>m. True), add_version = (\<lambda>m. m)\<rparr>"

definition sample_conn :: "conn_kind \<Rightarrow> string \<Rightarrow> int \<Rightarrow> string set \<Rightarrow> int conn" where
  "sample_conn k n a cmds =
     (blank_conn sample_lib k)\<lparr>c_name := n, f_address := a, f_understood_commands := cmds,
        f_type := Local\<rparr>"

definition sample_daemon :: "int conn list \<Rightarrow> int daemon" where
  "sample_daemon cs =
     \<lparr>obj = (\<lambda>i. if i < length cs then cs ! i else blank_conn sample_lib Other_conn),
      next_id = length cs, connections = [0..<length cs],
      f_server_name = ''alpha'', f_neighbors_cache_filename = [], f_public_ip = [], f_secure_ip = [],
      f_connection_address = 10, f_local_services = [], f_local_services_list = {},
      f_services_heard_of = [], f_services_heard_of_list = {}, f_explicit_neighbors = [],
      f_all_neighbors = {||}, f_max_connections = 100, f_total_count_sent = 0, f_shutdown = False,
      f_debug_all_messages = False, f_local_message_cache = [], f_received_broadcast_messages = [],
      f_cluster_status = [], f_cluster_complete = [], f_interrupt = None, f_local_listener = None,
      f_remote_listener = None, f_secure_listener = None, f_unix_listener = None, f_ping = None,
      g_broadcast_sequence = 0, f_last_start_date = 0, f_all_ips = {}, f_smaller_ips = [],
      f_gossip_ips = [], g_blocked_ips = [], g_max_gossip_timeout = 3600000000, p_loadavg = False,
      now = 1000, debug_severity = False, data_path = ''/data'', neighbors_txt = None,
      can_write_neighbors = True, out = []\<rparr>"

lemma sample_lib_integers: "integer_roundtrip sample_lib"
  by (simp add: integer_roundtrip_def sample_lib_def undec_dec_string)

lemma sample_lib_addresses:
  "string_to_addr sample_lib (ip_port_string sample_lib a) dflt port = Some a"
  by (simp add: sample_lib_def undec_dec_string)

lemma sample_daemon_rc_inv:
  assumes "\<forall>c \<in> set cs. c_kind c \<noteq> Remote_conn"
  shows "rc_inv (sample_daemon cs)"
  using assms by (auto simp: rc_inv_defs sample_daemon_def map_ok_def)

end
