(* ===== verification/Broadcast.thy ===== *)
theory Broadcast
  imports Sample
begin

text \<open>
  \<open>communicatord::broadcast_message\<close>: the part that reads the broadcast parameters of a message that
  already travelled (\<open>broadcast_prologue\<close>), the choice of the connections (\<open>broadcast_scan\<close>, or
  \<open>broadcast_accepting\<close> when the caller gives a list), the parameters put in the copy sent to other
  daemons (\<open>broadcast_copy\<close>) and the function itself.  Local services get the message as it is, while
  the connections are scanned; other daemons get the copy, afterwards.
\<close>

section \<open>Reading a message that already travelled\<close>

record broadcast_info =
  i_msgid :: string
  i_informed :: string
  i_hops :: int
  i_timeout :: int

text \<open>The result is \<open>None\<close> where the function returns without broadcasting.\<close>

definition broadcast_prologue :: "('a, 'z) lib_scheme \<Rightarrow> message \<Rightarrow> 'a daemon
    \<Rightarrow> ('a daemon, broadcast_info option) res" where
  "broadcast_prologue L msg d =
     (if \<not> has_parameter msg ''broadcast_msgid''
      then Ret (Some \<lparr>i_msgid = [], i_informed = [], i_hops = 0, i_timeout = 0\<rparr>) d
      else bind_res (of_sum (get_integer L msg ''broadcast_timeout'') d) (\<lambda>timeout d.
        if timeout < now d then Ret None d
        else
          let msgid = param msg ''broadcast_msgid'' in
          if map_find (f_received_broadcast_messages d) msgid \<noteq> None then Ret None d
          else
            let kept = map_erase_if (\<lambda>_ t. t < now d) (f_received_broadcast_messages d);
                d1 = d\<lparr>f_received_broadcast_messages := map_insert msgid timeout kept\<rparr>
            in bind_res (of_sum (get_parameter msg ''broadcast_informed_neighbors'') d1) (\<lambda>informed d.
               bind_res (of_sum (get_integer L msg ''broadcast_hops'') d) (\<lambda>hops d.
                 Ret (Some \<lparr>i_msgid = msgid, i_informed = informed, i_hops = to_int32 hops,
                            i_timeout = timeout\<rparr>) d))))"

section \<open>Choosing the connections\<close>

definition broadcast_destination :: "message \<Rightarrow> string" where
  "broadcast_destination msg =
     (let service = m_service msg in
      if service \<noteq> ''.'' \<and> service \<noteq> ''?'' \<and> service \<noteq> ''*''
      then (if m_server msg = [] then ''?'' else m_server msg)
      else service)"

definition broadcast_all :: "int \<Rightarrow> string \<Rightarrow> bool" where
  "broadcast_all hops destination \<longleftrightarrow> hops < 5 \<and> destination = ''*''"

definition broadcast_remote :: "int \<Rightarrow> string \<Rightarrow> bool" where
  "broadcast_remote hops destination \<longleftrightarrow>
     hops < 5 \<and> (broadcast_all hops destination \<or> destination = ''?'')"

text \<open>The \<open>switch\<close> on the network of a connection that is not a local service.\<close>

fun broadcast_to_network :: "network_type \<Rightarrow> bool \<Rightarrow> bool \<Rightarrow> bool" where
  "broadcast_to_network Private all remote = remote"
| "broadcast_to_network Public all remote = all"
| "broadcast_to_network _ all remote = False"

text \<open>A connection that gets the message itself, while the list is scanned.\<close>

definition local_recipient :: "('a, 'z) lib_scheme \<Rightarrow> 'a conn \<Rightarrow> string \<Rightarrow> bool" where
  "local_recipient L c cmd \<longleftrightarrow>
     (c_kind c = Unix_conn \<or> c_kind c = Service_conn \<and> net_type L (f_address c) = Loopback) \<and>
     understand_command c cmd"

text \<open>A connection to another daemon that the destination covers.\<close>

definition remote_recipient :: "('a, 'z) lib_scheme \<Rightarrow> bool \<Rightarrow> bool \<Rightarrow> 'a conn \<Rightarrow> bool" where
  "remote_recipient L all remote c \<longleftrightarrow>
     (c_kind c = Service_conn \<or> c_kind c = Remote_conn) \<and>
     broadcast_to_network (net_type L (f_address c)) all remote"

definition note_recipient :: "('a, 'z) lib_scheme \<Rightarrow> 'a daemon \<Rightarrow> cid \<Rightarrow> string set \<times> cid list
    \<Rightarrow> string set \<times> cid list" where
  "note_recipient L d i = (\<lambda>(informed, chosen).
     let address = ip_string L (f_address (obj d i)) in
     if address \<in> informed then (informed, chosen) else (insert address informed, chosen @ [i]))"

fun broadcast_scan :: "('a, 'z) lib_scheme \<Rightarrow> message \<Rightarrow> bool \<Rightarrow> bool \<Rightarrow> cid list \<Rightarrow> string set \<times> cid list
    \<Rightarrow> 'a daemon \<Rightarrow> (string set \<times> cid list) \<times> 'a daemon" where
  "broadcast_scan L msg all remote [] st d = (st, d)"
| "broadcast_scan L msg all remote (i # is) st d =
     (if local_recipient L (obj d i) (m_command msg)
      then broadcast_scan L msg all remote is st (send_message i msg d)
      else if remote_recipient L all remote (obj d i)
      then broadcast_scan L msg all remote is (note_recipient L d i st) d
      else broadcast_scan L msg all remote is st d)"

text \<open>With a list of connections from the caller, the destination is not looked at.\<close>

fun broadcast_accepting :: "('a, 'z) lib_scheme \<Rightarrow> cid list \<Rightarrow> string set \<times> cid list \<Rightarrow> 'a daemon
    \<Rightarrow> string set \<times> cid list" where
  "broadcast_accepting L [] st d = st"
| "broadcast_accepting L (i # is) st d =
     (if c_kind (obj d i) = Service_conn \<or> c_kind (obj d i) = Remote_conn
      then broadcast_accepting L is (note_recipient L d i st) d
      else broadcast_accepting L is st d)"

section \<open>Sending\<close>

definition broadcast_copy :: "('a, 'z) lib_scheme \<Rightarrow> message \<Rightarrow> broadcast_info \<Rightarrow> string \<Rightarrow> string set \<Rightarrow> 'a daemon
    \<Rightarrow> message" where
  "broadcast_copy L msg info msgid informed d =
     (let originator = ip_bracket_string L (f_connection_address d);
          informed' = (if originator \<in> informed then insert originator informed else informed);
          timeout = (if i_timeout info = 0 then now d + 10 else i_timeout info)
      in add_parameter ''broadcast_informed_neighbors'' (join_strings L informed' '','')
         (add_integer ''broadcast_timeout'' timeout
         (add_parameter ''broadcast_originator'' originator
         (add_integer ''broadcast_hops'' (to_int32 (i_hops info + 1))
         (add_parameter ''secure_remote'' ''false''
         (add_parameter ''broadcast_msgid'' msgid msg))))))"

definition broadcast_send :: "('a, 'z) lib_scheme \<Rightarrow> message \<Rightarrow> broadcast_info \<Rightarrow> string set \<times> cid list \<Rightarrow> 'a daemon
    \<Rightarrow> 'a daemon" where
  "broadcast_send L msg info = (\<lambda>(informed, chosen) d.
     if chosen = [] then d
     else
       let d1 = (if i_msgid info = [] then d\<lparr>g_broadcast_sequence := g_broadcast_sequence d + 1\<rparr> else d);
           msgid = (if i_msgid info = []
                    then f_server_name d1 @ ''-'' @ dec_string (g_broadcast_sequence d1)
                    else i_msgid info);
           copy = broadcast_copy L msg info msgid informed d1
       in foldl (\<lambda>d i. send_message i copy d) d1 chosen)"

definition broadcast_choose :: "('a, 'z) lib_scheme \<Rightarrow> message \<Rightarrow> broadcast_info \<Rightarrow> cid list \<Rightarrow> 'a daemon
    \<Rightarrow> (string set \<times> cid list) \<times> 'a daemon" where
  "broadcast_choose L msg info accepting d =
     (let informed = tokens L {} (i_informed info) '','' True [];
          destination = broadcast_destination msg
      in if accepting = []
         then broadcast_scan L msg (broadcast_all (i_hops info) destination)
                (broadcast_remote (i_hops info) destination) (connections d) (informed, []) d
         else (broadcast_accepting L accepting (informed, []) d, d))"

definition broadcast_message :: "('a, 'z) lib_scheme \<Rightarrow> message \<Rightarrow> cid list \<Rightarrow> 'a daemon
    \<Rightarrow> ('a daemon, unit) res" where
  "broadcast_message L msg accepting d =
     bind_res (broadcast_prologue L msg d) (\<lambda>r d.
       case r of
         None \<Rightarrow> ok d
       | Some info \<Rightarrow>
           let (st, d) = broadcast_choose L msg info accepting d in ok (broadcast_send L msg info st d))"

text \<open>
  A broadcast of a message made by the daemon, which has no broadcast parameters: it cannot throw.
\<close>

definition broadcast_new :: "('a, 'z) lib_scheme \<Rightarrow> message \<Rightarrow> cid list \<Rightarrow> 'a daemon \<Rightarrow> 'a daemon" where
  "broadcast_new L msg accepting d = res_state (broadcast_message L msg accepting d)"

section \<open>Which connections a broadcast reaches\<close>

abbreviation conn_ip :: "('a, 'z) lib_scheme \<Rightarrow> 'a daemon \<Rightarrow> cid \<Rightarrow> string" where
  "conn_ip L d i \<equiv> ip_string L (f_address (obj d i))"

text \<open>
  What both scans do with the other daemons: \<open>chosen\<close> grows by connections with addresses that are
  new and pairwise different, every address met is informed in the end.
\<close>

definition picks :: "('a, 'z) lib_scheme \<Rightarrow> 'a daemon \<Rightarrow> cid list \<Rightarrow> string set \<times> cid list
    \<Rightarrow> string set \<times> cid list \<Rightarrow> bool" where
  "picks L d is st st' \<longleftrightarrow>
     (\<exists>new. snd st' = snd st @ new \<and> set new \<subseteq> set is \<and> distinct (map (conn_ip L d) new) \<and>
        (\<forall>i \<in> set new. conn_ip L d i \<notin> fst st) \<and> fst st' = fst st \<union> conn_ip L d ` set is \<and>
        conn_ip L d ` set is - fst st = conn_ip L d ` set new)"

lemma picks_refl: "picks L d [] st st"
  by (simp add: picks_def)

lemma picks_step:
  assumes "picks L d is (note_recipient L d i st) st'"
  shows "picks L d (i # is) st st'"
proof (cases "conn_ip L d i \<in> fst st")
  case True
  then have "note_recipient L d i st = st" by (cases st) (simp add: note_recipient_def)
  with assms True show ?thesis by (fastforce simp: picks_def)
next
  case False
  then have n: "note_recipient L d i st = (insert (conn_ip L d i) (fst st), snd st @ [i])"
    by (cases st) (simp add: note_recipient_def)
  obtain new where new: "snd st' = snd st @ i # new" "set new \<subseteq> set is"
      "distinct (map (conn_ip L d) new)" "\<forall>j \<in> set new. conn_ip L d j \<notin> insert (conn_ip L d i) (fst st)"
      "fst st' = insert (conn_ip L d i) (fst st) \<union> conn_ip L d ` set is"
      "conn_ip L d ` set is - insert (conn_ip L d i) (fst st) = conn_ip L d ` set new"
    using assms unfolding picks_def n by auto
  show ?thesis
    unfolding picks_def
  proof (intro exI conjI)
    show "snd st' = snd st @ (i # new)" by (fact new)
    show "conn_ip L d ` set (i # is) - fst st = conn_ip L d ` set (i # new)"
      using new(6) False by auto
  qed (use new False in \<open>auto simp: image_iff\<close>)
qed

lemma broadcast_accepting_picks:
  "picks L d (filter (\<lambda>i. c_kind (obj d i) = Service_conn \<or> c_kind (obj d i) = Remote_conn) is) st
     (broadcast_accepting L is st d)"
  by (induction L "is" st d rule: broadcast_accepting.induct) (auto simp: picks_refl intro: picks_step)

lemma note_recipient_obj: "obj d' = obj d \<Longrightarrow> note_recipient L d' i st = note_recipient L d i st"
  by (simp add: note_recipient_def)

lemma picks_obj: "obj d' = obj d \<Longrightarrow> picks L d' is st st' = picks L d is st st'"
  by (simp add: picks_def)

text \<open>The local services that get the message, and the daemons that may get the copy.\<close>

abbreviation local_targets :: "('a, 'z) lib_scheme \<Rightarrow> message \<Rightarrow> 'a daemon \<Rightarrow> cid list \<Rightarrow> cid list" where
  "local_targets L msg d is \<equiv> filter (\<lambda>i. local_recipient L (obj d i) (m_command msg)) is"

abbreviation remote_targets :: "('a, 'z) lib_scheme \<Rightarrow> bool \<Rightarrow> bool \<Rightarrow> 'a daemon \<Rightarrow> cid list \<Rightarrow> cid list" where
  "remote_targets L all remote d is \<equiv> filter (\<lambda>i. remote_recipient L all remote (obj d i)) is"

lemma local_not_remote: "local_recipient L c cmd \<Longrightarrow> \<not> remote_recipient L all remote c"
  by (auto simp: local_recipient_def remote_recipient_def)

lemma broadcast_scan_spec:
  "broadcast_scan L msg all remote is st d = (st', d') \<Longrightarrow>
     d' = d\<lparr>out := out d @ map (\<lambda>i. Sent i msg) (local_targets L msg d is)\<rparr> \<and>
     picks L d (remote_targets L all remote d is) st st'"
proof (induction L msg all remote "is" st d rule: broadcast_scan.induct)
  case (2 L msg all remote i "is" st d)
  show ?case
  proof (cases "local_recipient L (obj d i) (m_command msg)")
    case True
    with 2 local_not_remote [OF True] show ?thesis
      by (simp add: send_message_def emit_def picks_def)
  next
    case False
    with 2 show ?thesis by (auto split: if_splits intro: picks_step)
  qed
qed (simp add: picks_refl)

lemma foldl_send: "foldl (\<lambda>d i. send_message i m d) d is = d\<lparr>out := out d @ map (\<lambda>i. Sent i m) is\<rparr>"
  by (induction "is" arbitrary: d) (simp_all add: send_message_def emit_def)

lemma broadcast_send_spec:
  "\<exists>copy q. broadcast_send L msg info (informed, chosen) d =
     d\<lparr>out := out d @ map (\<lambda>i. Sent i copy) chosen, g_broadcast_sequence := q\<rparr> \<and>
     (chosen \<noteq> [] \<longrightarrow> (\<exists>msgid d1. msgid \<noteq> [] \<and> now d1 = now d \<and>
        copy = broadcast_copy L msg info msgid informed d1 \<and>
        (i_msgid info \<noteq> [] \<longrightarrow> msgid = i_msgid info)))"
proof (cases "chosen = []")
  case True
  then show ?thesis
    by (intro exI [of _ msg] exI [of _ "g_broadcast_sequence d"]) (simp add: broadcast_send_def)
next
  case False
  let ?q = "if i_msgid info = [] then g_broadcast_sequence d + 1 else g_broadcast_sequence d"
  let ?d = "d\<lparr>g_broadcast_sequence := ?q\<rparr>"
  let ?id = "if i_msgid info = [] then f_server_name d @ ''-'' @ dec_string ?q else i_msgid info"
  have "broadcast_send L msg info (informed, chosen) d =
      ?d\<lparr>out := out d @ map (\<lambda>i. Sent i (broadcast_copy L msg info ?id informed ?d)) chosen\<rparr>"
    using False by (simp add: broadcast_send_def foldl_send Let_def)
  then show ?thesis
    by (intro exI [of _ "broadcast_copy L msg info ?id informed ?d"] exI [of _ ?q])
      (auto intro!: exI [of _ ?id] exI [of _ ?d])
qed

lemma broadcast_message_prologue:
  assumes "broadcast_prologue L msg d = Ret (Some info) d1"
  shows "broadcast_message L msg acc d =
    (let (st, d2) = broadcast_choose L msg info acc d1 in ok (broadcast_send L msg info st d2))"
  using assms by (simp add: broadcast_message_def)

lemma broadcast_message_form:
  assumes "broadcast_prologue L msg d = Ret (Some info) d1"
  obtains chosen copy q where
    "broadcast_message L msg [] d =
      ok (d1\<lparr>out := out d1 @ map (\<lambda>i. Sent i msg) (local_targets L msg d1 (connections d1)) @
                    map (\<lambda>i. Sent i copy) chosen,
             g_broadcast_sequence := q\<rparr>)"
    "set chosen \<subseteq> set (remote_targets L (broadcast_all (i_hops info) (broadcast_destination msg))
       (broadcast_remote (i_hops info) (broadcast_destination msg)) d1 (connections d1))"
    "distinct (map (conn_ip L d1) chosen)"
    "conn_ip L d1 ` set chosen =
      conn_ip L d1 ` set (remote_targets L (broadcast_all (i_hops info) (broadcast_destination msg))
        (broadcast_remote (i_hops info) (broadcast_destination msg)) d1 (connections d1))
      - tokens L {} (i_informed info) '','' True []"
    "chosen \<noteq> [] \<Longrightarrow> \<exists>msgid informed d2. msgid \<noteq> [] \<and> now d2 = now d1 \<and>
       copy = broadcast_copy L msg info msgid informed d2 \<and> (i_msgid info \<noteq> [] \<longrightarrow> msgid = i_msgid info)"
proof -
  let ?all = "broadcast_all (i_hops info) (broadcast_destination msg)"
  let ?rem = "broadcast_remote (i_hops info) (broadcast_destination msg)"
  let ?inf = "tokens L {} (i_informed info) '','' True []"
  obtain st d2 where sc: "broadcast_scan L msg ?all ?rem (connections d1) (?inf, []) d1 = (st, d2)"
    by fastforce
  from broadcast_scan_spec [OF sc]
  have d2: "d2 = d1\<lparr>out := out d1 @ map (\<lambda>i. Sent i msg) (local_targets L msg d1 (connections d1))\<rparr>"
    and p: "picks L d1 (remote_targets L ?all ?rem d1 (connections d1)) (?inf, []) st" by blast+
  obtain informed chosen where st: "st = (informed, chosen)" by fastforce
  obtain copy q where q: "broadcast_send L msg info (informed, chosen) d2 =
      d2\<lparr>out := out d2 @ map (\<lambda>i. Sent i copy) chosen, g_broadcast_sequence := q\<rparr>"
    and copy: "chosen \<noteq> [] \<longrightarrow> (\<exists>msgid d3. msgid \<noteq> [] \<and> now d3 = now d2 \<and>
        copy = broadcast_copy L msg info msgid informed d3 \<and> (i_msgid info \<noteq> [] \<longrightarrow> msgid = i_msgid info))"
    using broadcast_send_spec [of L msg info informed chosen d2] by blast
  have "broadcast_message L msg [] d =
      ok (d1\<lparr>out := out d1 @ map (\<lambda>i. Sent i msg) (local_targets L msg d1 (connections d1)) @
                    map (\<lambda>i. Sent i copy) chosen, g_broadcast_sequence := q\<rparr>)"
    by (simp add: broadcast_message_prologue [OF assms] broadcast_choose_def sc st d2 q [unfolded d2])
  moreover from p have "set chosen \<subseteq> set (remote_targets L ?all ?rem d1 (connections d1))"
      "distinct (map (conn_ip L d1) chosen)"
      "conn_ip L d1 ` set chosen = conn_ip L d1 ` set (remote_targets L ?all ?rem d1 (connections d1)) - ?inf"
    unfolding st picks_def by auto
  moreover have "now d2 = now d1" by (simp add: d2)
  then have "chosen \<noteq> [] \<Longrightarrow> \<exists>msgid informed d2. msgid \<noteq> [] \<and> now d2 = now d1 \<and>
       copy = broadcast_copy L msg info msgid informed d2 \<and> (i_msgid info \<noteq> [] \<longrightarrow> msgid = i_msgid info)"
    using copy by metis
  ultimately show ?thesis by (rule that)
qed

text \<open>
  C1: A broadcast that is not dropped goes, in this order, to every local service that understands
  the command, unchanged, and then in one common copy to the connections chosen among those of
  other daemons.  The chosen connections have pairwise different addresses, and their addresses are
  exactly those of the eligible connections that are not in the list of informed neighbors of the
  message.
\<close>

theorem broadcast_message_reaches:
  assumes "broadcast_prologue L msg d = Ret (Some info) d1"
  shows "\<exists>chosen copy q.
    broadcast_message L msg [] d =
      ok (d1\<lparr>out := out d1 @ map (\<lambda>i. Sent i msg) (local_targets L msg d1 (connections d1)) @
                    map (\<lambda>i. Sent i copy) chosen,
             g_broadcast_sequence := q\<rparr>) \<and>
    set chosen \<subseteq> set (remote_targets L (broadcast_all (i_hops info) (broadcast_destination msg))
       (broadcast_remote (i_hops info) (broadcast_destination msg)) d1 (connections d1)) \<and>
    distinct (map (conn_ip L d1) chosen) \<and>
    conn_ip L d1 ` set chosen =
      conn_ip L d1 ` set (remote_targets L (broadcast_all (i_hops info) (broadcast_destination msg))
        (broadcast_remote (i_hops info) (broadcast_destination msg)) d1 (connections d1))
      - tokens L {} (i_informed info) '','' True []"
  by (rule broadcast_message_form [OF assms]) blast

definition sample_broadcast :: message where
  "sample_broadcast = new_message\<lparr>m_command := ''PING'', m_service := ''*''\<rparr>"

definition sample_cluster :: "int daemon" where
  "sample_cluster = sample_daemon
     [sample_conn Unix_conn ''u'' 0 {''PING''}, sample_conn Remote_conn ''r'' 20 {},
      sample_conn Service_conn ''s'' 200 {}, sample_conn Service_conn ''t'' 20 {}]"

lemma sample_broadcast_returns:
  obtains d' where "broadcast_message sample_lib sample_broadcast [] sample_cluster = Ret () d'"
proof (cases "broadcast_message sample_lib sample_broadcast [] sample_cluster")
  case (Raise e s)
  have "case broadcast_message sample_lib sample_broadcast [] sample_cluster of Ret _ _ \<Rightarrow> True | _ \<Rightarrow> False"
    by code_simp
  with Raise show ?thesis by simp
qed (use that in auto)

lemma sample_broadcast_fresh:
  "broadcast_prologue sample_lib sample_broadcast sample_cluster =
     Ret (Some \<lparr>i_msgid = [], i_informed = [], i_hops = 0, i_timeout = 0\<rparr>) sample_cluster"
  by (simp add: broadcast_prologue_def sample_broadcast_def new_message_def has_parameter_def)

theorem broadcast_message_reaches_witness:
  "\<exists>chosen copy q. broadcast_message sample_lib sample_broadcast [] sample_cluster =
     ok (sample_cluster\<lparr>out := out sample_cluster @
            map (\<lambda>i. Sent i sample_broadcast)
              (local_targets sample_lib sample_broadcast sample_cluster (connections sample_cluster)) @
            map (\<lambda>i. Sent i copy) chosen,
          g_broadcast_sequence := q\<rparr>)"
  using broadcast_message_reaches [OF sample_broadcast_fresh] by blast

section \<open>Scope and hops\<close>

lemma broadcast_to_network_iff:
  "broadcast_to_network n all remote \<longleftrightarrow> n = Private \<and> remote \<or> n = Public \<and> all"
  by (cases n) simp_all

lemma remote_recipient_scope:
  "remote_recipient L (broadcast_all hops dest) (broadcast_remote hops dest) c \<longleftrightarrow>
     (c_kind c = Service_conn \<or> c_kind c = Remote_conn) \<and> hops < 5 \<and>
     (net_type L (f_address c) = Private \<and> dest \<in> {''?'', ''*''} \<or>
      net_type L (f_address c) = Public \<and> dest = ''*'')"
  by (auto simp: remote_recipient_def broadcast_to_network_iff broadcast_all_def broadcast_remote_def)

text \<open>The number of daemons a message went through, as the next daemon reads it.\<close>

definition hops_of :: "('a, 'z) lib_scheme \<Rightarrow> message \<Rightarrow> int" where
  "hops_of L msg = (if has_parameter msg ''broadcast_msgid''
     then (case get_integer L msg ''broadcast_hops'' of Inl _ \<Rightarrow> 0 | Inr h \<Rightarrow> to_int32 h) else 0)"

lemma broadcast_prologue_cases:
  assumes "broadcast_prologue L msg d = Ret r d'"
  obtains (fresh) "\<not> has_parameter msg ''broadcast_msgid''" "d' = d"
      "r = Some \<lparr>i_msgid = [], i_informed = [], i_hops = 0, i_timeout = 0\<rparr>"
  | (late) timeout where "has_parameter msg ''broadcast_msgid''" "d' = d" "r = None"
      "get_integer L msg ''broadcast_timeout'' = Inr timeout" "timeout < now d"
  | (again) "has_parameter msg ''broadcast_msgid''" "d' = d" "r = None"
      "map_find (f_received_broadcast_messages d) (param msg ''broadcast_msgid'') \<noteq> None"
  | (relay) timeout informed hops where "has_parameter msg ''broadcast_msgid''"
      "get_integer L msg ''broadcast_timeout'' = Inr timeout" "now d \<le> timeout"
      "map_find (f_received_broadcast_messages d) (param msg ''broadcast_msgid'') = None"
      "get_integer L msg ''broadcast_hops'' = Inr hops"
      "d' = d\<lparr>f_received_broadcast_messages := map_insert (param msg ''broadcast_msgid'') timeout
                (map_erase_if (\<lambda>_ t. t < now d) (f_received_broadcast_messages d))\<rparr>"
      "r = Some \<lparr>i_msgid = param msg ''broadcast_msgid'', i_informed = informed,
                i_hops = to_int32 hops, i_timeout = timeout\<rparr>"
proof (cases "has_parameter msg ''broadcast_msgid''")
  case False
  with assms show ?thesis by (intro fresh) (simp_all add: broadcast_prologue_def Let_def)
next
  case True
  then obtain timeout where t: "get_integer L msg ''broadcast_timeout'' = Inr timeout"
    using assms by (cases "get_integer L msg ''broadcast_timeout''") (simp_all add: broadcast_prologue_def Let_def)
  let ?seen = "map_find (f_received_broadcast_messages d) (param msg ''broadcast_msgid'') \<noteq> None"
  consider "timeout < now d" | "\<not> timeout < now d" "?seen" | "\<not> timeout < now d" "\<not> ?seen" by blast
  then show ?thesis
  proof cases
    case 1
    with assms True t show ?thesis by (intro late) (simp_all add: broadcast_prologue_def Let_def)
  next
    case 2
    with assms True t show ?thesis by (intro again) (simp_all add: broadcast_prologue_def Let_def)
  next
    case 3
    obtain informed where i: "get_parameter msg ''broadcast_informed_neighbors'' = Inr informed"
      using assms True t 3
      by (cases "get_parameter msg ''broadcast_informed_neighbors''") (simp_all add: broadcast_prologue_def Let_def)
    obtain hops where h: "get_integer L msg ''broadcast_hops'' = Inr hops"
      using assms True t 3 i
      by (cases "get_integer L msg ''broadcast_hops''") (simp_all add: broadcast_prologue_def Let_def)
    from assms True t 3 i h show ?thesis
      by (intro relay [of timeout hops informed]) (simp_all add: broadcast_prologue_def Let_def)
  qed
qed

lemma broadcast_prologue_frame:
  assumes "broadcast_prologue L msg d = Ret r d'"
  shows "out d' = out d" "obj d' = obj d" "connections d' = connections d" "now d' = now d"
    "rc_view d' = rc_view d"
  using assms by (cases rule: broadcast_prologue_cases; simp add: rc_view_def)+

lemma broadcast_prologue_hops:
  assumes "broadcast_prologue L msg d = Ret (Some info) d'"
  shows "i_hops info = hops_of L msg"
  using assms by (cases rule: broadcast_prologue_cases) (auto simp: hops_of_def)

lemma to_int32_succ: "h < 5 \<Longrightarrow> h = to_int32 k \<Longrightarrow> to_int32 (h + 1) = h + 1"
  by (rule to_int32_id) (simp_all add: to_int32_def)

lemma hops_of_int32: "\<exists>k. hops_of L msg = to_int32 k"
  by (auto simp: hops_of_def to_int32_id split: sum.split intro: exI [of _ 0])

lemma broadcast_copy_fields:
  "m_params (broadcast_copy L msg info msgid informed d) ''broadcast_hops'' =
     Some (dec_string (to_int32 (i_hops info + 1)))"
  "m_params (broadcast_copy L msg info msgid informed d) ''broadcast_msgid'' = Some msgid"
  "m_params (broadcast_copy L msg info msgid informed d) ''broadcast_timeout'' =
     Some (dec_string (if i_timeout info = 0 then now d + 10 else i_timeout info))"
  "m_command (broadcast_copy L msg info msgid informed d) = m_command msg"
  "m_service (broadcast_copy L msg info msgid informed d) = m_service msg"
  "m_server (broadcast_copy L msg info msgid informed d) = m_server msg"
  by (simp_all add: broadcast_copy_def Let_def)

text \<open>What a broadcast adds to the log: the message itself, or a copy made for an eligible daemon.\<close>

lemma broadcast_message_sent:
  assumes "broadcast_message L msg [] d = Ret () d'"
    and "Sent i m \<in> set (drop (length (out d)) (out d'))"
  obtains (itself) "m = msg" "local_recipient L (obj d i) (m_command msg)"
  | (copied) info msgid informed d2 where "m = broadcast_copy L msg info msgid informed d2" "msgid \<noteq> []"
      "i_hops info = hops_of L msg"
      "remote_recipient L (broadcast_all (hops_of L msg) (broadcast_destination msg))
         (broadcast_remote (hops_of L msg) (broadcast_destination msg)) (obj d i)"
proof (cases "broadcast_prologue L msg d")
  case (Raise e s)
  with assms(1) show ?thesis by (simp add: broadcast_message_def)
next
  case (Ret r d1)
  note o = broadcast_prologue_frame [OF Ret]
  show ?thesis
  proof (cases r)
    case None
    with assms Ret o show ?thesis by (simp add: broadcast_message_def ok_def)
  next
    case (Some info)
    with Ret have p: "broadcast_prologue L msg d = Ret (Some info) d1" by simp
    note h = broadcast_prologue_hops [OF p]
    obtain chosen copy q where
      bm: "broadcast_message L msg [] d =
        ok (d1\<lparr>out := out d1 @ map (\<lambda>i. Sent i msg) (local_targets L msg d1 (connections d1)) @
               map (\<lambda>i. Sent i copy) chosen, g_broadcast_sequence := q\<rparr>)"
      and sub: "set chosen \<subseteq> set (remote_targets L (broadcast_all (i_hops info) (broadcast_destination msg))
        (broadcast_remote (i_hops info) (broadcast_destination msg)) d1 (connections d1))"
      and copy: "chosen \<noteq> [] \<Longrightarrow> \<exists>msgid informed d2. msgid \<noteq> [] \<and> now d2 = now d1 \<and>
        copy = broadcast_copy L msg info msgid informed d2 \<and> (i_msgid info \<noteq> [] \<longrightarrow> msgid = i_msgid info)"
      by (rule broadcast_message_form [OF p]) blast
    from assms bm o consider
        "m = msg" "local_recipient L (obj d i) (m_command msg)"
      | "m = copy" "i \<in> set chosen"
      by (auto simp: ok_def)
    then show ?thesis
    proof cases
      case 1
      then show ?thesis by (rule itself)
    next
      case 2
      then have r: "remote_recipient L (broadcast_all (hops_of L msg) (broadcast_destination msg))
          (broadcast_remote (hops_of L msg) (broadcast_destination msg)) (obj d i)"
        using sub o h by auto
      obtain msgid informed d2 where "copy = broadcast_copy L msg info msgid informed d2" "msgid \<noteq> []"
        using copy 2 by fastforce
      with r h 2 show ?thesis by (intro copied) simp_all
    qed
  qed
qed

lemma broadcast_copy_relayed:
  assumes "remote_recipient L (broadcast_all (hops_of L msg) dest) (broadcast_remote (hops_of L msg) dest) c"
    and "i_hops info = hops_of L msg"
  shows "hops_of L msg < 5 \<and>
    m_params (broadcast_copy L msg info msgid informed d) ''broadcast_hops'' = Some (dec_string (hops_of L msg + 1)) \<and>
    has_parameter (broadcast_copy L msg info msgid informed d) ''broadcast_msgid''"
  using assms hops_of_int32 [of L msg]
  by (auto simp: remote_recipient_scope broadcast_copy_fields has_parameter_def to_int32_succ)

text \<open>
  C19: What a broadcast sends is either the message itself, to a local service that understands it,
  or a copy with one more hop to a connection of another daemon. A copy goes to a private address
  only for the destinations "?" and "*", to a public one only for "*", and to no daemon at all when
  the message already made five hops.
\<close>

theorem broadcast_message_scope:
  assumes "broadcast_message L msg [] d = Ret () d'"
    and "Sent i m \<in> set (drop (length (out d)) (out d'))"
  shows "m = msg \<and> local_recipient L (obj d i) (m_command msg) \<or>
    (c_kind (obj d i) = Service_conn \<or> c_kind (obj d i) = Remote_conn) \<and>
    hops_of L msg < 5 \<and>
    m_params m ''broadcast_hops'' = Some (dec_string (hops_of L msg + 1)) \<and>
    has_parameter m ''broadcast_msgid'' \<and> m_command m = m_command msg \<and> m_service m = m_service msg \<and>
    (net_type L (f_address (obj d i)) = Private \<and> broadcast_destination msg \<in> {''?'', ''*''} \<or>
     net_type L (f_address (obj d i)) = Public \<and> broadcast_destination msg = ''*'')"
  using assms
proof (cases rule: broadcast_message_sent)
  case copied
  with broadcast_copy_relayed [OF copied(4,3)] show ?thesis
    by (auto simp: remote_recipient_scope broadcast_copy_fields)
qed simp

theorem broadcast_message_scope_witness:
  "\<exists>m. m_params m ''broadcast_hops'' = Some ''1'' \<and>
     Sent 1 m \<in> set (out (res_state (broadcast_message sample_lib sample_broadcast [] sample_cluster)))"
proof -
  obtain d' where d': "broadcast_message sample_lib sample_broadcast [] sample_cluster = Ret () d'"
    by (rule sample_broadcast_returns)
  have "1 \<in> set (map fst (sent_messages (out (res_state
      (broadcast_message sample_lib sample_broadcast [] sample_cluster)))))"
    by code_simp
  then obtain m where m: "Sent 1 m \<in> set (out d')" by (auto simp: d' sent_messages_iff)
  have o: "out sample_cluster = []" by (simp add: sample_cluster_def sample_daemon_def)
  have l: "\<not> local_recipient sample_lib (obj sample_cluster 1) (m_command sample_broadcast)"
    by code_simp
  have h: "hops_of sample_lib sample_broadcast = 0" "dec_string 1 = ''1''" by code_simp+
  from broadcast_message_scope [OF d', of 1 m] m l h o show ?thesis by (auto simp: d')
qed

section \<open>A message comes back\<close>

text \<open>
  The entries of \<open>f_received_broadcast_messages\<close> have not expired when a message was last accepted,
  so the map holds no more than the messages of the current window.
\<close>

lemma received_map_ok:
  assumes "broadcast_prologue L msg d = Ret r d'" and "map_ok (f_received_broadcast_messages d)"
  shows "map_ok (f_received_broadcast_messages d')"
  using assms(1)
  by (cases rule: broadcast_prologue_cases) (simp_all add: assms(2) map_ok_insert map_ok_erase_if)

lemma broadcast_choose_frame:
  assumes "broadcast_choose L msg info acc d = (st, d')"
  shows "only_sends d d'"
proof (cases "acc = []")
  case True
  with assms have "broadcast_scan L msg
      (broadcast_all (i_hops info) (broadcast_destination msg))
      (broadcast_remote (i_hops info) (broadcast_destination msg)) (connections d)
      (tokens L {} (i_informed info) '','' True [], []) d = (st, d')"
    by (simp add: broadcast_choose_def Let_def)
  from broadcast_scan_spec [OF this] show ?thesis by (simp add: only_sends_def)
qed (use assms in \<open>simp add: broadcast_choose_def Let_def\<close>)

lemma broadcast_send_frame:
  "\<exists>es q. broadcast_send L msg info st d = d\<lparr>out := out d @ es, g_broadcast_sequence := q\<rparr>"
  using broadcast_send_spec [of L msg info "fst st" "snd st" d] by auto

text \<open>A broadcast changes the log, the sequence number and the map of received messages only.\<close>

lemma broadcast_message_Ret:
  assumes "broadcast_message L msg acc d = Ret () d'"
  obtains r d1 es q where "broadcast_prologue L msg d = Ret r d1"
    "d' = d1\<lparr>out := out d1 @ es, g_broadcast_sequence := q\<rparr>"
proof (cases "broadcast_prologue L msg d")
  case (Raise e s)
  with assms show ?thesis by (simp add: broadcast_message_def)
next
  case (Ret r d1)
  show ?thesis
  proof (cases r)
    case None
    with assms Ret show ?thesis
      by (intro that [where r = r and ?d1.0 = d1 and es = "[]" and q = "g_broadcast_sequence d1"]) (simp_all add: broadcast_message_def ok_def)
  next
    case (Some info)
    obtain st d2 where c: "broadcast_choose L msg info acc d1 = (st, d2)" by fastforce
    obtain es where d2: "d2 = d1\<lparr>out := out d1 @ es\<rparr>"
      using broadcast_choose_frame [OF c] unfolding only_sends_def by metis
    obtain fs q where "broadcast_send L msg info st d2 = d2\<lparr>out := out d2 @ fs, g_broadcast_sequence := q\<rparr>"
      using broadcast_send_frame by blast
    with assms Ret Some c d2 show ?thesis
      by (intro that [where r = r and ?d1.0 = d1 and es = "es @ fs" and q = q]) (simp_all add: broadcast_message_def ok_def)
  qed
qed

lemma broadcast_message_again:
  assumes "has_parameter msg ''broadcast_msgid''"
    and "get_integer L msg ''broadcast_timeout'' = Inr timeout"
    and "map_find (f_received_broadcast_messages d) (param msg ''broadcast_msgid'') \<noteq> None \<or> timeout < now d"
  shows "broadcast_message L msg acc d = ok d"
  using assms by (auto simp: broadcast_message_def broadcast_prologue_def)

text \<open>
  C15: A message that was broadcast once is broadcast no more: when a second copy with the same
  identifier arrives, however it got here and whatever else it carries, nothing is sent and nothing
  changes, at any later time.
\<close>

theorem broadcast_message_once:
  assumes "broadcast_message L msg acc d = Ret () d'"
    and "has_parameter msg ''broadcast_msgid''" and "map_ok (f_received_broadcast_messages d)"
    and "param msg2 ''broadcast_msgid'' = param msg ''broadcast_msgid''"
    and "has_parameter msg2 ''broadcast_msgid''"
    and "get_integer L msg2 ''broadcast_timeout'' = get_integer L msg ''broadcast_timeout''"
    and "now d \<le> t"
  shows "broadcast_message L msg2 acc2 (d'\<lparr>now := t\<rparr>) = ok (d'\<lparr>now := t\<rparr>)"
proof -
  obtain r d1 es q where p: "broadcast_prologue L msg d = Ret r d1"
    and d': "d' = d1\<lparr>out := out d1 @ es, g_broadcast_sequence := q\<rparr>"
    by (rule broadcast_message_Ret [OF assms(1)])
  obtain timeout where t: "get_integer L msg ''broadcast_timeout'' = Inr timeout"
    using p assms(2)
    by (cases "get_integer L msg ''broadcast_timeout''") (simp_all add: broadcast_prologue_def)
  have "timeout < t \<or> map_find (f_received_broadcast_messages d') (param msg ''broadcast_msgid'') \<noteq> None"
    using p
  proof (cases rule: broadcast_prologue_cases)
    case fresh
    with assms(2) show ?thesis by simp
  next
    case (late timeout')
    with t assms(7) show ?thesis by simp
  next
    case again
    then show ?thesis by (simp add: d')
  next
    case (relay timeout' informed hops)
    then show ?thesis by (simp add: d' map_find_insert map_ok_erase_if assms(3))
  qed
  with assms t show ?thesis by (intro broadcast_message_again) auto
qed

definition sample_relayed :: message where
  "sample_relayed =
     add_parameter ''broadcast_msgid'' ''beta-7'' (add_parameter ''broadcast_timeout'' ''1010''
     (add_parameter ''broadcast_hops'' ''1'' (add_parameter ''broadcast_informed_neighbors'' ''20''
       sample_broadcast)))"

lemma sample_relayed_facts:
  "has_parameter sample_relayed ''broadcast_msgid''"
  "get_integer sample_lib sample_relayed ''broadcast_timeout'' = Inr 1010"
  by (simp_all add: sample_relayed_def get_integer_def sample_lib_def undec_string_def
      has_parameter_def)

theorem broadcast_message_once_witness:
  "\<exists>d'. broadcast_message sample_lib sample_relayed [] sample_cluster = Ret () d' \<and>
     broadcast_message sample_lib sample_relayed [] (d'\<lparr>now := 1005\<rparr>) = ok (d'\<lparr>now := 1005\<rparr>)"
proof -
  obtain d' where d': "broadcast_message sample_lib sample_relayed [] sample_cluster = Ret () d'"
  proof (cases "broadcast_message sample_lib sample_relayed [] sample_cluster")
    case (Raise e s)
    have "(case broadcast_message sample_lib sample_relayed [] sample_cluster of Ret _ _ \<Rightarrow> True | _ \<Rightarrow> False)"
      by code_simp
    with Raise show ?thesis by simp
  qed auto
  have "map_ok (f_received_broadcast_messages sample_cluster)" "now sample_cluster \<le> 1005"
    by (simp_all add: sample_cluster_def sample_daemon_def map_ok_def)
  with broadcast_message_once [OF d' sample_relayed_facts(1) _ refl sample_relayed_facts(1) refl]
  show ?thesis using d' by blast
qed

section \<open>A message cannot travel for ever\<close>

text \<open>
  \<open>relayed L n m\<close>: the message \<open>m\<close> is a copy that \<open>n\<close> daemons, each in any state, made one from the
  other, from a message a daemon or a service created.
\<close>

inductive relayed :: "('a, 'z) lib_scheme \<Rightarrow> nat \<Rightarrow> message \<Rightarrow> bool" for L where
  created: "\<not> has_parameter m ''broadcast_msgid'' \<Longrightarrow> relayed L 0 m"
| copied: "\<lbrakk>relayed L n m; broadcast_message L m [] d = Ret () d';
     Sent i m' \<in> set (drop (length (out d)) (out d'));
     \<not> local_recipient L (obj d i) (m_command m)\<rbrakk> \<Longrightarrow> relayed L (Suc n) m'"

text \<open>
  C12: Whatever the daemons of a cluster have in their states and however they are connected, a
  broadcast message is copied from daemon to daemon at most five times, and each copy says how
  many times.
\<close>

theorem relayed_hops:
  assumes "integer_roundtrip L" and "relayed L n m"
  shows "n \<le> 5 \<and> hops_of L m = int n"
  using assms(2)
proof induction
  case (created m)
  then show ?case by (simp add: hops_of_def)
next
  case (copied n m d d' i m')
  from copied.hyps(2,3)
  have "hops_of L m < 5 \<and> m_params m' ''broadcast_hops'' = Some (dec_string (hops_of L m + 1)) \<and>
    has_parameter m' ''broadcast_msgid''"
  proof (cases rule: broadcast_message_sent)
    case itself
    with copied.hyps(4) show ?thesis by simp
  next
    case (copied info msgid informed d2)
    from broadcast_copy_relayed [OF copied(4,3)] copied(1) show ?thesis by simp
  qed
  then have h: "hops_of L m < 5" "m_params m' ''broadcast_hops'' = Some (dec_string (hops_of L m + 1))"
    "has_parameter m' ''broadcast_msgid''" by simp_all
  then have "hops_of L m' = to_int32 (hops_of L m + 1)"
    using assms(1) by (simp add: hops_of_def get_integer_def integer_roundtrip_def)
  with h(1) copied.IH show ?case by (simp add: to_int32_id)
qed

theorem relayed_hops_witness:
  "\<exists>m. relayed sample_lib 1 m \<and> hops_of sample_lib m = 1"
proof -
  obtain d' where d': "broadcast_message sample_lib sample_broadcast [] sample_cluster = Ret () d'"
    by (rule sample_broadcast_returns)
  have "1 \<in> set (map fst (sent_messages (out (res_state
      (broadcast_message sample_lib sample_broadcast [] sample_cluster)))))"
    by code_simp
  then obtain m where m: "Sent 1 m \<in> set (out d')" by (auto simp: d' sent_messages_iff)
  have "\<not> has_parameter sample_broadcast ''broadcast_msgid''"
    by (simp add: sample_broadcast_def new_message_def has_parameter_def)
  then have "relayed sample_lib (Suc 0) m"
    by (rule relayed.copied [OF relayed.created d', of 1])
      (use m in \<open>simp add: sample_cluster_def sample_daemon_def\<close>, code_simp)
  then show ?thesis using relayed_hops [OF sample_lib_integers] by fastforce
qed

section \<open>The originator\<close>

text \<open>
  The list of informed neighbors of the copy is the list of the addresses the message had or is sent
  to: the address of this daemon is not added to it.
\<close>

lemma broadcast_copy_informed:
  "m_params (broadcast_copy L msg info msgid informed d) ''broadcast_informed_neighbors'' =
     Some (join_strings L informed '','')"
  by (simp add: broadcast_copy_def Let_def insert_absorb)

section \<open>A message for the local services only\<close>

lemma broadcast_local:
  assumes "m_service msg = ''.''" and "\<not> has_parameter msg ''broadcast_msgid''"
  obtains q where "broadcast_new L msg [] d =
    d\<lparr>out := out d @ map (\<lambda>i. Sent i msg) (local_targets L msg d (connections d)), g_broadcast_sequence := q\<rparr>"
proof -
  have p: "broadcast_prologue L msg d = Ret (Some \<lparr>i_msgid = [], i_informed = [], i_hops = 0, i_timeout = 0\<rparr>) d"
    using assms(2) by (simp add: broadcast_prologue_def)
  have t: "remote_targets L (broadcast_all 0 (broadcast_destination msg)) (broadcast_remote 0 (broadcast_destination msg)) d is = []"
    for "is"
    using assms(1) by (simp add: filter_empty_conv remote_recipient_scope broadcast_destination_def)
  show ?thesis
  proof (rule broadcast_message_form [OF p])
    fix chosen copy q
    assume b: "broadcast_message L msg [] d = ok (d\<lparr>out := out d @ map (\<lambda>i. Sent i msg)
        (local_targets L msg d (connections d)) @ map (\<lambda>i. Sent i copy) chosen, g_broadcast_sequence := q\<rparr>)"
      and "set chosen \<subseteq> set (remote_targets L
        (broadcast_all (i_hops \<lparr>i_msgid = [], i_informed = [], i_hops = 0, i_timeout = 0\<rparr>) (broadcast_destination msg))
        (broadcast_remote (i_hops \<lparr>i_msgid = [], i_informed = [], i_hops = 0, i_timeout = 0\<rparr>) (broadcast_destination msg))
        d (connections d))"
    then have "chosen = []" by (simp add: t del: broadcast_all_def)
    with b show ?thesis by (intro that) (simp add: broadcast_new_def)
  qed
qed

end
