(* ===== verification/Status.thy ===== *)
theory Status
  imports Broadcast
begin

text \<open>
  What the daemon tells others about itself: \<open>verify_command\<close>, the STATUS of a connection
  (\<open>send_status\<close>), the status of the cluster (\<open>cluster_status\<close>, with the quorum) and the list of
  services heard of (\<open>refresh_heard_of\<close>).
\<close>

definition verify_command :: "'a daemon \<Rightarrow> cid \<Rightarrow> message \<Rightarrow> bool" where
  "verify_command d i m =
     (if \<not> f_debug_all_messages d then True
      else if \<not> has_commands (obj d i) then True
      else if understand_command (obj d i) (m_command m) then True
      else False)"

section \<open>STATUS\<close>

definition status_message :: "'a daemon \<Rightarrow> cid \<Rightarrow> message" where
  "status_message d i =
     (let c = obj d i;
          m1 = add_parameter ''service'' (c_name c)
            (add_parameter ''cache'' ''no'' (daemon_message (f_server_name d) ''STATUS''))
      in if is_base (c_kind c) then
           let m2 = (if f_base_server_name c \<noteq> [] then add_parameter ''server_name'' (f_base_server_name c) m1
                     else m1);
               m3 = add_parameter ''status'' (if f_type c = Down then ''down'' else ''up'') m2;
               m4 = (if f_started_on c \<noteq> - 1 then add_integer ''up_since'' (f_started_on c) m3 else m3);
               m5 = (if f_ended_on c \<noteq> - 1 then add_integer ''down_since'' (f_ended_on c) m4 else m4)
           in m5
         else add_parameter ''status'' ''unknown'' m1)"

text \<open>The reply to one connection, when the caller names it.\<close>

definition send_status_reply :: "cid \<Rightarrow> message \<Rightarrow> 'a daemon \<Rightarrow> 'a daemon" where
  "send_status_reply r reply d =
     (if c_kind (obj d r) = Service_conn then (if verify_command d r reply then send_message r reply d else d)
      else if c_kind (obj d r) = Unix_conn
        then (if understand_command (obj d r) ''STATUS'' then send_message r reply d else d)
      else d)"

fun send_status_all :: "message \<Rightarrow> cid list \<Rightarrow> 'a daemon \<Rightarrow> 'a daemon" where
  "send_status_all reply [] d = d"
| "send_status_all reply (i # is) d =
     send_status_all reply is
       (if c_kind (obj d i) = Service_conn
        then (if understand_command (obj d i) ''STATUS'' then send_message i reply d else d)
        else if c_kind (obj d i) = Unix_conn
        then (if understand_command (obj d i) ''STATUS'' then send_message i reply d else d)
        else d)"

definition send_status :: "cid \<Rightarrow> cid option \<Rightarrow> 'a daemon \<Rightarrow> 'a daemon" where
  "send_status i reply_connection d =
     (let reply = status_message d i in
      case reply_connection of
        Some r \<Rightarrow> send_status_reply r reply d
      | None \<Rightarrow> send_status_all reply (connections d) d)"

section \<open>Cluster status\<close>

definition total_count_of :: "'a daemon \<Rightarrow> nat" where
  "total_count_of d = max 1 (fcard (f_all_neighbors d))"

definition cluster_message :: "'a daemon \<Rightarrow> string \<Rightarrow> nat \<Rightarrow> message" where
  "cluster_message d cmd total_count =
     add_integer ''neighbors_count'' (int total_count)
       ((daemon_message (f_server_name d) cmd)\<lparr>m_service := ''.''\<rparr>)"

definition cluster_up_down :: "nat \<Rightarrow> nat \<Rightarrow> string" where
  "cluster_up_down count total_count =
     (if total_count div 2 + 1 \<le> count then ''CLUSTER_UP'' else ''CLUSTER_DOWN'')"

definition cluster_complete_incomplete :: "nat \<Rightarrow> nat \<Rightarrow> string" where
  "cluster_complete_incomplete count total_count =
     (if count = total_count \<or> total_count = 0 \<and> count = 1 then ''CLUSTER_COMPLETE'' else ''CLUSTER_INCOMPLETE'')"

text \<open>The first half, CLUSTER_UP or CLUSTER_DOWN.  The flag is \<open>modified\<close>.\<close>

definition cluster_status_up :: "('a, 'z) lib_scheme \<Rightarrow> cid option \<Rightarrow> nat \<Rightarrow> nat \<Rightarrow> 'a daemon \<Rightarrow> bool \<times> 'a daemon" where
  "cluster_status_up L reply_connection count total_count d =
     (let new_status = cluster_up_down count total_count in
      if new_status \<noteq> f_cluster_status d \<or> f_total_count_sent d \<noteq> total_count \<or> reply_connection \<noteq> None
      then
        let msg = cluster_message d new_status total_count in
        (case reply_connection of
           Some r \<Rightarrow>
             (False, if is_base (c_kind (obj d r)) then send_message_to_connection r msg True d else d)
         | None \<Rightarrow> (True, broadcast_new L msg [] (d\<lparr>f_cluster_status := new_status\<rparr>)))
      else (False, d))"

definition cluster_status_complete :: "('a, 'z) lib_scheme \<Rightarrow> cid option \<Rightarrow> nat \<Rightarrow> nat \<Rightarrow> 'a daemon \<Rightarrow> bool \<times> 'a daemon" where
  "cluster_status_complete L reply_connection count total_count d =
     (let new_complete = cluster_complete_incomplete count total_count in
      if new_complete \<noteq> f_cluster_complete d \<or> f_total_count_sent d \<noteq> total_count \<or> reply_connection \<noteq> None
      then
        let msg = cluster_message d new_complete total_count in
        (case reply_connection of
           Some r \<Rightarrow>
             (False, if c_kind (obj d r) = Service_conn \<and> understand_command (obj d r) (m_command msg)
                     then send_message r msg d else d)
         | None \<Rightarrow> (True, broadcast_new L msg [] (d\<lparr>f_cluster_complete := new_complete\<rparr>)))
      else (False, d))"

definition cluster_status :: "('a, 'z) lib_scheme \<Rightarrow> cid option \<Rightarrow> 'a daemon \<Rightarrow> 'a daemon" where
  "cluster_status L reply_connection d =
     (let count = count_live_connections d + 1;
          total_count = total_count_of d;
          (modified1, d1) = cluster_status_up L reply_connection count total_count d;
          (modified2, d2) = cluster_status_complete L reply_connection count total_count d1;
          d3 = (if reply_connection = None then d2\<lparr>f_total_count_sent := total_count\<rparr> else d2)
      in if modified1 \<or> modified2
         then emit (Status_file (f_cluster_status d3) (f_cluster_complete d3)) d3 else d3)"

section \<open>Services heard of\<close>

fun gather_heard_of :: "cid list \<Rightarrow> 'a daemon \<Rightarrow> 'a daemon" where
  "gather_heard_of [] d = d"
| "gather_heard_of (i # is) d =
     gather_heard_of is
       (if c_kind (obj d i) = Service_conn
        then
          let (c1, s1) = get_services (obj d i) (f_services_heard_of_list d);
              (c2, s2) = get_services_heard_of c1 s1
          in (upd_conn i (\<lambda>_. c2) d)\<lparr>f_services_heard_of_list := s2\<rparr>
        else d)"

definition refresh_heard_of :: "('a, 'z) lib_scheme \<Rightarrow> 'a daemon \<Rightarrow> 'a daemon" where
  "refresh_heard_of L d =
     (let d1 = gather_heard_of (connections d) (d\<lparr>f_services_heard_of_list := {}\<rparr>);
          d2 = d1\<lparr>f_services_heard_of_list := f_services_heard_of_list d1 - f_local_services_list d1\<rparr>
      in d2\<lparr>f_services_heard_of := join_strings L (f_services_heard_of_list d2) '',''\<rparr>)"

section \<open>Lemmas\<close>

lemma send_status_reply_only_sends: "only_sends d (send_status_reply r reply d)"
  by (simp add: send_status_reply_def)

lemma send_status_all_only_sends: "only_sends d (send_status_all reply is d)"
proof (induction reply "is" d rule: send_status_all.induct)
  case (2 reply i "is" d)
  show ?case unfolding send_status_all.simps by (rule only_sends_trans [OF _ 2]) simp
qed simp

lemma send_status_only_sends: "only_sends d (send_status i r d)"
  by (simp add: send_status_def Let_def send_status_reply_only_sends send_status_all_only_sends
      split: option.split)

lemma broadcast_new_fresh:
  assumes "\<not> has_parameter msg ''broadcast_msgid''"
  obtains es q where "broadcast_new L msg acc d = d\<lparr>out := out d @ es, g_broadcast_sequence := q\<rparr>"
    "broadcast_message L msg acc d = Ret () (broadcast_new L msg acc d)"
proof -
  have "\<exists>s. broadcast_message L msg acc d = Ret () s"
    using assms by (simp add: broadcast_message_def broadcast_prologue_def Let_def ok_def split: prod.split)
  then obtain d' where b: "broadcast_message L msg acc d = Ret () d'" by blast
  obtain r d1 es q where p: "broadcast_prologue L msg d = Ret r d1"
    and d': "d' = d1\<lparr>out := out d1 @ es, g_broadcast_sequence := q\<rparr>"
    by (rule broadcast_message_Ret [OF b])
  from p assms have "d1 = d" by (simp add: broadcast_prologue_def)
  with b d' show ?thesis by (intro that) (simp_all add: broadcast_new_def)
qed

lemma cluster_message_fresh [simp]: "\<not> has_parameter (cluster_message d c n) ''broadcast_msgid''"
  by (simp add: cluster_message_def has_parameter_def)

text \<open>Both halves of \<open>cluster_status\<close> without a connection to reply to.\<close>

lemma cluster_status_up_None:
  obtains es q where "cluster_status_up L None count tot d =
    (cluster_up_down count tot \<noteq> f_cluster_status d \<or> f_total_count_sent d \<noteq> tot,
     d\<lparr>f_cluster_status := cluster_up_down count tot, out := out d @ es, g_broadcast_sequence := q\<rparr>)"
    "(cluster_up_down count tot = f_cluster_status d \<and> f_total_count_sent d = tot) \<Longrightarrow>
       es = [] \<and> q = g_broadcast_sequence d"
proof (cases "cluster_up_down count tot = f_cluster_status d \<and> f_total_count_sent d = tot")
  case True
  then show ?thesis
    by (intro that [where es = "[]" and q = "g_broadcast_sequence d"]) (auto simp: cluster_status_up_def)
next
  case False
  let ?d = "d\<lparr>f_cluster_status := cluster_up_down count tot\<rparr>"
  let ?m = "cluster_message d (cluster_up_down count tot) tot"
  obtain es q where "broadcast_new L ?m [] ?d = ?d\<lparr>out := out ?d @ es, g_broadcast_sequence := q\<rparr>"
    using broadcast_new_fresh [OF cluster_message_fresh] by blast
  with False show ?thesis
    by (intro that [where es = es and q = q]) (auto simp: cluster_status_up_def Let_def)
qed

lemma cluster_status_complete_None:
  obtains es q where "cluster_status_complete L None count tot d =
    (cluster_complete_incomplete count tot \<noteq> f_cluster_complete d \<or> f_total_count_sent d \<noteq> tot,
     d\<lparr>f_cluster_complete := cluster_complete_incomplete count tot, out := out d @ es,
       g_broadcast_sequence := q\<rparr>)"
    "(cluster_complete_incomplete count tot = f_cluster_complete d \<and> f_total_count_sent d = tot) \<Longrightarrow>
       es = [] \<and> q = g_broadcast_sequence d"
proof (cases "cluster_complete_incomplete count tot = f_cluster_complete d \<and> f_total_count_sent d = tot")
  case True
  then show ?thesis
    by (intro that [where es = "[]" and q = "g_broadcast_sequence d"]) (auto simp: cluster_status_complete_def)
next
  case False
  let ?d = "d\<lparr>f_cluster_complete := cluster_complete_incomplete count tot\<rparr>"
  let ?m = "cluster_message d (cluster_complete_incomplete count tot) tot"
  obtain es q where "broadcast_new L ?m [] ?d = ?d\<lparr>out := out ?d @ es, g_broadcast_sequence := q\<rparr>"
    using broadcast_new_fresh [OF cluster_message_fresh] by blast
  with False show ?thesis
    by (intro that [where es = es and q = q]) (auto simp: cluster_status_complete_def Let_def)
qed

text \<open>The fields a count of the live connections and a broadcast look at are left alone.\<close>

lemma cluster_status_None_form:
  obtains es q where "cluster_status L None d =
    d\<lparr>f_cluster_status := cluster_up_down (count_live_connections d + 1) (total_count_of d),
      f_cluster_complete := cluster_complete_incomplete (count_live_connections d + 1) (total_count_of d),
      f_total_count_sent := total_count_of d, out := out d @ es, g_broadcast_sequence := q\<rparr>"
    "\<lbrakk>cluster_up_down (count_live_connections d + 1) (total_count_of d) = f_cluster_status d;
      cluster_complete_incomplete (count_live_connections d + 1) (total_count_of d) = f_cluster_complete d;
      f_total_count_sent d = total_count_of d\<rbrakk> \<Longrightarrow> es = [] \<and> q = g_broadcast_sequence d"
proof -
  let ?n = "count_live_connections d + 1" and ?t = "total_count_of d"
  obtain es1 q1 where up: "cluster_status_up L None ?n ?t d =
      (cluster_up_down ?n ?t \<noteq> f_cluster_status d \<or> f_total_count_sent d \<noteq> ?t,
       d\<lparr>f_cluster_status := cluster_up_down ?n ?t, out := out d @ es1, g_broadcast_sequence := q1\<rparr>)"
    and same1: "(cluster_up_down ?n ?t = f_cluster_status d \<and> f_total_count_sent d = ?t) \<Longrightarrow>
       es1 = [] \<and> q1 = g_broadcast_sequence d"
    by (rule cluster_status_up_None) blast
  let ?d = "d\<lparr>f_cluster_status := cluster_up_down ?n ?t, out := out d @ es1, g_broadcast_sequence := q1\<rparr>"
  obtain es2 q2 where co: "cluster_status_complete L None ?n ?t ?d =
      (cluster_complete_incomplete ?n ?t \<noteq> f_cluster_complete ?d \<or> f_total_count_sent ?d \<noteq> ?t,
       ?d\<lparr>f_cluster_complete := cluster_complete_incomplete ?n ?t, out := out ?d @ es2,
         g_broadcast_sequence := q2\<rparr>)"
    and same2: "(cluster_complete_incomplete ?n ?t = f_cluster_complete ?d \<and> f_total_count_sent ?d = ?t) \<Longrightarrow>
       es2 = [] \<and> q2 = g_broadcast_sequence ?d"
    by (rule cluster_status_complete_None) blast
  let ?es = "es1 @ es2 @ (if (cluster_up_down ?n ?t \<noteq> f_cluster_status d \<or> f_total_count_sent d \<noteq> ?t) \<or>
      (cluster_complete_incomplete ?n ?t \<noteq> f_cluster_complete d \<or> f_total_count_sent d \<noteq> ?t)
    then [Status_file (cluster_up_down ?n ?t) (cluster_complete_incomplete ?n ?t)] else [])"
  show ?thesis
  proof (rule that [where es = ?es and q = q2])
    show "cluster_status L None d =
      d\<lparr>f_cluster_status := cluster_up_down ?n ?t, f_cluster_complete := cluster_complete_incomplete ?n ?t,
        f_total_count_sent := ?t, out := out d @ ?es, g_broadcast_sequence := q2\<rparr>"
      using up co by (simp add: cluster_status_def Let_def emit_def)
  qed (use same1 same2 in auto)
qed

text \<open>What is recorded.\<close>

lemma cluster_status_recorded:
  "f_cluster_status (cluster_status L None d) =
     cluster_up_down (count_live_connections d + 1) (total_count_of d)"
  "f_cluster_complete (cluster_status L None d) =
     cluster_complete_incomplete (count_live_connections d + 1) (total_count_of d)"
  "f_total_count_sent (cluster_status L None d) = total_count_of d"
proof -
  obtain es q where "cluster_status L None d =
    d\<lparr>f_cluster_status := cluster_up_down (count_live_connections d + 1) (total_count_of d),
      f_cluster_complete := cluster_complete_incomplete (count_live_connections d + 1) (total_count_of d),
      f_total_count_sent := total_count_of d, out := out d @ es, g_broadcast_sequence := q\<rparr>"
    by (rule cluster_status_None_form)
  then show "f_cluster_status (cluster_status L None d) =
     cluster_up_down (count_live_connections d + 1) (total_count_of d)"
    "f_cluster_complete (cluster_status L None d) =
     cluster_complete_incomplete (count_live_connections d + 1) (total_count_of d)"
    "f_total_count_sent (cluster_status L None d) = total_count_of d" by simp_all
qed

text \<open>More than half: the test of the quorum, in the arithmetic of the code.\<close>

lemma cluster_up_down_iff: "cluster_up_down n t = ''CLUSTER_UP'' \<longleftrightarrow> t < 2 * n"
proof -
  have "t div 2 + 1 \<le> n \<longleftrightarrow> t < 2 * n" for t n :: nat by arith
  then show ?thesis by (simp add: cluster_up_down_def)
qed

lemma cluster_up_down_or: "cluster_up_down n t = ''CLUSTER_UP'' \<or> cluster_up_down n t = ''CLUSTER_DOWN''"
  by (simp add: cluster_up_down_def)

text \<open>
  C11: After \<open>cluster_status\<close> the daemon's idea of the cluster is right: up exactly when the computers
  connected to it, itself included, are more than half of the known ones, complete exactly when
  they are all of them; and the number of neighbors it last announced is the current one.
\<close>

theorem cluster_status_correct:
  "(f_cluster_status (cluster_status L None d) = ''CLUSTER_UP'' \<longleftrightarrow>
      total_count_of d < 2 * (count_live_connections d + 1)) \<and>
   f_cluster_status (cluster_status L None d) \<in> {''CLUSTER_UP'', ''CLUSTER_DOWN''} \<and>
   (f_cluster_complete (cluster_status L None d) = ''CLUSTER_COMPLETE'' \<longleftrightarrow>
      count_live_connections d + 1 = total_count_of d) \<and>
   f_cluster_complete (cluster_status L None d) \<in> {''CLUSTER_COMPLETE'', ''CLUSTER_INCOMPLETE''} \<and>
   f_total_count_sent (cluster_status L None d) = total_count_of d"
proof -
  have "0 < total_count_of d" by (simp add: total_count_of_def)
  then show ?thesis
    using cluster_up_down_or [of "count_live_connections d + 1" "total_count_of d"]
    by (simp add: cluster_status_recorded cluster_up_down_iff cluster_complete_incomplete_def)
qed

lemma count_live_eq: "obj d' = obj d \<Longrightarrow> count_live d' is n = count_live d is n"
  by (induction "is" arbitrary: n) (simp_all add: Let_def)

lemma count_live_connections_eq:
  "obj d' = obj d \<Longrightarrow> connections d' = connections d \<Longrightarrow> count_live_connections d' = count_live_connections d"
  by (simp add: count_live_connections_def count_live_eq [where d = d and d' = d'])

lemma cluster_status_settled:
  assumes "cluster_up_down (count_live_connections d + 1) (total_count_of d) = f_cluster_status d"
    and "cluster_complete_incomplete (count_live_connections d + 1) (total_count_of d) = f_cluster_complete d"
    and "f_total_count_sent d = total_count_of d"
  shows "cluster_status L None d = d"
proof (rule cluster_status_None_form [of L d])
  fix es q
  assume form: "cluster_status L None d =
    d\<lparr>f_cluster_status := cluster_up_down (count_live_connections d + 1) (total_count_of d),
      f_cluster_complete := cluster_complete_incomplete (count_live_connections d + 1) (total_count_of d),
      f_total_count_sent := total_count_of d, out := out d @ es, g_broadcast_sequence := q\<rparr>"
    and "\<lbrakk>cluster_up_down (count_live_connections d + 1) (total_count_of d) = f_cluster_status d;
      cluster_complete_incomplete (count_live_connections d + 1) (total_count_of d) = f_cluster_complete d;
      f_total_count_sent d = total_count_of d\<rbrakk> \<Longrightarrow> es = [] \<and> q = g_broadcast_sequence d"
  then have "es = [] \<and> q = g_broadcast_sequence d" using assms by blast
  with form show ?thesis by (simp add: assms [symmetric])
qed

text \<open>
  Computing the status again when nothing happened announces nothing: no message is sent, the
  status file is not written and the state does not change.
\<close>

theorem cluster_status_idempotent:
  "cluster_status L None (cluster_status L None d) = cluster_status L None d"
proof -
  obtain es q where d': "cluster_status L None d =
    d\<lparr>f_cluster_status := cluster_up_down (count_live_connections d + 1) (total_count_of d),
      f_cluster_complete := cluster_complete_incomplete (count_live_connections d + 1) (total_count_of d),
      f_total_count_sent := total_count_of d, out := out d @ es, g_broadcast_sequence := q\<rparr>"
    (is "_ = ?d") by (rule cluster_status_None_form)
  have n: "count_live_connections ?d = count_live_connections d"
    by (rule count_live_connections_eq) simp_all
  have t: "total_count_of ?d = total_count_of d" by (simp add: total_count_of_def)
  have "cluster_status L None ?d = ?d"
    by (rule cluster_status_settled) (simp_all only: n t, simp_all)
  then show ?thesis by (simp only: d')
qed

text \<open>A reply to a CLUSTER_STATUS changes nothing but the log.\<close>

lemma cluster_status_reply_only_sends: "only_sends d (cluster_status L (Some r) d)"
proof -
  have u: "\<exists>d'. cluster_status_up L (Some r) n t d = (False, d') \<and> only_sends d d'" for n t
    by (simp add: cluster_status_up_def Let_def)
  have c: "\<exists>d'. cluster_status_complete L (Some r) n t d1 = (False, d') \<and> only_sends d1 d'" for n t d1
    by (simp add: cluster_status_complete_def Let_def)
  let ?n = "count_live_connections d + 1" and ?t = "total_count_of d"
  obtain d1 where d1: "cluster_status_up L (Some r) ?n ?t d = (False, d1)" "only_sends d d1" using u by blast
  obtain d2 where d2: "cluster_status_complete L (Some r) ?n ?t d1 = (False, d2)" "only_sends d1 d2"
    using c by blast
  have "cluster_status L (Some r) d = d2" using d1(1) d2(1) by (simp add: cluster_status_def Let_def)
  then show ?thesis using only_sends_trans [OF d1(2) d2(2)] by simp
qed










text \<open>
  The connections are counted, not the computers: with two connections from one computer, neither of which has
  sent CONNECT, the daemon finds that it is connected to the majority of four.
\<close>

lemma connections_counted_twice:
  "f_cluster_status (cluster_status sample_lib None
     ((sample_daemon (replicate 2 ((sample_conn Service_conn ''in'' 20 {})
         \<lparr>f_remote_connection := True, f_type := Down, c_socket := 5\<rparr>)))
       \<lparr>f_all_neighbors := {|10, 20, 30, 40|}\<rparr>)) = ''CLUSTER_UP''"
  by code_simp

text \<open>
  \<open>get_services\<close> merges the list of the caller into the connection, so the list of services heard of
  is empty after every refresh, whatever the connections know.
\<close>

lemma gather_heard_of_empty:
  "f_services_heard_of_list d = {} \<Longrightarrow>
     gather_heard_of is d = d"
proof (induction "is" d rule: gather_heard_of.induct)
  case (2 i "is" d)
  have "f_services_heard_of_list d = {} \<Longrightarrow> d\<lparr>obj := (obj d)(i := obj d i), f_services_heard_of_list := {}\<rparr> = d"
    by (cases d) simp
  with 2 show ?case
    by (auto simp: get_services_def get_services_heard_of_def set_merge_def upd_conn_def Let_def)
qed simp

lemma refresh_heard_of_empty:
  "refresh_heard_of L d =
     d\<lparr>f_services_heard_of_list := {}, f_services_heard_of := join_strings L {} '',''\<rparr>"
  by (simp add: refresh_heard_of_def gather_heard_of_empty Let_def)

text \<open>The second half of the reply to CLUSTER_STATUS is not sent to a service on the Unix socket.\<close>

lemma cluster_complete_not_for_unix:
  "c_kind (obj d r) = Unix_conn \<Longrightarrow> cluster_status_complete L (Some r) count total_count d = (False, d)"
  by (simp add: cluster_status_complete_def Let_def)

end
