(* ===== verification/Forward.thy ===== *)
theory Forward
  imports Status
begin

text \<open>
  The routing of messages: \<open>forward_message\<close> (the destination server, a broadcast, the search for the
  service among the connections, the cache, the transmission to other daemons), \<open>transmission_report\<close>,
  and the tests of \<open>dispatch_message\<close>: \<open>check_broadcast_message\<close>, \<open>communicator_message\<close> and
  \<open>shutting_down\<close>.
\<close>

section \<open>Where a message goes\<close>

definition forward_server_name :: "'a daemon \<Rightarrow> message \<Rightarrow> string" where
  "forward_server_name d msg = (if m_server msg = ''.'' then f_server_name d else m_server msg)"

definition is_broadcast_service :: "string \<Rightarrow> bool" where
  "is_broadcast_service service \<longleftrightarrow> service = ''*'' \<or> service = ''?'' \<or> service = ''.''"

definition forward_broadcast :: "('a, 'z) lib_scheme \<Rightarrow> message \<Rightarrow> 'a daemon \<Rightarrow> ('a daemon, bool) res" where
  "forward_broadcast L msg d =
     (let server_name = forward_server_name d msg; service = m_service msg in
      if server_name \<noteq> [] \<and> server_name \<noteq> ''*'' \<and> (service = ''*'' \<or> service = ''?'')
      then Ret False d
      else seq (broadcast_message L msg [] d) (Ret True))"

section \<open>Searching the connections\<close>

text \<open>
  The check that a connection knows its server: it is skipped without a debug log level, and a
  connection that is up throws. The result says whether the loop goes on with the next connection.
\<close>

definition server_name_missing :: "'a daemon \<Rightarrow> cid \<Rightarrow> exn + bool" where
  "server_name_missing d i =
     (let c = obj d i in
      if f_base_server_name c \<noteq> [] then Inr False
      else if \<not> debug_severity d then Inr True
      else if f_type c = Down then Inr True
      else Inl Missing_name)"

text \<open>A connection that is the service itself; the sender is compared as an object.\<close>

definition forward_deliver :: "message \<Rightarrow> cid \<Rightarrow> 'a daemon \<Rightarrow> 'a daemon" where
  "forward_deliver msg i d =
     (if m_user_data msg = Some i then d
      else if verify_command d i msg then send_to i msg d
      else d)"

definition is_service_kind :: "conn_kind \<Rightarrow> bool" where
  "is_service_kind k \<longleftrightarrow> k = Service_conn \<or> k = Unix_conn"

definition server_matches :: "string \<Rightarrow> 'a conn \<Rightarrow> bool" where
  "server_matches server_name c \<longleftrightarrow>
     server_name = [] \<or> server_name = ''*'' \<or> server_name = ''?'' \<or> server_name = f_base_server_name c"

text \<open>
  The loop over the connections.  The result is \<open>None\<close> where the function returns \<open>false\<close> because it
  found the service, else the list \<open>accepting_remote_connections\<close>.
\<close>

fun forward_scan :: "string \<Rightarrow> message \<Rightarrow> cid list \<Rightarrow> cid list \<Rightarrow> 'a daemon \<Rightarrow> ('a daemon, cid list option) res" where
  "forward_scan server_name msg [] accepting d = Ret (Some accepting) d"
| "forward_scan server_name msg (i # is) accepting d =
     (if \<not> is_base (c_kind (obj d i)) then forward_scan server_name msg is accepting d
      else
        (case server_name_missing d i of
           Inl e \<Rightarrow> Raise e d
         | Inr True \<Rightarrow> forward_scan server_name msg is accepting d
         | Inr False \<Rightarrow>
             let c = obj d i; matches = server_matches server_name c in
             if matches \<and> is_service_kind (c_kind c) \<and> c_name c = m_service msg
             then Ret None (forward_deliver msg i d)
             else
               let try_remote = (if matches then True else server_name = ''?'') in
               if try_remote \<and> f_type c = Remote_type
               then forward_scan server_name msg is (accepting @ [i]) d
               else forward_scan server_name msg is accepting d))"

section \<open>The service is not connected\<close>

definition transmission_report :: "message \<Rightarrow> bool \<Rightarrow> 'a daemon \<Rightarrow> 'a daemon" where
  "transmission_report msg cached d =
     (case m_user_data msg of
        None \<Rightarrow> d
      | Some i \<Rightarrow>
          if \<not> has_parameter msg ''transmission_report'' then d
          else if param msg ''transmission_report'' \<noteq> ''failure'' then d
          else send_to i
            (add_parameter ''status'' (if cached then ''cached'' else ''failed'')
            (add_parameter ''command'' (m_command msg)
              (daemon_message (f_server_name d) ''TRANSMISSION_REPORT''))) d)"

text \<open>Another program asked to know that its message was not delivered.\<close>

definition service_unavailable :: "message \<Rightarrow> 'a daemon \<Rightarrow> ('a daemon, unit) res" where
  "service_unavailable msg d =
     (let reply = daemon_message (f_server_name d) ''SERVICE_UNAVAILABLE'' in
      case m_user_data msg of
        None \<Rightarrow> Raise Null_dereference d
      | Some sender \<Rightarrow>
          if verify_command d sender reply
          then ok (send_to sender (add_parameter ''unsent_command'' (m_command msg)
                 (add_parameter ''destination_service'' (m_service msg) reply)) d)
          else ok d)"

definition forward_cache :: "('a, 'z) lib_scheme \<Rightarrow> message \<Rightarrow> 'a daemon \<Rightarrow> ('a daemon, bool) res" where
  "forward_cache L msg d =
     (let (cached, c) = cache_message L (now d) msg (f_local_message_cache d);
          d1 = d\<lparr>f_local_message_cache := c\<rparr>
      in seq (if cached = Cache_message_reply then service_unavailable msg d1 else ok d1)
           (\<lambda>d. Ret True (transmission_report msg (cached = Cache_message_cached) d)))"

definition forward_elsewhere :: "('a, 'z) lib_scheme \<Rightarrow> message \<Rightarrow> cid list \<Rightarrow> 'a daemon \<Rightarrow> ('a daemon, bool) res" where
  "forward_elsewhere L msg accepting d =
     (let server_name = forward_server_name d msg; service = m_service msg in
      if (server_name = [] \<or> server_name = ''*'' \<or> server_name = f_server_name d \<or> server_name = ''?'') \<and>
         service \<in> f_local_services_list d
      then forward_cache L msg d
      else if server_name = f_server_name d
      then Ret False (transmission_report msg False d)
      else if accepting \<noteq> []
      then seq (broadcast_message L (if server_name = ''?'' then msg\<lparr>m_server := ''*''\<rparr> else msg) accepting d)
             (Ret True)
      else Ret True d)"

definition forward_message :: "('a, 'z) lib_scheme \<Rightarrow> message \<Rightarrow> 'a daemon \<Rightarrow> ('a daemon, bool) res" where
  "forward_message L msg d =
     (if is_broadcast_service (m_service msg) then forward_broadcast L msg d
      else bind_res (forward_scan (forward_server_name d msg) msg (connections d) [] d)
             (\<lambda>r d. case r of
                None \<Rightarrow> Ret False d
              | Some accepting \<Rightarrow> forward_elsewhere L msg accepting d))"

section \<open>Tests made before a message is dispatched\<close>

definition check_broadcast_message :: "('a, 'z) lib_scheme \<Rightarrow> message \<Rightarrow> 'a daemon \<Rightarrow> exn + bool" where
  "check_broadcast_message L msg d =
     (if \<not> has_parameter msg ''broadcast_msgid'' then Inr False
      else case get_integer L msg ''broadcast_timeout'' of
        Inl e \<Rightarrow> Inl e
      | Inr timeout \<Rightarrow>
          if timeout < now d then Inr True
          else if map_find (f_received_broadcast_messages d) (param msg ''broadcast_msgid'') \<noteq> None
          then Inr True
          else Inr False)"

definition communicator_message :: "message \<Rightarrow> 'a daemon \<Rightarrow> bool" where
  "communicator_message msg d =
     (if m_server msg \<noteq> [] \<and> m_server msg \<noteq> ''.'' \<and> m_server msg \<noteq> ''*'' \<and> m_server msg \<noteq> f_server_name d
      then False
      else if m_service msg \<noteq> [] \<and> m_service msg \<noteq> ''communicatord'' then False
      else True)"

definition shutting_down :: "('a::linorder, 'z) lib_scheme \<Rightarrow> message \<Rightarrow> 'a daemon \<Rightarrow> ('a daemon, bool) res" where
  "shutting_down L msg d =
     (if \<not> f_shutdown d then Ret False d
      else case m_user_data msg of
        None \<Rightarrow> Raise Null_dereference d
      | Some i \<Rightarrow>
          if f_is_udp (obj d i) then Ret True d
          else
            let reply = new_message\<lparr>m_command := ''QUITTING''\<rparr>;
                d1 = (if m_command msg \<noteq> ''UNREGISTER'' \<and> verify_command d i reply
                      then send_to i (daemon_message (f_server_name d) ''QUITTING'') d else d)
            in Ret True (remove_connection L i d1))"

text \<open>
  The start of most handlers: \<open>is_tcp_connection\<close>, which reads the connection of the message before
  anything checks that there is one, and the test that there is one.
\<close>

definition is_tcp_connection :: "message \<Rightarrow> 'a daemon \<Rightarrow> exn + bool" where
  "is_tcp_connection msg d = (case m_user_data msg of
      None \<Rightarrow> Inl Null_dereference
    | Some i \<Rightarrow> Inr (\<not> f_is_udp (obj d i)))"

definition tcp_handler :: "message \<Rightarrow> 'a daemon \<Rightarrow> (cid \<Rightarrow> 'a daemon \<Rightarrow> ('a daemon, unit) res) \<Rightarrow> ('a daemon, unit) res" where
  "tcp_handler msg d f =
     bind_res (of_sum (is_tcp_connection msg d) d) (\<lambda>tcp d.
       if \<not> tcp then ok d
       else case m_user_data msg of None \<Rightarrow> ok d | Some i \<Rightarrow> f i d)"

definition conn_handler :: "message \<Rightarrow> 'a daemon \<Rightarrow> (cid \<Rightarrow> 'a daemon \<Rightarrow> ('a daemon, unit) res) \<Rightarrow> ('a daemon, unit) res" where
  "conn_handler msg d f = (case m_user_data msg of None \<Rightarrow> ok d | Some i \<Rightarrow> f i d)"

lemma tcp_handler_Some:
  "m_user_data msg = Some i \<Longrightarrow> tcp_handler msg d f = (if f_is_udp (obj d i) then ok d else f i d)"
  by (simp add: tcp_handler_def is_tcp_connection_def)

section \<open>Properties of the routing\<close>

lemma transmission_report_only_sends: "only_sends d (transmission_report msg cached d)"
  by (simp add: transmission_report_def split: option.split)

lemma forward_deliver_only_sends: "only_sends d (forward_deliver msg i d)"
  by (simp add: forward_deliver_def)

text \<open>A connection that forwarding skips: not the daemon's own kind, or not identified yet.\<close>

definition forward_skips :: "'a daemon \<Rightarrow> cid \<Rightarrow> bool" where
  "forward_skips d i \<longleftrightarrow> \<not> is_base (c_kind (obj d i)) \<or> server_name_missing d i = Inr True"

text \<open>The connection is the service the message is for.\<close>

definition is_destination :: "'a daemon \<Rightarrow> message \<Rightarrow> cid \<Rightarrow> bool" where
  "is_destination d msg i \<longleftrightarrow> \<not> forward_skips d i \<and>
     server_matches (forward_server_name d msg) (obj d i) \<and> is_service_kind (c_kind (obj d i)) \<and>
     c_name (obj d i) = m_service msg"

text \<open>The connection is to a daemon that may know the service.\<close>

definition may_know :: "'a daemon \<Rightarrow> message \<Rightarrow> cid \<Rightarrow> bool" where
  "may_know d msg i \<longleftrightarrow> \<not> forward_skips d i \<and> f_type (obj d i) = Remote_type \<and>
     (server_matches (forward_server_name d msg) (obj d i) \<or> forward_server_name d msg = ''?'')"

text \<open>No connection makes the daemon throw: it knows the server of every connection that is up.\<close>

definition servers_named :: "'a daemon \<Rightarrow> bool" where
  "servers_named d \<longleftrightarrow> (\<forall>i \<in> set (connections d). is_base (c_kind (obj d i)) \<longrightarrow>
     f_type (obj d i) \<noteq> Down \<longrightarrow> f_base_server_name (obj d i) \<noteq> [])"

lemma servers_named_missing:
  "\<lbrakk>servers_named d; i \<in> set (connections d); is_base (c_kind (obj d i))\<rbrakk> \<Longrightarrow>
     \<exists>b. server_name_missing d i = Inr b"
  by (auto simp: servers_named_def server_name_missing_def Let_def)

lemma forward_scan_spec:
  assumes "\<forall>i \<in> set is. is_base (c_kind (obj d i)) \<longrightarrow> (\<exists>b. server_name_missing d i = Inr b)"
  shows "forward_scan (forward_server_name d msg) msg is acc d =
    (case find (is_destination d msg) is of
       None \<Rightarrow> Ret (Some (acc @ filter (may_know d msg) is)) d
     | Some i \<Rightarrow> Ret None (forward_deliver msg i d))"
  using assms
proof (induction "is" arbitrary: acc)
  case (Cons i "is")
  show ?case
  proof (cases "forward_skips d i")
    case True
    then have step: "forward_scan (forward_server_name d msg) msg (i # is) acc d =
        forward_scan (forward_server_name d msg) msg is acc d"
      by (auto simp: forward_skips_def)
    have "\<not> is_destination d msg i" "\<not> may_know d msg i"
      using True by (simp_all add: is_destination_def may_know_def)
    then show ?thesis
      using Cons.IH [of acc] Cons.prems by (simp only: step) (simp split: option.split)
  next
    case False
    with Cons.prems have k: "is_base (c_kind (obj d i))" "server_name_missing d i = Inr False"
      by (auto simp: forward_skips_def)
    show ?thesis
      using False k Cons by (simp add: is_destination_def may_know_def Let_def split: option.split)
  qed
qed simp

text \<open>
  C2: Where a message for a service goes, when the daemon can tell (no connection is up without a
  server name). To the first connection of that name on the right server, and nowhere else: nothing is
  sent but this message, once; to the sender itself nothing is sent at all. With no such connection,
  to the cache if the service is one of this computer, and else to the daemons that may know it.
\<close>

theorem forward_message_routes:
  assumes "servers_named d" and "\<not> is_broadcast_service (m_service msg)"
  shows "forward_message L msg d =
    (case find (is_destination d msg) (connections d) of
       Some i \<Rightarrow> Ret False
         (if m_user_data msg \<noteq> Some i \<and> verify_command d i msg then send_message i msg d else d)
     | None \<Rightarrow>
         if forward_server_name d msg \<in> {[], ''*'', ''?'', f_server_name d} \<and>
            m_service msg \<in> f_local_services_list d
         then forward_cache L msg d
         else if forward_server_name d msg = f_server_name d
         then Ret False (transmission_report msg False d)
         else if filter (may_know d msg) (connections d) = [] then Ret True d
         else seq (broadcast_message L
                (if forward_server_name d msg = ''?'' then msg\<lparr>m_server := ''*''\<rparr> else msg)
                (filter (may_know d msg) (connections d)) d) (Ret True))"
proof -
  have s: "forward_scan (forward_server_name d msg) msg (connections d) [] d =
    (case find (is_destination d msg) (connections d) of
       None \<Rightarrow> Ret (Some ([] @ filter (may_know d msg) (connections d))) d
     | Some i \<Rightarrow> Ret None (forward_deliver msg i d))"
    by (rule forward_scan_spec) (use assms(1) in \<open>simp add: servers_named_missing\<close>)
  show ?thesis
  proof (cases "find (is_destination d msg) (connections d)")
    case (Some i)
    with s assms(2) show ?thesis
      by (simp add: forward_message_def forward_deliver_def send_message_to_connection_def)
  next
    case None
    with s assms(2) show ?thesis
      by (auto simp: forward_message_def forward_elsewhere_def server_matches_def Let_def)
  qed
qed

definition sample_service :: "int daemon" where
  "sample_service =
     (sample_daemon [(sample_conn Unix_conn ''cron'' 0 {''RUN''})\<lparr>f_base_server_name := ''alpha''\<rparr>,
        (sample_conn Service_conn ''remote'' 20 {})\<lparr>f_base_server_name := ''beta'', f_type := Remote_type\<rparr>])
     \<lparr>f_local_services_list := {''cron'', ''log''}\<rparr>"

definition sample_request :: "string \<Rightarrow> string \<Rightarrow> message" where
  "sample_request service cmd = new_message\<lparr>m_command := cmd, m_service := service, m_server := ''.''\<rparr>"

theorem forward_message_routes_witness:
  "forward_message sample_lib (sample_request ''cron'' ''RUN'') sample_service =
     Ret False (send_message 0 (sample_request ''cron'' ''RUN'') sample_service)"
proof -
  have n: "servers_named sample_service"
    by (auto simp: servers_named_def sample_service_def sample_daemon_def sample_conn_def)
  have b: "\<not> is_broadcast_service (m_service (sample_request ''cron'' ''RUN''))"
    and f: "find (is_destination sample_service (sample_request ''cron'' ''RUN''))
      (connections sample_service) = Some 0"
    and v: "verify_command sample_service 0 (sample_request ''cron'' ''RUN'')"
    and u: "m_user_data (sample_request ''cron'' ''RUN'') = None"
    by code_simp+
  from forward_message_routes [OF n b] show ?thesis by (simp add: f v u)
qed

end
