(* ===== verification/Loadavg_File.thy ===== *)
theory Loadavg_File
  imports Prelude
begin

text \<open>
  The file of load averages (communicator/loadavg.cpp): one item per computer, kept in memory in
  \<open>f_items\<close> and on disk behind a magic.  A file on disk is \<open>None\<close> when it does not exist, else whether
  its magic and version are right, and the items behind them.  An address is of a type \<open>'b\<close>, a time is
  in nanoseconds, a load average is a rational number (the values of \<open>float\<close> other than NaN are).
\<close>

record 'b loadavg_item =
  f_timestamp :: int
  f_item_address :: 'b
  f_avg :: rat

type_synonym 'b loadavg_disk = "(bool \<times> 'b loadavg_item list) option"

text \<open>
  What the system calls answer: \<open>io_item_fails k\<close> says whether the \<open>read\<close> or \<open>write\<close> of the item \<open>k\<close> of
  the file fails. A call that is cut short in the middle of an item is not modelled.
\<close>

record loadavg_io =
  io_open :: bool
  io_lock :: bool
  io_magic :: bool
  io_item_fails :: "nat \<Rightarrow> bool"

definition no_io_error :: loadavg_io where
  "no_io_error = \<lparr>io_open = True, io_lock = True, io_magic = True, io_item_fails = (\<lambda>k. False)\<rparr>"

text \<open>
  The loop of \<open>load\<close>: one \<open>read\<close> for each item of the file and one that finds its end; \<open>pos\<close> is the position
  in the file. When a \<open>read\<close> fails the items that were read stay in \<open>f_items\<close>.
\<close>

function read_items :: "(nat \<Rightarrow> bool) \<Rightarrow> 'b loadavg_item list \<Rightarrow> nat \<Rightarrow> 'b loadavg_item list \<Rightarrow> bool \<times> 'b loadavg_item list" where
  "read_items fails content pos items =
     (if fails pos then (False, items)
      else if length content \<le> pos then (True, items)
      else read_items fails content (Suc pos) (items @ [content ! pos]))"
  by pat_completeness auto
termination
  by (relation "measure (\<lambda>(fails, content, pos, items). length content - pos)") auto

declare read_items.simps [simp del]

definition loadavg_load :: "loadavg_io \<Rightarrow> 'b loadavg_disk \<Rightarrow> 'b loadavg_item list \<Rightarrow> bool \<times> 'b loadavg_item list" where
  "loadavg_load io disk items = (case disk of
      None \<Rightarrow> (False, items)
    | Some (magic, stored) \<Rightarrow>
        if \<not> io_open io then (False, items)
        else if \<not> io_lock io then (False, items)
        else if \<not> io_magic io then (False, items)
        else if \<not> magic then (False, items)
        else read_items (io_item_fails io) stored 0 items)"

text \<open>A \<open>write\<close> at a position of the file: it replaces the item there, or extends the file at its end.\<close>

definition write_item :: "nat \<Rightarrow> 'b loadavg_item \<Rightarrow> 'b loadavg_item list \<Rightarrow> 'b loadavg_item list" where
  "write_item pos item content = (if pos < length content then content[pos := item] else content @ [item])"

text \<open>The loop of \<open>save\<close>: one \<open>write\<close> for each item in memory, each behind the one before.\<close>

fun write_items :: "(nat \<Rightarrow> bool) \<Rightarrow> nat \<Rightarrow> 'b loadavg_item list \<Rightarrow> 'b loadavg_item list \<Rightarrow> bool \<times> 'b loadavg_item list" where
  "write_items fails pos [] content = (True, content)"
| "write_items fails pos (item # items) content =
     (if fails pos then (False, content)
      else write_items fails (Suc pos) items (write_item pos item content))"

text \<open>
  \<open>save\<close> opens the file without truncating it. A file that does not exist is created empty by \<open>open\<close>; the
  position of the first item is behind the magic.
\<close>

definition loadavg_save :: "loadavg_io \<Rightarrow> 'b loadavg_item list \<Rightarrow> 'b loadavg_disk \<Rightarrow> bool \<times> 'b loadavg_disk" where
  "loadavg_save io items disk =
     (if \<not> io_open io then (False, disk)
      else
        let (magic, stored) = (case disk of None \<Rightarrow> (False, []) | Some d \<Rightarrow> d) in
        if \<not> io_lock io then (False, Some (magic, stored))
        else if \<not> io_magic io then (False, Some (magic, stored))
        else let (r, content) = write_items (io_item_fails io) 0 items stored in (r, Some (True, content)))"

fun loadavg_add :: "'b loadavg_item \<Rightarrow> 'b loadavg_item list \<Rightarrow> 'b loadavg_item list" where
  "loadavg_add n [] = [n]"
| "loadavg_add n (i # is) =
     (if f_item_address i = f_item_address n
      then i\<lparr>f_timestamp := f_timestamp n, f_avg := f_avg n\<rparr> # is
      else i # loadavg_add n is)"

definition remove_old_entries :: "int \<Rightarrow> int \<Rightarrow> 'b loadavg_item list \<Rightarrow> bool \<times> 'b loadavg_item list" where
  "remove_old_entries now how_old items =
     (let kept = filter (\<lambda>i. \<not> f_timestamp i < now - how_old * 1000000000) items
      in (length kept \<noteq> length items, kept))"

fun loadavg_find :: "'b \<Rightarrow> 'b loadavg_item list \<Rightarrow> 'b loadavg_item option" where
  "loadavg_find a [] = None"
| "loadavg_find a (i # is) = (if f_item_address i = a then Some i else loadavg_find a is)"

text \<open>\<open>std::min_element\<close>: the best so far is replaced by a strictly smaller one only.\<close>

fun min_element :: "'b loadavg_item \<Rightarrow> 'b loadavg_item list \<Rightarrow> 'b loadavg_item" where
  "min_element best [] = best"
| "min_element best (i # is) = min_element (if f_avg i < f_avg best then i else best) is"

fun find_least_busy :: "'b loadavg_item list \<Rightarrow> 'b loadavg_item option" where
  "find_least_busy [] = None"
| "find_least_busy (i # is) = Some (min_element i is)"

text \<open>The path is set once, by the daemon or by the first use.\<close>

definition set_loadavg_path :: "string \<Rightarrow> string \<Rightarrow> (string, unit) res" where
  "set_loadavg_path path g_filename =
     (if g_filename \<noteq> [] then Raise Path_already_set g_filename
      else ok (path @ ''/loadavg.lavg''))"

definition get_loadavg_path :: "string \<Rightarrow> string \<times> string" where
  "get_loadavg_path g_filename =
     (let g = (if g_filename = [] then res_state (set_loadavg_path ''/var/lib/communicator'' g_filename)
               else g_filename)
      in (g, g))"

section \<open>Properties\<close>

lemma loadavg_add_addresses:
  "map f_item_address (loadavg_add n is) =
     (if f_item_address n \<in> set (map f_item_address is) then map f_item_address is
      else map f_item_address is @ [f_item_address n])"
  by (induction n "is" rule: loadavg_add.induct) auto

lemma loadavg_find_add:
  "loadavg_find a (loadavg_add n is) =
     (if a = f_item_address n
      then (case loadavg_find a is of None \<Rightarrow> Some n
            | Some i \<Rightarrow> Some (i\<lparr>f_timestamp := f_timestamp n, f_avg := f_avg n\<rparr>))
      else loadavg_find a is)"
  by (induction n "is" rule: loadavg_add.induct) (auto split: option.splits)

lemma loadavg_find_address: "loadavg_find a is = Some i \<Longrightarrow> f_item_address i = a \<and> i \<in> set is"
  by (induction a "is" rule: loadavg_find.induct) (auto split: if_splits)

text \<open>
  The list of load averages is a map from computers to their last load: adding an item makes it
  the one found for its address, leaves the others as they were, and never lists a computer twice.
\<close>

theorem loadavg_add_correct:
  assumes "distinct (map f_item_address items)"
  shows "distinct (map f_item_address (loadavg_add n items)) \<and>
    loadavg_find a (loadavg_add n items) = (if a = f_item_address n then Some n else loadavg_find a items)"
proof
  show "distinct (map f_item_address (loadavg_add n items))"
    using assms unfolding loadavg_add_addresses by auto
  show "loadavg_find a (loadavg_add n items) = (if a = f_item_address n then Some n else loadavg_find a items)"
    by (auto simp: loadavg_find_add dest: loadavg_find_address split: option.split)
qed

definition sample_items :: "nat loadavg_item list" where
  "sample_items = [\<lparr>f_timestamp = 5, f_item_address = 1, f_avg = 1/2\<rparr>,
     \<lparr>f_timestamp = 7, f_item_address = 2, f_avg = 1/4\<rparr>]"

theorem loadavg_add_correct_witness:
  "loadavg_find 2 (loadavg_add \<lparr>f_timestamp = 9, f_item_address = 2, f_avg = 1\<rparr> sample_items) =
     Some \<lparr>f_timestamp = 9, f_item_address = 2, f_avg = 1\<rparr>"
  using loadavg_add_correct [where a = 2 and n = "\<lparr>f_timestamp = 9, f_item_address = 2, f_avg = 1\<rparr>"
      and items = sample_items]
  by (simp add: sample_items_def)

lemma min_element_spec:
  "min_element best is \<in> set (best # is) \<and> (\<forall>i \<in> set (best # is). f_avg (min_element best is) \<le> f_avg i)"
proof (induction best "is" rule: min_element.induct)
  case (2 best i "is")
  then show ?case by (cases "f_avg i < f_avg best") (auto simp: not_less intro: order_trans less_imp_le)
qed simp

text \<open>
  \<open>find_least_busy\<close> finds a computer exactly when there is one, and then one of the list whose load
  average no other is below.
\<close>

theorem find_least_busy_correct:
  "case find_least_busy is of
     None \<Rightarrow> is = []
   | Some i \<Rightarrow> i \<in> set is \<and> filter (\<lambda>j. f_avg j < f_avg i) is = []"
proof (cases "is")
  case (Cons i js)
  with min_element_spec [of i js] show ?thesis by (auto simp: filter_empty_conv not_less)
qed simp

lemma remove_old_entries_spec:
  "set (snd (remove_old_entries now how_old items)) =
     {i \<in> set items. now - how_old * 1000000000 \<le> f_timestamp i} \<and>
   (fst (remove_old_entries now how_old items) \<longleftrightarrow>
     (\<exists>i \<in> set items. f_timestamp i < now - how_old * 1000000000))"
proof -
  have len: "length (filter P xs) \<noteq> length xs \<longleftrightarrow> (\<exists>x \<in> set xs. \<not> P x)" for P and xs :: "'c list"
    using filter_id_conv [of P xs] length_filter_less [of _ xs P] by (metis less_irrefl)
  show ?thesis
    unfolding remove_old_entries_def Let_def fst_conv snd_conv len by auto
qed

definition stored_items :: "'b loadavg_disk \<Rightarrow> 'b loadavg_item list" where
  "stored_items disk = (case disk of None \<Rightarrow> [] | Some (magic, stored) \<Rightarrow> stored)"

text \<open>The loops, from any position: how far they get, and that they get to the end when no call fails.\<close>

lemma read_items_spec:
  assumes "pos \<le> length content"
  shows "\<exists>k. pos \<le> k \<and> k \<le> length content \<and>
    snd (read_items fails content pos items) = items @ take (k - pos) (drop pos content) \<and>
    (fst (read_items fails content pos items) \<longrightarrow> k = length content)"
  using assms
proof (induction fails content pos items rule: read_items.induct)
  case (1 fails content pos items)
  show ?case
  proof (cases "fails pos \<or> length content \<le> pos")
    case True
    then show ?thesis
      using "1.prems" by (intro exI [of _ pos]) (auto simp: read_items.simps [of fails content pos])
  next
    case False
    let ?r = "read_items fails content (Suc pos) (items @ [content ! pos])"
    have r: "read_items fails content pos items = ?r" using False by (simp add: read_items.simps [of fails content pos])
    have "\<not> fails pos" "\<not> length content \<le> pos" "Suc pos \<le> length content" using False by auto
    from "1.IH" [OF this] obtain k where k: "Suc pos \<le> k" "k \<le> length content"
      "snd ?r = (items @ [content ! pos]) @ take (k - Suc pos) (drop (Suc pos) content)"
      "fst ?r \<longrightarrow> k = length content" by blast
    have "k - pos = Suc (k - Suc pos)" using k(1) by simp
    moreover have "drop pos content = content ! pos # drop (Suc pos) content"
      using False by (simp add: Cons_nth_drop_Suc)
    ultimately have t: "snd ?r = items @ take (k - pos) (drop pos content)" using k(3) by simp
    have "pos \<le> k" using k(1) by simp
    with k(2,4) t show ?thesis unfolding r by blast
  qed
qed

lemma read_items_ok: "fst (read_items (\<lambda>k. False) content pos items)"
proof (induction "\<lambda>k::nat. False" content pos items rule: read_items.induct)
  case (1 content pos items)
  then show ?case by (subst read_items.simps) simp
qed

lemma write_item_parts:
  "pos \<le> length content \<Longrightarrow> write_item pos item content = take pos content @ item # drop (Suc pos) content"
  by (auto simp: write_item_def upd_conv_take_nth_drop)

lemma write_items_spec:
  assumes "pos \<le> length content"
  shows "\<exists>k \<le> length items. snd (write_items fails pos items content) = take pos content @ take k items @ drop (pos + k) content \<and>
    (fst (write_items fails pos items content) \<longrightarrow> k = length items)"
  using assms
proof (induction items arbitrary: pos content)
  case (Cons item items)
  show ?case
  proof (cases "fails pos")
    case False
    let ?f = "write_item pos item content"
    have f: "?f = take pos content @ item # drop (Suc pos) content" using Cons.prems by (rule write_item_parts)
    then have "Suc pos \<le> length ?f" using Cons.prems by simp
    from Cons.IH [OF this] obtain k where k: "k \<le> length items"
      "snd (write_items fails (Suc pos) items ?f) = take (Suc pos) ?f @ take k items @ drop (Suc pos + k) ?f"
      "fst (write_items fails (Suc pos) items ?f) \<longrightarrow> k = length items" by blast
    have "take (Suc pos) ?f = take pos content @ [item]" "drop (Suc pos + k) ?f = drop (pos + Suc k) content"
      using Cons.prems by (simp_all add: f add.commute)
    with k False show ?thesis by (intro exI [of _ "Suc k"]) simp
  next
    case True
    then show ?thesis by (intro exI [of _ 0]) auto
  qed
qed simp

lemma write_items_ok: "fst (write_items (\<lambda>k. False) pos items content)"
  by (induction items arbitrary: pos content) simp_all

text \<open>
  C40: What \<open>load\<close> reads from a file that \<open>save\<close> wrote is what was saved, and behind it every item of
  the old file beyond the length of the new list: an entry removed from the list in memory is still in
  the file, unless at least as many are written as the file had. Whatever system call fails, \<open>load\<close> adds
  the first items of the file to the list, all of them when it returns true, and \<open>save\<close> leaves a file whose
  first items are the first ones of the list, all of them when it returns true, and whose other items are
  those it had.
\<close>

theorem loadavg_save_load:
  "loadavg_load no_io_error (snd (loadavg_save no_io_error items disk)) [] =
     (True, items @ drop (length items) (stored_items disk)) \<and>
   (\<exists>k \<le> length (stored_items disk). snd (loadavg_load io disk items) = items @ take k (stored_items disk) \<and>
     (fst (loadavg_load io disk items) \<longrightarrow> k = length (stored_items disk))) \<and>
   (\<exists>k \<le> length items. stored_items (snd (loadavg_save io items disk)) = take k items @ drop k (stored_items disk) \<and>
     (fst (loadavg_save io items disk) \<longrightarrow> k = length items))"
proof (intro conjI)
  have w: "write_items (\<lambda>k. False) 0 items content = (True, items @ drop (length items) content)" for content :: "'a loadavg_item list"
    using write_items_spec [of 0 content items "\<lambda>k. False"] write_items_ok [of 0 items content]
    by (cases "write_items (\<lambda>k. False) 0 items content") auto
  have r: "read_items (\<lambda>k. False) content 0 [] = (True, content)" for content :: "'a loadavg_item list"
    using read_items_spec [of 0 content "\<lambda>k. False" "[]"] read_items_ok [of content 0 "[]"]
    by (cases "read_items (\<lambda>k. False) content 0 []") auto
  show "loadavg_load no_io_error (snd (loadavg_save no_io_error items disk)) [] =
     (True, items @ drop (length items) (stored_items disk))"
    by (cases disk) (auto simp: loadavg_load_def loadavg_save_def no_io_error_def stored_items_def w r)
  show "\<exists>k \<le> length (stored_items disk). snd (loadavg_load io disk items) = items @ take k (stored_items disk) \<and>
     (fst (loadavg_load io disk items) \<longrightarrow> k = length (stored_items disk))"
  proof (cases "fst (loadavg_load io disk items) \<or> snd (loadavg_load io disk items) \<noteq> items")
    case True
    then obtain stored where "disk = Some (True, stored)" "loadavg_load io disk items = read_items (io_item_fails io) stored 0 items"
      by (auto simp: loadavg_load_def split: option.splits if_splits)
    with read_items_spec [of 0 stored "io_item_fails io" items] show ?thesis by (auto simp: stored_items_def)
  qed (auto intro: exI [of _ 0])
  show "\<exists>k \<le> length items. stored_items (snd (loadavg_save io items disk)) = take k items @ drop k (stored_items disk) \<and>
     (fst (loadavg_save io items disk) \<longrightarrow> k = length items)"
  proof (cases "io_open io \<and> io_lock io \<and> io_magic io")
    case True
    let ?w = "write_items (io_item_fails io) 0 items (stored_items disk)"
    have "loadavg_save io items disk = (fst ?w, Some (True, snd ?w))"
      using True by (cases disk) (auto simp: loadavg_save_def stored_items_def split: prod.split)
    with write_items_spec [of 0 "stored_items disk" items "io_item_fails io"] show ?thesis
      by (auto simp: stored_items_def)
  next
    case False
    then show ?thesis
      by (intro exI [of _ 0]) (cases disk; auto simp: loadavg_save_def stored_items_def split: prod.split)
  qed
qed

text \<open>An example: the old file has three items, two are saved; when the second write fails only one is.\<close>

theorem loadavg_save_load_witness:
  "\<exists>k \<le> 2. stored_items (snd (loadavg_save (no_io_error\<lparr>io_item_fails := (\<lambda>k. k = 1)\<rparr>) sample_items
       (Some (True, replicate 3 (hd sample_items))))) = take k sample_items @ drop k (replicate 3 (hd sample_items)) \<and>
   snd (loadavg_load no_io_error (snd (loadavg_save no_io_error sample_items (Some (True, replicate 3 (hd sample_items))))) []) =
     sample_items @ [hd sample_items]"
proof -
  let ?d = "Some (True, replicate 3 (hd sample_items))"
  have l: "length sample_items = 2" "drop 2 (replicate 3 (hd sample_items)) = [hd sample_items]"
    by (simp_all add: sample_items_def numeral_2_eq_2 numeral_3_eq_3)
  have st: "stored_items ?d = replicate 3 (hd sample_items)" by (simp add: stored_items_def)
  from loadavg_save_load [where items = sample_items and disk = ?d and io = "no_io_error\<lparr>io_item_fails := (\<lambda>k. k = 1)\<rparr>"]
  show ?thesis unfolding st l by auto
qed

end
