(* ===== verification/Loadavg_Plugin.thy ===== *)
theory Loadavg_Plugin
  imports Forward Loadavg_File
begin

text \<open>
  The plugin communicatord_loadavg (plugins/communicatord_loadavg/loadavg.cpp): it registers with
  other daemons for their LOADAVG messages, saves those it receives in the file of load averages, and
  sends its own load to the connections that asked for it.  Its state is a record of its own; the
  conversions of numbers, times and addresses it calls are the record \<open>loadavg_lib\<close>, with what the
  system calls on the file answer.
\<close>

record 'b loadavg_plugin =
  f_registered_neighbors_for_loadavg :: "string set"
  f_last_loadavg :: rat
  f_number_of_processors :: nat
  timer_enabled :: bool
  loadavg_disk :: "'b loadavg_disk"
  f_loadavg_tag :: "nat option"
  f_loadavg_timer :: bool

record ('a, 'b) loadavg_lib =
  stof :: "string \<Rightarrow> rat option"
  show_float :: "rat \<Rightarrow> string"
  get_timespec :: "string \<Rightarrow> int option"
  get_ipv6 :: "'a \<Rightarrow> 'b"
  build_year_start :: int
  load_io :: loadavg_io
  save_io :: loadavg_io

section \<open>The new_connection signal\<close>

definition on_new_connection :: "cid \<Rightarrow> 'a daemon \<Rightarrow> 'a daemon" where
  "on_new_connection i d =
     (let register_message = daemon_message (f_server_name d) ''REGISTER_FOR_LOADAVG'' in
      if c_kind (obj d i) = Remote_conn then send_message i register_message d
      else if c_kind (obj d i) = Service_conn then send_message i register_message d
      else d)"

text \<open>The daemon emits the signal whether or not the plugin is loaded.\<close>

definition new_connection :: "cid \<Rightarrow> 'a daemon \<Rightarrow> 'a daemon" where
  "new_connection i d = (if p_loadavg d then on_new_connection i d else d)"

section \<open>Messages of the plugin\<close>

definition register_for_loadavg :: "('a, 'z) lib_scheme \<Rightarrow> string \<Rightarrow> 'a daemon \<Rightarrow> ('a daemon, unit) res" where
  "register_for_loadavg L ip d =
     (case string_to_addr L ip ''127.0.0.1'' 4040 of
        None \<Rightarrow> Raise (Invalid_address ip) d
      | Some address \<Rightarrow>
          (case find (\<lambda>i. if c_kind (obj d i) = Remote_conn then f_base_address (obj d i) = address
                          else if c_kind (obj d i) = Service_conn then f_base_address (obj d i) = address
                          else False) (connections d) of
             None \<Rightarrow> ok d
           | Some i \<Rightarrow> ok (on_new_connection i d)))"

fun listen_loadavg :: "('a, 'z) lib_scheme \<Rightarrow> string list \<Rightarrow> 'a daemon \<times> 'b loadavg_plugin
    \<Rightarrow> ('a daemon \<times> 'b loadavg_plugin, unit) res" where
  "listen_loadavg L [] (d, p) = ok (d, p)"
| "listen_loadavg L (ip # ips) (d, p) =
     (if ip \<in> f_registered_neighbors_for_loadavg p then listen_loadavg L ips (d, p)
      else
        let p1 = p\<lparr>f_registered_neighbors_for_loadavg := insert ip (f_registered_neighbors_for_loadavg p)\<rparr>
        in case register_for_loadavg L ip d of
             Ret _ d1 \<Rightarrow> listen_loadavg L ips (d1, p1)
           | Raise e d1 \<Rightarrow> Raise e (d1, p1))"

definition msg_listen_loadavg :: "('a, 'z) lib_scheme \<Rightarrow> message \<Rightarrow> 'a daemon \<times> 'b loadavg_plugin
    \<Rightarrow> ('a daemon \<times> 'b loadavg_plugin, unit) res" where
  "msg_listen_loadavg L msg s =
     bind_res (of_sum (get_parameter msg ''ips'') s) (\<lambda>ips s.
       listen_loadavg L (sorted_list_of_set (tokens L {} ips '','' False [])) s)"

definition msg_save_loadavg :: "('a, 'z) lib_scheme \<Rightarrow> ('a, 'b) loadavg_lib \<Rightarrow> message
    \<Rightarrow> 'b loadavg_plugin \<Rightarrow> ('b loadavg_plugin, unit) res" where
  "msg_save_loadavg L M msg p =
     bind_res (of_sum (get_parameter msg ''avg'') p) (\<lambda>avg_str p.
     bind_res (of_sum (get_parameter msg ''my_address'') p) (\<lambda>my_address p.
     bind_res (of_sum (get_parameter msg ''timestamp'') p) (\<lambda>timestamp_str p.
       case get_timespec M timestamp_str of
         None \<Rightarrow> Raise (Not_an_integer ''timestamp'') p
       | Some timestamp \<Rightarrow>
           (case string_to_addr L my_address ''127.0.0.1'' 4040 of
              None \<Rightarrow> Raise (Invalid_address my_address) p
            | Some a \<Rightarrow>
                (case stof M avg_str of
                   None \<Rightarrow> Raise Invalid_parameter p
                 | Some avg \<Rightarrow>
                     if avg < 0 then ok p
                     else if timestamp < build_year_start M then ok p
                     else
                       let item = \<lparr>f_timestamp = timestamp, f_item_address = get_ipv6 M (set_port L a 4040),
                                   f_avg = avg\<rparr>;
                           items = snd (loadavg_load (load_io M) (loadavg_disk p) [])
                       in ok (p\<lparr>loadavg_disk := snd (loadavg_save (save_io M) (loadavg_add item items) (loadavg_disk p))\<rparr>))))))"

text \<open>
  The timer of the plugin is a pointer that is null when the event loop did not take the timer; it is used
  without a test.
\<close>

definition set_timer_enable :: "bool \<Rightarrow> 'a daemon \<times> 'b loadavg_plugin \<Rightarrow> ('a daemon \<times> 'b loadavg_plugin, unit) res" where
  "set_timer_enable b = (\<lambda>(d, p).
     if f_loadavg_timer p then ok (d, p\<lparr>timer_enabled := b\<rparr>) else Raise Null_dereference (d, p))"

definition msg_register_for_loadavg :: "message \<Rightarrow> 'a daemon \<times> 'b loadavg_plugin
    \<Rightarrow> ('a daemon \<times> 'b loadavg_plugin, unit) res" where
  "msg_register_for_loadavg msg = (\<lambda>(d, p).
     (case is_tcp_connection msg d of
        Inl e \<Rightarrow> Raise e (d, p)
      | Inr tcp \<Rightarrow>
          (case m_user_data msg of
             Some i \<Rightarrow>
               if tcp then set_timer_enable True (upd_conn i (set_wants_loadavg True) d, p)
               else ok (d, p)
           | None \<Rightarrow> ok (d, p))))"

text \<open>The search casts each connection to a \<open>base_connection\<close> and reads the result without a test.\<close>

fun find_wants_loadavg :: "'a daemon \<Rightarrow> cid list \<Rightarrow> exn + bool" where
  "find_wants_loadavg d [] = Inr False"
| "find_wants_loadavg d (i # is) =
     (if \<not> is_base (c_kind (obj d i)) then Inl Null_dereference
      else if f_wants_loadavg (obj d i) then Inr True
      else find_wants_loadavg d is)"

definition msg_unregister_from_loadavg :: "message \<Rightarrow> 'a daemon \<times> 'b loadavg_plugin
    \<Rightarrow> ('a daemon \<times> 'b loadavg_plugin, unit) res" where
  "msg_unregister_from_loadavg msg = (\<lambda>(d, p).
     (case is_tcp_connection msg d of
        Inl e \<Rightarrow> Raise e (d, p)
      | Inr tcp \<Rightarrow>
          (case m_user_data msg of
             Some i \<Rightarrow>
               if tcp then
                 let d1 = upd_conn i (set_wants_loadavg False) d
                 in (case find_wants_loadavg d1 (connections d1) of
                       Inl e \<Rightarrow> Raise e (d1, p)
                     | Inr True \<Rightarrow> ok (d1, p)
                     | Inr False \<Rightarrow> set_timer_enable False (d1, p))
               else ok (d, p)
           | None \<Rightarrow> ok (d, p))))"

section \<open>Sending our own load\<close>

text \<open>The first number of /proc/loadavg: everything up to a white space; the file must have one.\<close>

fun read_first_number :: "string \<Rightarrow> string \<Rightarrow> string option" where
  "read_first_number avg_str [] = None"
| "read_first_number avg_str (c # cs) =
     (if c \<in> {CHR '' '', CHR 0x09, CHR 0x0A, CHR 0x0B, CHR 0x0C, CHR 0x0D} then Some avg_str
      else read_first_number (avg_str @ [c]) cs)"

fun send_loadavg :: "message \<Rightarrow> cid list \<Rightarrow> 'a daemon \<Rightarrow> 'a daemon" where
  "send_loadavg load_avg [] d = d"
| "send_loadavg load_avg (i # is) d =
     send_loadavg load_avg is
       (if is_base (c_kind (obj d i)) \<and> f_wants_loadavg (obj d i) \<and>
           (c_kind (obj d i) = Remote_conn \<or> c_kind (obj d i) = Service_conn)
        then send_message i load_avg d else d)"

definition process_load_balancing :: "('a, 'z) lib_scheme \<Rightarrow> ('a, 'b) loadavg_lib \<Rightarrow> string option \<Rightarrow> string
    \<Rightarrow> 'a daemon \<times> 'b loadavg_plugin \<Rightarrow> ('a daemon \<times> 'b loadavg_plugin, unit) res" where
  "process_load_balancing L M proc_loadavg now_str = (\<lambda>(d, p).
     (case proc_loadavg of
        None \<Rightarrow> ok (d, p)
      | Some contents \<Rightarrow>
          (case read_first_number [] contents of
             None \<Rightarrow> ok (d, p)
           | Some avg_str \<Rightarrow>
               (case stof M avg_str of
                  None \<Rightarrow> Raise Invalid_parameter (d, p)
                | Some load \<Rightarrow>
                    let avg = load / of_nat (f_number_of_processors p) in
                    if \<bar>f_last_loadavg p - avg\<bar> < 1 / 10 then ok (d, p)
                    else
                      let load_avg = add_parameter ''timestamp'' now_str
                            (add_parameter ''my_address'' (ip_port_string L (f_connection_address d))
                            (add_parameter ''avg'' (show_float M avg)
                              (daemon_message (f_server_name d) ''LOADAVG'')))
                      in ok (send_loadavg load_avg (connections d) d, p\<lparr>f_last_loadavg := avg\<rparr>)))))"

section \<open>Start and end\<close>

text \<open>
  The option \<open>data-path\<close>, the number of processors, the tag and whether the event loop takes the timer are
  inputs; \<open>g\<close> is the global path of the file of load averages.
\<close>

definition loadavg_initialize :: "string \<Rightarrow> nat \<Rightarrow> nat \<Rightarrow> bool \<Rightarrow> 'b loadavg_plugin \<times> string
    \<Rightarrow> ('b loadavg_plugin \<times> string, unit) res" where
  "loadavg_initialize path processors tag added = (\<lambda>(p, g).
     let p1 = p\<lparr>f_number_of_processors := max 1 processors\<rparr> in
     (case set_loadavg_path path g of
        Raise e g1 \<Rightarrow> Raise e (p1, g1)
      | Ret _ g1 \<Rightarrow>
          if f_loadavg_tag p1 \<noteq> None then Raise Logic_error (p1, g1)
          else ok (p1\<lparr>f_loadavg_tag := Some tag, f_loadavg_timer := added\<rparr>, g1)))"

definition loadavg_terminate :: "'b loadavg_plugin \<Rightarrow> 'b loadavg_plugin" where
  "loadavg_terminate p = p\<lparr>f_loadavg_timer := False\<rparr>"

section \<open>Lemmas\<close>

lemma on_new_connection_only_sends: "only_sends d (on_new_connection i d)"
  by (simp add: on_new_connection_def Let_def)

lemma new_connection_only_sends: "only_sends d (new_connection i d)"
  by (simp add: new_connection_def on_new_connection_only_sends)

lemma send_loadavg_eq:
  "send_loadavg m is d = d\<lparr>out := out d @ map (\<lambda>i. Sent i m)
     (filter (\<lambda>i. f_wants_loadavg (obj d i) \<and> c_kind (obj d i) \<in> {Remote_conn, Service_conn}) is)\<rparr>"
  by (induction m "is" d rule: send_loadavg.induct) (auto simp: send_message_def emit_def)

text \<open>A connection on the Unix socket may register, but its class is not among those that are sent the load.\<close>

lemma unix_not_served:
  assumes "c_kind (obj d i) = Unix_conn"
  shows "Sent i m \<notin> set (drop (length (out d)) (out (fst (res_state (process_load_balancing L M contents t (d, p))))))"
  using assms by (auto simp: process_load_balancing_def Let_def send_loadavg_eq split: option.split)

text \<open>Without the timer a connection cannot register: the null pointer is followed after the flag was set.\<close>

lemma register_without_timer:
  assumes "m_user_data msg = Some i" and "is_tcp_connection msg d = Inr True" and "\<not> f_loadavg_timer p"
  shows "msg_register_for_loadavg msg (d, p) = Raise Null_dereference (upd_conn i (set_wants_loadavg True) d, p)"
  using assms by (simp add: msg_register_for_loadavg_def set_timer_enable_def)

text \<open>
  The search for a connection that wants load averages fails on the first one that is no
  \<open>base_connection\<close>, such as a listener or a timer.
\<close>

lemma unregister_null_dereference:
  assumes "\<not> is_base (c_kind (obj d i))" and "\<forall>j \<in> set is. is_base (c_kind (obj d j)) \<and> \<not> f_wants_loadavg (obj d j)"
  shows "find_wants_loadavg d (is @ i # js) = Inl Null_dereference"
  using assms by (induction "is") auto

text \<open>
  The result of \<open>load\<close> is not tested: when the file cannot be locked for reading, a LOADAVG message is
  written over the first item of the file.
\<close>

lemma save_loadavg_overwrites:
  assumes "\<not> io_lock (load_io M)" and "save_io M = no_io_error" and "loadavg_disk p = Some (True, i # is)"
    and "get_parameter msg ''avg'' = Inr avg" and "get_parameter msg ''my_address'' = Inr addr"
    and "get_parameter msg ''timestamp'' = Inr ts" and "get_timespec M ts = Some t"
    and "string_to_addr L addr ''127.0.0.1'' 4040 = Some a" and "stof M avg = Some v" and "0 \<le> v" and "build_year_start M \<le> t"
  shows "\<exists>item. msg_save_loadavg L M msg p = ok (p\<lparr>loadavg_disk := Some (True, item # is)\<rparr>)"
  using assms
  by (cases "io_open (load_io M)")
    (auto simp: msg_save_loadavg_def loadavg_load_def loadavg_save_def no_io_error_def write_item_def Let_def)

end
