(* ===== verification/Neighbors.thy ===== *)
theory Neighbors
  imports Sample
begin

text \<open>
  The list of neighbors of the daemon and its file \<open>neighbors.txt\<close>: \<open>read_neighbors\<close>,
  \<open>save_neighbors\<close>, \<open>add_neighbors\<close>, \<open>remove_neighbor\<close> and \<open>init_neighbors\<close>.  The text of the file is
  \<open>neighbors_txt\<close> (\<open>None\<close> for a file that cannot be read); what is written is an event.
\<close>

fun read_addresses :: "('a::linorder, 'z) lib_scheme \<Rightarrow> 'a addr_range list \<Rightarrow> 'a daemon \<Rightarrow> 'a daemon" where
  "read_addresses L [] d = d"
| "read_addresses L (r # rs) d =
     (if has_to r \<or> is_range r then read_addresses L rs d
      else case range_from r of
        None \<Rightarrow> read_addresses L rs d
      | Some a \<Rightarrow> read_addresses L rs
          (add_remote_communicator L a (d\<lparr>f_all_neighbors := finsert a (f_all_neighbors d)\<rparr>)))"

definition read_neighbors :: "('a::linorder, 'z) lib_scheme \<Rightarrow> 'a daemon \<Rightarrow> 'a daemon" where
  "read_neighbors L d =
     (if f_neighbors_cache_filename d \<noteq> [] then d
      else
        let d1 = d\<lparr>f_neighbors_cache_filename := data_path d @ ''/neighbors.txt''\<rparr> in
        case neighbors_txt d1 of
          None \<Rightarrow> d1
        | Some contents \<Rightarrow> read_addresses L (parse_required_port L contents) d1)"

definition save_neighbors :: "'a daemon \<Rightarrow> ('a daemon, unit) res" where
  "save_neighbors d =
     (if f_neighbors_cache_filename d = [] then Raise Logic_error d
      else if \<not> can_write_neighbors d
      then ok (emit (Flag_raised ''communicatord'' ''neighbors'' ''file-write'' 97 [''cache'', ''file-system''])
                (emit Neighbors_file_failed d))
      else ok (emit (Neighbors_file (f_all_neighbors d))
                (emit (Flag_lowered ''communicatord'' ''neighbors'' ''file-write'') d)))"

text \<open>The loop of \<open>add_neighbors\<close>; the flag is \<open>changed\<close>.\<close>

fun add_addresses :: "('a::linorder, 'z) lib_scheme \<Rightarrow> 'a addr_range list \<Rightarrow> bool \<times> 'a daemon \<Rightarrow> bool \<times> 'a daemon" where
  "add_addresses L [] st = st"
| "add_addresses L (r # rs) (changed, d) =
     (if has_to r \<or> is_range r then add_addresses L rs (changed, d)
      else case range_from r of
        None \<Rightarrow> add_addresses L rs (changed, d)
      | Some a \<Rightarrow>
          if net_type L a = Loopback then add_addresses L rs (changed, d)
          else if a |\<in>| f_all_neighbors d then add_addresses L rs (changed, d)
          else add_addresses L rs
            (True, add_remote_communicator L a (d\<lparr>f_all_neighbors := finsert a (f_all_neighbors d)\<rparr>)))"

definition add_neighbors :: "('a::linorder, 'z) lib_scheme \<Rightarrow> string \<Rightarrow> 'a daemon \<Rightarrow> ('a daemon, unit) res" where
  "add_neighbors L new_neighbors d =
     (let trimmed = trim_string L new_neighbors in
      if trimmed = [] then ok d
      else
        let d1 = read_neighbors L d;
            (changed, d2) = add_addresses L (parse_required_port L trimmed) (False, d1)
        in if changed then save_neighbors d2 else ok d2)"

definition remove_neighbor :: "('a::linorder, 'z) lib_scheme \<Rightarrow> string \<Rightarrow> 'a daemon \<Rightarrow> ('a daemon, unit) res" where
  "remove_neighbor L neighbor d =
     (case string_to_addr L neighbor ''255.255.255.255'' 4042 of
        None \<Rightarrow> Raise (Invalid_address neighbor) d
      | Some n \<Rightarrow>
          seq (if n |\<in>| f_all_neighbors d
               then save_neighbors (d\<lparr>f_all_neighbors := f_all_neighbors d |-| {|n|}\<rparr>)
               else ok d)
              (\<lambda>d. ok (forget_remote_connection n d)))"

section \<open>Frames\<close>

lemma new_object_fields [simp]:
  "connections (snd (new_object c d)) = connections d" "out (snd (new_object c d)) = out d"
  "fst (new_object c d) = next_id d"
  by (simp_all add: new_object_def)

text \<open>Connecting to a daemon leaves the list of neighbors and its file alone.\<close>

definition neighbors_view where
  "neighbors_view d = (f_all_neighbors d, f_neighbors_cache_filename d, out d, can_write_neighbors d,
     f_connection_address d)"

lemma neighbors_view_connection_lost: "neighbors_view (connection_lost L a d) = neighbors_view d"
  by (simp add: connection_lost_def new_object_def add_connection_def neighbors_view_def Let_def)

lemma neighbors_view_add_remote: "neighbors_view (add_remote_communicator L a d) = neighbors_view d"
  using neighbors_view_connection_lost [of L a "d\<lparr>f_all_ips := insert a (f_all_ips d)\<rparr>"]
  by (auto simp: add_remote_communicator_def new_object_def add_connection_def neighbors_view_def Let_def
      upd_conn_def split: option.split)

lemma neighbors_view_forget: "neighbors_view (forget_remote_connection a d) = neighbors_view d"
  by (simp add: forget_remote_connection_def neighbors_view_def unlist_connection_def Let_def
      split: option.split)

section \<open>The file name is set before it is used\<close>

text \<open>There is a neighbor only after the file was read, so the file name is known when it is saved.\<close>

definition neighbors_inv :: "'a daemon \<Rightarrow> bool" where
  "neighbors_inv d \<longleftrightarrow> (f_neighbors_cache_filename d = [] \<longrightarrow> f_all_neighbors d = {||})"

lemma neighbors_view_fields:
  assumes "neighbors_view d' = neighbors_view d"
  shows "f_all_neighbors d' = f_all_neighbors d"
    "f_neighbors_cache_filename d' = f_neighbors_cache_filename d"
    "out d' = out d" "can_write_neighbors d' = can_write_neighbors d"
  using assms by (simp_all add: neighbors_view_def)

lemmas add_remote_fields = neighbors_view_fields [OF neighbors_view_add_remote]
lemmas forget_fields = neighbors_view_fields [OF neighbors_view_forget]

lemma read_addresses_fields:
  "f_neighbors_cache_filename (read_addresses L rs d) = f_neighbors_cache_filename d \<and>
   out (read_addresses L rs d) = out d \<and>
   can_write_neighbors (read_addresses L rs d) = can_write_neighbors d \<and>
   f_all_neighbors (read_addresses L rs d) =
     f_all_neighbors d |\<union>| fset_of_list (good_addresses rs)"
  by (induction L rs d rule: read_addresses.induct)
    (auto simp: add_remote_fields good_addresses_def bad_range_def split: option.split)

lemma read_neighbors_filename: "f_neighbors_cache_filename (read_neighbors L d) \<noteq> []"
  by (simp add: read_neighbors_def Let_def read_addresses_fields split: option.split)

text \<open>The addresses of a message or an option that the daemon takes as neighbors.\<close>

definition neighbor_addresses :: "('a, 'z) lib_scheme \<Rightarrow> 'a addr_range list \<Rightarrow> 'a list" where
  "neighbor_addresses L rs = filter (\<lambda>a. net_type L a \<noteq> Loopback) (good_addresses rs)"

lemma add_addresses_fields:
  "add_addresses L rs (changed, d) = (changed', d') \<Longrightarrow>
     f_neighbors_cache_filename d' = f_neighbors_cache_filename d \<and> out d' = out d \<and>
     can_write_neighbors d' = can_write_neighbors d \<and>
     f_all_neighbors d' = f_all_neighbors d |\<union>| fset_of_list (neighbor_addresses L rs) \<and>
     (changed' \<longleftrightarrow> changed \<or> f_all_neighbors d' \<noteq> f_all_neighbors d)"
proof (induction rs arbitrary: changed d)
  case (Cons r rs)
  show ?case
  proof (cases "bad_range r \<or> net_type L (the (range_from r)) = Loopback")
    case True
    then have "add_addresses L (r # rs) (changed, d) = add_addresses L rs (changed, d)"
      "neighbor_addresses L (r # rs) = neighbor_addresses L rs"
      by (auto simp: neighbor_addresses_def good_addresses_def bad_range_def split: option.split)
    with Cons show ?thesis by metis
  next
    case False
    then obtain a where a: "range_from r = Some a" "\<not> has_to r" "\<not> is_range r" "net_type L a \<noteq> Loopback"
      by (auto simp: bad_range_def)
    then have n: "neighbor_addresses L (r # rs) = a # neighbor_addresses L rs"
      by (simp add: neighbor_addresses_def good_addresses_def bad_range_def)
    show ?thesis
    proof (cases "a |\<in>| f_all_neighbors d")
      case True
      with Cons.IH [of changed d] Cons.prems a n show ?thesis by auto
    next
      case False
      let ?d = "add_remote_communicator L a (d\<lparr>f_all_neighbors := finsert a (f_all_neighbors d)\<rparr>)"
      from False Cons.prems a have "add_addresses L rs (True, ?d) = (changed', d')" by simp
      from Cons.IH [OF this] False n show ?thesis by (auto simp: add_remote_fields)
    qed
  qed
qed (simp add: neighbor_addresses_def good_addresses_def)

lemma save_neighbors_set:
  assumes "f_neighbors_cache_filename d \<noteq> []"
  obtains es where "save_neighbors d = ok (d\<lparr>out := out d @ es\<rparr>)"
    "can_write_neighbors d \<Longrightarrow> last es = Neighbors_file (f_all_neighbors d)" "es \<noteq> []"
proof (cases "can_write_neighbors d")
  case True
  with assms show ?thesis
    by (intro that [where es = "[Flag_lowered ''communicatord'' ''neighbors'' ''file-write'',
          Neighbors_file (f_all_neighbors d)]"]) (simp_all add: save_neighbors_def emit_def)
next
  case False
  with assms show ?thesis
    by (intro that [where es = "[Neighbors_file_failed, Flag_raised ''communicatord'' ''neighbors''
          ''file-write'' 97 [''cache'', ''file-system'']]"]) (simp_all add: save_neighbors_def emit_def)
qed

section \<open>Properties\<close>

text \<open>
  C38: \<open>add_neighbors\<close> never throws. The neighbors afterwards are those it had, those of the file when
  it was not read before, and the addresses of the argument that are neither ranges nor the loopback;
  and when the argument brought a new one, the file is written with exactly these.
\<close>

theorem add_neighbors_result:
  assumes "trim_string L s \<noteq> []" and "can_write_neighbors d"
  shows "\<exists>d'. add_neighbors L s d = ok d' \<and> neighbors_inv d' \<and>
    f_all_neighbors d' = f_all_neighbors (read_neighbors L d) |\<union>|
      fset_of_list (neighbor_addresses L (parse_required_port L (trim_string L s))) \<and>
    (if f_all_neighbors d' = f_all_neighbors (read_neighbors L d) then out d' = out (read_neighbors L d)
     else last (out d') = Neighbors_file (f_all_neighbors d'))"
proof -
  let ?d1 = "read_neighbors L d" and ?rs = "parse_required_port L (trim_string L s)"
  obtain changed d2 where d2: "add_addresses L ?rs (False, ?d1) = (changed, d2)" by fastforce
  note f = add_addresses_fields [OF d2]
  then have fn: "f_neighbors_cache_filename d2 \<noteq> []" by (simp add: read_neighbors_filename)
  have "can_write_neighbors ?d1 = can_write_neighbors d"
    by (simp add: read_neighbors_def Let_def read_addresses_fields split: option.split)
  with f assms(2) have w: "can_write_neighbors d2" by simp
  have eq: "add_neighbors L s d = (if changed then save_neighbors d2 else ok d2)"
    using assms(1) d2 by (simp add: add_neighbors_def)
  show ?thesis
  proof (cases changed)
    case False
    with f have "f_all_neighbors d2 = f_all_neighbors ?d1" by blast
    with False eq f fn show ?thesis by (intro exI [of _ d2]) (simp add: neighbors_inv_def)
  next
    case True
    obtain es where es: "save_neighbors d2 = ok (d2\<lparr>out := out d2 @ es\<rparr>)"
      "last es = Neighbors_file (f_all_neighbors d2)" "es \<noteq> []"
      using save_neighbors_set [OF fn] w by metis
    from True f have "f_all_neighbors d2 \<noteq> f_all_neighbors ?d1" by blast
    with True eq es fn show ?thesis
      by (intro exI [of _ "d2\<lparr>out := out d2 @ es\<rparr>"]) (use f in \<open>simp add: neighbors_inv_def\<close>)
  qed
qed

definition sample_neighbor_daemon :: "int daemon" where
  "sample_neighbor_daemon = (sample_daemon [])\<lparr>neighbors_txt := Some ''5,20''\<rparr>"

theorem add_neighbors_result_witness:
  "\<exists>d'. add_neighbors sample_lib ''30, 0,20'' sample_neighbor_daemon = ok d' \<and>
     f_all_neighbors d' = {|5, 20, 30|} \<and> last (out d') = Neighbors_file {|5, 20, 30|}"
proof -
  have t: "trim_string sample_lib ''30, 0,20'' \<noteq> []"
    and c: "can_write_neighbors sample_neighbor_daemon" by code_simp+
  have r: "f_all_neighbors (read_neighbors sample_lib sample_neighbor_daemon) = {|5, 20|}"
    and n: "neighbor_addresses sample_lib (parse_required_port sample_lib (trim_string sample_lib ''30, 0,20''))
      = [30, 20]"
    by code_simp+
  have four: "{|30, 20, 5, 20|} = {|5, 20, 30 :: int|}" by code_simp
  have ne: "{|5, 20, 30|} \<noteq> {|5, 20 :: int|}" by code_simp
  obtain d' where d': "add_neighbors sample_lib ''30, 0,20'' sample_neighbor_daemon = ok d'"
    "f_all_neighbors d' = {|5, 20, 30|}"
    "if f_all_neighbors d' = {|5, 20|} then out d' = out (read_neighbors sample_lib sample_neighbor_daemon)
     else last (out d') = Neighbors_file (f_all_neighbors d')"
    using add_neighbors_result [OF t c] unfolding r n by (auto simp: four)
  then have "last (out d') = Neighbors_file {|5, 20, 30|}" using ne by (simp only: if_False)
  with d' show ?thesis by blast
qed

text \<open>A neighbor that is removed.\<close>

lemma remove_neighbor_form:
  assumes "neighbors_inv d" and "string_to_addr L s ''255.255.255.255'' 4042 = Some a"
    and "map_ok (f_smaller_ips d)" and "map_ok (f_gossip_ips d)"
  shows "\<exists>d'. remove_neighbor L s d = ok d' \<and> neighbors_inv d' \<and>
    f_all_neighbors d' = f_all_neighbors d |-| {|a|} \<and>
    map_find (f_smaller_ips d') = (map_find (f_smaller_ips d))(a := None) \<and>
    map_find (f_gossip_ips d') = (map_find (f_gossip_ips d))(a := None)"
proof -
  let ?d1 = "d\<lparr>f_all_neighbors := f_all_neighbors d |-| {|a|}\<rparr>"
  have "\<exists>d2. (if a |\<in>| f_all_neighbors d then save_neighbors ?d1 else ok d) = ok d2 \<and>
    f_all_neighbors d2 = f_all_neighbors d |-| {|a|} \<and> f_smaller_ips d2 = f_smaller_ips d \<and>
    f_gossip_ips d2 = f_gossip_ips d \<and> f_neighbors_cache_filename d2 = f_neighbors_cache_filename d"
  proof (cases "a |\<in>| f_all_neighbors d")
    case True
    with assms(1) have "f_neighbors_cache_filename ?d1 \<noteq> []" by (auto simp: neighbors_inv_def)
    then obtain es where "save_neighbors ?d1 = ok (?d1\<lparr>out := out ?d1 @ es\<rparr>)"
      by (rule save_neighbors_set)
    with True show ?thesis by simp
  next
    case False
    then show ?thesis by auto
  qed
  then obtain d2 where d2: "(if a |\<in>| f_all_neighbors d then save_neighbors ?d1 else ok d) = ok d2"
    "f_all_neighbors d2 = f_all_neighbors d |-| {|a|}" "f_smaller_ips d2 = f_smaller_ips d"
    "f_gossip_ips d2 = f_gossip_ips d" "f_neighbors_cache_filename d2 = f_neighbors_cache_filename d"
    by blast
  have "map_find (f_smaller_ips (forget_remote_connection a d2)) = (map_find (f_smaller_ips d2))(a := None)"
    and "map_find (f_gossip_ips (forget_remote_connection a d2)) = (map_find (f_gossip_ips d2))(a := None)"
    using assms(3,4) by (auto simp: forget_remote_connection_def unlist_connection_def map_find_erase d2
        fun_eq_iff Let_def split: option.split)
  with d2 assms(1,2) show ?thesis
    by (auto simp: remove_neighbor_def forget_fields neighbors_inv_def)
qed

text \<open>
  A neighbor that is removed is removed for good from the list and from the connections: it is in
  no map, it is not in the file that is written, and the call does not throw.
\<close>

theorem remove_neighbor_result:
  assumes "neighbors_inv d" and "string_to_addr L s ''255.255.255.255'' 4042 = Some a"
    and "map_ok (f_smaller_ips d)" and "map_ok (f_gossip_ips d)"
  shows "\<exists>d'. remove_neighbor L s d = ok d' \<and> neighbors_inv d' \<and>
    f_all_neighbors d' = f_all_neighbors d |-| {|a|} \<and>
    map_find (f_smaller_ips d') = (map_find (f_smaller_ips d))(a := None) \<and>
    map_find (f_gossip_ips d') = (map_find (f_gossip_ips d))(a := None)"
  by (rule remove_neighbor_form [OF assms])

theorem remove_neighbor_result_witness:
  "\<exists>d'. remove_neighbor sample_lib ''20'' (sample_daemon []) = ok d' \<and>
     map_find (f_smaller_ips d') 20 = None"
proof -
  have "neighbors_inv (sample_daemon [])" "map_ok (f_smaller_ips (sample_daemon []))"
    "map_ok (f_gossip_ips (sample_daemon []))"
    by (simp_all add: sample_daemon_def neighbors_inv_def map_ok_def)
  moreover have "string_to_addr sample_lib ''20'' ''255.255.255.255'' 4042 = Some 20"
    by code_simp
  ultimately show ?thesis
    using remove_neighbor_result [of "sample_daemon []" sample_lib "''20''" 20] by fastforce
qed

end
