(* ===== verification/Handlers.thy ===== *)
theory Handlers
  imports Loadavg_Plugin Neighbors
begin

text \<open>
  The handlers of the messages sent to the daemon itself, \<open>communicatord::msg_...\<close>.  A handler returns
  when a parameter is missing or the connection is of the wrong kind, and may throw; \<open>msg_connect\<close> is in
  parts (credentials, the choice between ACCEPT and REFUSE, what follows the reply).
\<close>

section \<open>Small handlers\<close>

definition help_message :: "'a daemon \<Rightarrow> message" where
  "help_message d = daemon_message (f_server_name d) ''HELP''"

definition msg_cluster_status :: "('a, 'z) lib_scheme \<Rightarrow> message \<Rightarrow> 'a daemon \<Rightarrow> ('a daemon, unit) res" where
  "msg_cluster_status L msg d = tcp_handler msg d (\<lambda>i d. ok (cluster_status L (Some i) d))"

text \<open>The commands every connection has to understand, checked with a debug log level only.\<close>

definition required_commands :: "'a conn \<Rightarrow> string set" where
  "required_commands c =
     {''HELP'', ''QUITTING'',
      (if c_kind c = Remote_conn \<or> f_remote_connection c then ''ACCEPT'' else ''READY''),
      ''STOP'', ''UNKNOWN''}"

definition msg_commands :: "('a, 'z) lib_scheme \<Rightarrow> message \<Rightarrow> 'a daemon \<Rightarrow> ('a daemon, unit) res" where
  "msg_commands L msg d = tcp_handler msg d (\<lambda>i d.
     if \<not> has_parameter msg ''list'' then ok d
     else
       let d1 = upd_conn i (add_commands L (param msg ''list'')) d in
       if \<not> debug_severity d1 then ok d1
       else if \<forall>cmd \<in> required_commands (obj d1 i). understand_command (obj d1 i) cmd then ok d1
       else Raise Missing_message d1)"

definition msg_public_ip :: "message \<Rightarrow> 'a daemon \<Rightarrow> ('a daemon, unit) res" where
  "msg_public_ip msg d = conn_handler msg d (\<lambda>i d.
     let reply = daemon_message (f_server_name d) ''SERVER_PUBLIC_IP'' in
     if verify_command d i reply
     then
       let r1 = (if f_public_ip d \<noteq> [] then add_parameter ''public_ip'' (f_public_ip d) reply else reply);
           r2 = (if f_secure_ip d \<noteq> [] then add_parameter ''secure_ip'' (f_secure_ip d) r1 else r1)
       in ok (send_to i r2 d)
     else ok d)"

definition msg_quitting :: "message \<Rightarrow> 'a daemon \<Rightarrow> ('a daemon, unit) res" where
  "msg_quitting msg d = ok d"

text \<open>The list of the names of the connections, for the log.\<close>

fun list_services :: "'a daemon \<Rightarrow> cid list \<Rightarrow> string \<Rightarrow> string" where
  "list_services d [] list = list"
| "list_services d (i # is) list =
     list_services d is ((if list \<noteq> [] then list @ '', '' else list) @ c_name (obj d i))"

definition msg_list_services :: "message \<Rightarrow> 'a daemon \<Rightarrow> ('a daemon, unit) res" where
  "msg_list_services msg d = (let list = list_services d (connections d) [] in ok d)"

text \<open>In the second branch the parameter that is not there is read.\<close>

definition msg_log_unknown :: "message \<Rightarrow> 'a daemon \<Rightarrow> ('a daemon, unit) res" where
  "msg_log_unknown msg d =
     (if has_parameter msg ''command'' then ok d
      else bind_res (of_sum (get_parameter msg ''command'') d) (\<lambda>_. ok))"

text \<open>\<open>ed::tcp_client_permanent_message_connection::disconnect\<close>: the socket is closed.\<close>

definition disconnect :: "cid \<Rightarrow> 'a daemon \<Rightarrow> 'a daemon" where
  "disconnect i = upd_conn i (\<lambda>c. c\<lparr>c_connected := False, c_socket := - 1\<rparr>)"

definition msg_refuse :: "message \<Rightarrow> 'a daemon \<Rightarrow> ('a daemon, unit) res" where
  "msg_refuse msg d = tcp_handler msg d (\<lambda>i d.
     if c_kind (obj d i) \<noteq> Remote_conn then ok d
     else
       let peer_addr = f_address (obj d i);
           d1 = (if has_parameter msg ''shutdown'' then remote_shutting_down peer_addr d
                 else too_busy peer_addr d)
       in ok (disconnect i d1))"

definition msg_forget :: "('a::linorder, 'z) lib_scheme \<Rightarrow> message \<Rightarrow> 'a daemon \<Rightarrow> ('a daemon, unit) res" where
  "msg_forget L msg d =
     (if \<not> has_parameter msg ''ip'' then ok d
      else
        seq (remove_neighbor L (param msg ''ip'') d) (\<lambda>d.
          if has_parameter msg ''broadcast_hops'' then ok d
          else broadcast_message L
            (add_parameter ''ip'' (param msg ''ip'')
              ((daemon_message (f_server_name d) ''FORGET'')
                 \<lparr>m_server := ''*'', m_service := ''communicatord''\<rparr>)) [] d))"

definition msg_gossip :: "('a::linorder, 'z) lib_scheme \<Rightarrow> message \<Rightarrow> 'a daemon \<Rightarrow> ('a daemon, unit) res" where
  "msg_gossip L msg d = tcp_handler msg d (\<lambda>i d.
     if has_parameter msg ''my_address'' then
       let reply_to = param msg ''my_address'' in
       seq (add_neighbors L reply_to d) (\<lambda>d.
         add_remote_communicator_string L reply_to
           (send_to i (daemon_message (f_server_name d) ''RECEIVED'') d))
     else ok d)"

definition msg_service_status :: "('a, 'z) lib_scheme \<Rightarrow> message \<Rightarrow> 'a daemon \<Rightarrow> ('a daemon, unit) res" where
  "msg_service_status L msg d =
     (if \<not> has_parameter msg ''service'' then ok d
      else
        let service_name = param msg ''service'' in
        if service_name = [] then ok d
        else conn_handler msg d (\<lambda>i d.
          case find (\<lambda>j. c_name (obj d j) = service_name) (connections d) of
            None \<Rightarrow>
              let (fake, d1) = new_object ((blank_conn L Other_conn)\<lparr>c_name := service_name\<rparr>) d
              in ok (send_status fake (Some i) d1)
          | Some j \<Rightarrow> ok (send_status j (Some i) d)))"

section \<open>REGISTER and UNREGISTER\<close>

definition deliver_cached :: "cid \<Rightarrow> string \<Rightarrow> 'a daemon \<Rightarrow> 'a daemon" where
  "deliver_cached i service_name d =
     (let (c, d1) = process_messages (now d)
            (\<lambda>d m. if m_service m = service_name then (True, send_to i m d) else (False, d))
            (f_local_message_cache d) d
      in d1\<lparr>f_local_message_cache := c\<rparr>)"

definition msg_register :: "('a, 'z) lib_scheme \<Rightarrow> message \<Rightarrow> 'a daemon \<Rightarrow> ('a daemon, unit) res" where
  "msg_register L msg d = tcp_handler msg d (\<lambda>i d.
     if \<not> has_parameter msg ''service'' \<or> \<not> has_parameter msg ''version'' then ok d
     else if \<not> check_version L msg then ok d
     else
       let service_name = param msg ''service'' in
       if service_name = [] then ok d
       else if \<not> is_service_kind (c_kind (obj d i)) then ok d
       else
         let d1 = upd_conn i (\<lambda>c. c\<lparr>f_named := True\<rparr>) d;
             d2 = upd_conn i (\<lambda>c. set_connection_type Local (c\<lparr>c_name := service_name\<rparr>)) d1;
             d3 = upd_conn i (connection_started (now d2)) d2;
             d4 = send_to i (help_message d3) d3;
             d5 = send_to i (add_parameter ''my_address'' (ip_port_string L (f_connection_address d4))
                    (daemon_message (f_server_name d4) ''READY'')) d4;
             d6 = send_status i None d5
         in ok (deliver_cached i service_name d6))"

definition msg_unregister :: "('a::linorder, 'z) lib_scheme \<Rightarrow> message \<Rightarrow> 'a daemon \<Rightarrow> ('a daemon, unit) res" where
  "msg_unregister L msg d = tcp_handler msg d (\<lambda>i d.
     if \<not> has_parameter msg ''service'' then ok d
     else
       let d1 = upd_conn i (set_connection_type Down) d;
           d2 = upd_conn i (connection_ended (now d1)) d1;
           d3 = send_status i None d2;
           d4 = upd_conn i (\<lambda>c. c\<lparr>c_name := []\<rparr>) d3
       in ok (remove_connection L i d4))"

section \<open>Connections between daemons\<close>

text \<open>What CONNECT and ACCEPT do with the lists the other daemon sends.\<close>

definition take_lists :: "('a::linorder, 'z) lib_scheme \<Rightarrow> message \<Rightarrow> cid \<Rightarrow> 'a daemon \<Rightarrow> ('a daemon, unit) res" where
  "take_lists L msg i d =
     (let d1 = (if has_parameter msg ''services''
                then upd_conn i (set_services L (param msg ''services'')) d else d);
          d2 = (if has_parameter msg ''heard_of''
                then upd_conn i (set_services_heard_of L (param msg ''heard_of'')) d1 else d1)
      in seq (if has_parameter msg ''neighbors'' then add_neighbors L (param msg ''neighbors'') d2 else ok d2)
           (\<lambda>d. ok (refresh_heard_of L d)))"

definition new_remote_connection :: "'a daemon \<Rightarrow> string \<Rightarrow> message" where
  "new_remote_connection d remote_server_name =
     add_parameter ''server_name'' remote_server_name
       ((daemon_message (f_server_name d) ''NEW_REMOTE_CONNECTION'')\<lparr>m_service := ''.''\<rparr>)"

definition msg_accept :: "('a::linorder, 'z) lib_scheme \<Rightarrow> message \<Rightarrow> 'a daemon \<Rightarrow> ('a daemon, unit) res" where
  "msg_accept L msg d = tcp_handler msg d (\<lambda>i d.
     if \<not> has_parameter msg ''server_name'' \<or> \<not> has_parameter msg ''my_address'' then ok d
     else
       let remote_server_name = param msg ''server_name'';
           d1 = upd_conn i (\<lambda>c. set_server_name remote_server_name (set_connection_type Remote_type c)) d;
           d2 = upd_conn i (connection_started (now d1)) d1
       in case string_to_addr L (param msg ''my_address'') ''255.255.255.255'' 4042 of
            None \<Rightarrow> Raise (Invalid_address (param msg ''my_address'')) d2
          | Some his_address \<Rightarrow>
              seq (take_lists L msg i (upd_conn i (set_connection_address his_address) d2)) (\<lambda>d.
                broadcast_message L (new_remote_connection d remote_server_name) []
                  (new_connection i (send_to i (help_message d) d))))"

text \<open>
  The credentials: the result says whether the handler goes on.  The user name and password are compared
  with those of the connection only when it has a user name.
\<close>

definition check_credentials :: "message \<Rightarrow> 'a conn \<Rightarrow> bool" where
  "check_credentials msg c \<longleftrightarrow>
     f_username c = param msg ''username'' \<and> f_password c = param msg ''password''"

section \<open>Blocking an address\<close>

text \<open>\<open>service_connection::block_ip\<close>.  The first test of the count is on the local variable \<open>r\<close>.\<close>

definition block_ip :: "('a::linorder, 'z) lib_scheme \<Rightarrow> cid \<Rightarrow> 'a daemon \<Rightarrow> 'a daemon" where
  "block_ip L i d =
     (let a = set_port L (c_remote_address (obj d i)) 0;
          (r, d1) =
            (case map_find (g_blocked_ips d) a of
               None \<Rightarrow> (1, d\<lparr>g_blocked_ips := map_insert a \<lparr>f_count = 1, f_last_hit = now d\<rparr> (g_blocked_ips d)\<rparr>)
             | Some h \<Rightarrow>
                 if f_last_hit h + 60 * 15 < now d
                 then (1, d\<lparr>g_blocked_ips := map_insert a \<lparr>f_count = 1, f_last_hit = now d\<rparr> (g_blocked_ips d)\<rparr>)
                 else (f_count h + 1,
                   d\<lparr>g_blocked_ips := map_insert a \<lparr>f_count = f_count h + 1, f_last_hit = now d\<rparr> (g_blocked_ips d)\<rparr>))
      in if r \<ge> 3
         then broadcast_new L
           (add_parameter ''reason'' ''Three or more attempts at connecting to communicator daemon with the wrong credentials''
           (add_parameter ''profile'' ''system-login-attempts''
           (add_parameter ''period'' ''1h''
           (add_parameter ''uri'' (ip_bracket_string L a)
             (new_message\<lparr>m_command := ''BLOCK'', m_service := ''*''\<rparr>))))) [] d1
         else d1)"

section \<open>UNKNOWN without a command\<close>

lemma log_unknown_throws:
  "\<not> has_parameter msg ''command'' \<Longrightarrow> msg_log_unknown msg d = Raise (Missing_parameter ''command'') d"
  by (simp add: msg_log_unknown_def has_parameter_def get_parameter_def)

end
