(* ===== verification/Connect.thy ===== *)
theory Connect
  imports Handlers
begin

text \<open>
  The messages that make and end connections between daemons: \<open>msg_connect\<close> in parts (credentials, name
  conflicts, ACCEPT or REFUSE, what follows the reply), \<open>process_connected\<close>, \<open>msg_disconnect\<close>, and
  \<open>stop\<close> with the messages that call it.
\<close>

section \<open>CONNECT\<close>

text \<open>Another connection of a daemon or a service that goes by the name of a server.\<close>

definition name_conflict :: "'a daemon \<Rightarrow> cid \<Rightarrow> string \<Rightarrow> bool" where
  "name_conflict d i name \<longleftrightarrow>
     (\<exists>j \<in> set (connections d). j \<noteq> i \<and> is_base (c_kind (obj d j)) \<and> name = f_base_server_name (obj d j))"

definition refuse_conflict :: "'a daemon \<Rightarrow> message" where
  "refuse_conflict d =
     (let reply = add_parameter ''conflict'' ''name'' (daemon_message (f_server_name d) ''REFUSE'')
      in if f_shutdown d then add_parameter ''shutdown'' ''true'' reply else reply)"

definition with_neighbors :: "'a daemon \<Rightarrow> message \<Rightarrow> message" where
  "with_neighbors d reply =
     (if f_explicit_neighbors d \<noteq> [] then add_parameter ''neighbors'' (f_explicit_neighbors d) reply else reply)"

text \<open>
  The part of CONNECT that accepts: the connection is marked, the lists of the other daemon are taken,
  the reply is built, and the other daemon becomes a neighbor.
\<close>

definition connect_accept :: "('a::linorder, 'z) lib_scheme \<Rightarrow> message \<Rightarrow> cid \<Rightarrow> 'a daemon
    \<Rightarrow> ('a daemon, message) res" where
  "connect_accept L msg i d =
     (let d1 = upd_conn i (\<lambda>c. connection_started (now d) (set_connection_type Remote_type c)) d
      in seq (take_lists L msg i d1) (\<lambda>d.
         let r1 = add_parameter ''my_address'' (ip_port_string L (f_connection_address d))
               (add_parameter ''server_name'' (f_server_name d)
                 (with_neighbors d (daemon_message (f_server_name d) ''ACCEPT'')));
             r2 = (if f_local_services d \<noteq> [] then add_parameter ''services'' (f_local_services d) r1 else r1);
             r3 = (if f_services_heard_of d \<noteq> [] then add_parameter ''heard_of'' (f_services_heard_of d) r2 else r2)
         in bind_res (of_sum (get_parameter msg ''my_address'') d) (\<lambda>his_address_str d.
              case string_to_addr L his_address_str ''255.255.255.255'' 4042 of
                None \<Rightarrow> Raise (Invalid_address his_address_str) d
              | Some his_address \<Rightarrow>
                  seq (add_neighbors L his_address_str
                         (new_connection i (upd_conn i (set_connection_address his_address) d)))
                    (\<lambda>d. Ret r3 (gossip_received his_address d)))))"

text \<open>The decision, as the reply and the flag \<open>refuse\<close>.\<close>

definition connect_decide :: "('a::linorder, 'z) lib_scheme \<Rightarrow> message \<Rightarrow> string \<Rightarrow> cid \<Rightarrow> 'a daemon
    \<Rightarrow> ('a daemon, message \<times> bool) res" where
  "connect_decide L msg remote_server_name i d =
     (if name_conflict d i remote_server_name then Ret (refuse_conflict d, True) d
      else
        let count = length (connections d);
            d1 = upd_conn i (set_server_name remote_server_name) d;
            reply = with_neighbors d1 (daemon_message (f_server_name d1) ''REFUSE'')
        in if f_shutdown d1 then Ret (add_parameter ''shutdown'' ''true'' reply, True) d1
           else if count \<ge> f_max_connections d1 then Ret (reply, True) d1
           else bind_res (connect_accept L msg i d1) (\<lambda>reply d. Ret (reply, False) d))"

definition connect_finish :: "('a, 'z) lib_scheme \<Rightarrow> string \<Rightarrow> cid \<Rightarrow> message \<times> bool \<Rightarrow> 'a daemon
    \<Rightarrow> ('a daemon, unit) res" where
  "connect_finish L remote_server_name i = (\<lambda>(reply, refuse) d.
     let d1 = send_to i reply d in
     seq (if refuse then ok d1
          else broadcast_message L (new_remote_connection d1 remote_server_name) []
                 (send_to i (help_message d1) d1))
       (\<lambda>d. let d2 = (if refuse then d else cluster_status L None d) in ok (send_status i None d2)))"

definition msg_connect :: "('a::linorder, 'z) lib_scheme \<Rightarrow> message \<Rightarrow> 'a daemon \<Rightarrow> ('a daemon, unit) res" where
  "msg_connect L msg d = tcp_handler msg d (\<lambda>i d.
     if f_username (obj d i) \<noteq> [] \<and> (\<not> has_parameter msg ''username'' \<or> \<not> has_parameter msg ''password'')
     then ok d
     else if f_username (obj d i) \<noteq> [] \<and> \<not> check_credentials msg (obj d i)
     then ok (if c_kind (obj d i) = Service_conn then block_ip L i d else d)
     else if \<not> check_version L msg then ok d
     else bind_res (of_sum (get_parameter msg ''server_name'') d) (\<lambda>remote_server_name d.
          bind_res (connect_decide L msg remote_server_name i d) (connect_finish L remote_server_name i)))"

section \<open>Connecting to another daemon\<close>

definition process_connected :: "('a, 'z) lib_scheme \<Rightarrow> cid \<Rightarrow> 'a daemon \<Rightarrow> 'a daemon" where
  "process_connected L i d =
     (if is_base (c_kind (obj d i)) then
        let m1 = add_parameter ''server_name'' (f_server_name d)
               (add_parameter ''my_address'' (ip_port_string L (f_connection_address d))
                 (add_version L (daemon_message (f_server_name d) ''CONNECT'')));
            m2 = with_neighbors d m1;
            m3 = (if f_local_services d \<noteq> [] then add_parameter ''services'' (f_local_services d) m2 else m2);
            m4 = (if f_services_heard_of d \<noteq> [] then add_parameter ''heard_of'' (f_services_heard_of d) m3 else m3)
        in send_status i None (send_to i m4 d)
      else send_status i None d)"

section \<open>DISCONNECT\<close>

definition disconnected_message :: "'a daemon \<Rightarrow> cid \<Rightarrow> message" where
  "disconnected_message d i =
     add_parameter ''server_name'' (f_base_server_name (obj d i))
       ((daemon_message (f_server_name d) ''DISCONNECTED'')\<lparr>m_service := ''.''\<rparr>)"

definition msg_disconnect :: "('a::linorder, 'z) lib_scheme \<Rightarrow> message \<Rightarrow> 'a daemon \<Rightarrow> ('a daemon, unit) res" where
  "msg_disconnect L msg d = tcp_handler msg d (\<lambda>i d.
     let d1 = upd_conn i (connection_ended (now d)) d in
     if f_type (obj d1 i) = Remote_type then
       let d2 = upd_conn i (set_connection_type Down) d1;
           d3 = (if c_kind (obj d2 i) \<noteq> Remote_conn then remove_connection L i d2
                 else remote_shutting_down (f_address (obj d2 i)) (disconnect i d2));
           d4 = refresh_heard_of L d3;
           d5 = (if f_base_server_name (obj d4 i) \<noteq> []
                 then broadcast_new L (disconnected_message d4 i) [] d4 else d4)
       in ok (send_status i None (cluster_status L None d5))
     else ok (send_status i None d1))"

section \<open>Stopping\<close>

definition going_down :: "'a daemon \<Rightarrow> bool \<Rightarrow> message" where
  "going_down d quitting = daemon_message (f_server_name d) (if quitting then ''SHUTDOWN'' else ''DISCONNECT'')"

definition mark_done :: "cid \<Rightarrow> 'a daemon \<Rightarrow> 'a daemon" where
  "mark_done i = upd_conn i (\<lambda>c. c\<lparr>c_done := True\<rparr>)"

text \<open>One round of the loop of \<open>stop\<close> over a copy of the list of connections.\<close>

definition stop_service :: "('a::linorder, 'z) lib_scheme \<Rightarrow> bool \<Rightarrow> cid \<Rightarrow> 'a daemon \<Rightarrow> 'a daemon" where
  "stop_service L quitting i d =
     (case f_type (obj d i) of
        Down \<Rightarrow> remove_connection L i d
      | Remote_type \<Rightarrow>
          mark_done i (if verify_command d i (going_down d quitting)
                       then send_to i (going_down d quitting) d else d)
      | Local \<Rightarrow>
          if understand_command (obj d i) ''DISCONNECTING''
          then send_to i (daemon_message (f_server_name d) ''DISCONNECTING'') (mark_done i d)
          else if c_has_output (obj d i) then mark_done i d
          else remove_connection L i d)"

definition stop_connection :: "('a::linorder, 'z) lib_scheme \<Rightarrow> bool \<Rightarrow> 'a daemon \<Rightarrow> cid \<Rightarrow> 'a daemon" where
  "stop_connection L quitting d i =
     (if c_kind (obj d i) = Remote_conn then mark_done i (send_message i (going_down d quitting) d)
      else if is_service_kind (c_kind (obj d i)) then stop_service L quitting i d
      else d)"

definition remove_optional :: "('a::linorder, 'z) lib_scheme \<Rightarrow> cid option \<Rightarrow> 'a daemon \<Rightarrow> 'a daemon" where
  "remove_optional L c d = (case c of None \<Rightarrow> d | Some i \<Rightarrow> remove_connection L i d)"

text \<open>The connections of the daemon itself; the pointer to the Unix listener is kept.\<close>

definition stop_listeners :: "('a::linorder, 'z) lib_scheme \<Rightarrow> 'a daemon \<Rightarrow> 'a daemon" where
  "stop_listeners L d =
     (let d1 = remove_optional L (f_interrupt d) d;
          d2 = (remove_optional L (f_local_listener d1) d1)\<lparr>f_local_listener := None\<rparr>;
          d3 = (remove_optional L (f_remote_listener d2) d2)\<lparr>f_remote_listener := None\<rparr>;
          d4 = (remove_optional L (f_secure_listener d3) d3)\<lparr>f_secure_listener := None\<rparr>;
          d5 = remove_optional L (f_unix_listener d4) d4
      in (remove_optional L (f_ping d5) d5)\<lparr>f_ping := None\<rparr>)"

definition stop :: "('a::linorder, 'z) lib_scheme \<Rightarrow> bool \<Rightarrow> 'a daemon \<Rightarrow> 'a daemon" where
  "stop L quitting d =
     (let d1 = stop_gossiping (d\<lparr>f_shutdown := True\<rparr>);
          d2 = foldl (stop_connection L quitting) d1 (connections d1)
      in stop_listeners L d2)"

definition msg_shutdown :: "('a::linorder, 'z) lib_scheme \<Rightarrow> message \<Rightarrow> 'a daemon \<Rightarrow> ('a daemon, unit) res" where
  "msg_shutdown L msg d = ok (stop L True d)"

end
