(* ===== verification/Dispatch.thy ===== *)
theory Dispatch
  imports Connect
begin

text \<open>
  \<open>communicatord::dispatch_message\<close> and the table of the handlers (the constructor of the class).  The
  commands the table lacks are those of the library's dispatcher and of the plugins: they are the
  argument \<open>other\<close>, which gets the message when no handler of the daemon has its command.
\<close>

definition handler_of :: "('a::linorder, 'z) lib_scheme \<Rightarrow> string
    \<Rightarrow> (message \<Rightarrow> 'a daemon \<Rightarrow> ('a daemon, unit) res) option" where
  "handler_of L = map_of
     [(''ACCEPT'', msg_accept L),
      (''CLUSTER_STATUS'', msg_cluster_status L),
      (''COMMANDS'', msg_commands L),
      (''CONNECT'', msg_connect L),
      (''DISCONNECT'', msg_disconnect L),
      (''FORGET'', msg_forget L),
      (''GOSSIP'', msg_gossip L),
      (''LIST_SERVICES'', msg_list_services),
      (''PUBLIC_IP'', msg_public_ip),
      (''REFUSE'', msg_refuse),
      (''REGISTER'', msg_register L),
      (''SERVICE_STATUS'', msg_service_status L),
      (''SHUTDOWN'', msg_shutdown L),
      (''UNREGISTER'', msg_unregister L)]"

type_synonym 'a dispatcher = "message \<Rightarrow> 'a daemon \<Rightarrow> ('a daemon, bool) res"

definition communicator_dispatch :: "('a::linorder, 'z) lib_scheme \<Rightarrow> 'a dispatcher \<Rightarrow> 'a dispatcher" where
  "communicator_dispatch L other msg d =
     (case handler_of L (m_command msg) of
        Some h \<Rightarrow> seq (h msg d) (Ret True)
      | None \<Rightarrow> other msg d)"

definition dispatch_message :: "('a::linorder, 'z) lib_scheme \<Rightarrow> 'a dispatcher \<Rightarrow> 'a dispatcher" where
  "dispatch_message L other msg d =
     bind_res (of_sum (check_broadcast_message L msg d) d) (\<lambda>known d.
       if known then Ret True d
       else bind_res (shutting_down L msg d) (\<lambda>down d.
         if down then Ret True d
         else if communicator_message msg d then communicator_dispatch L other msg d
         else forward_message L msg d))"

text \<open>
  \<open>send_message\<close> of the class, through which the handlers of the library answer: the answer goes to the
  connection the message came from.
\<close>

definition daemon_send_message :: "message \<Rightarrow> 'a daemon \<Rightarrow> ('a daemon, unit) res" where
  "daemon_send_message msg d =
     (case m_user_data msg of
        None \<Rightarrow> Raise Logic_error d
      | Some i \<Rightarrow> ok (send_message_to_connection i msg False d))"

end
