(* ===== verification/Connections.thy ===== *)
theory Connections
  imports Dispatch
begin

text \<open>
  The callbacks of the connections of the daemon, which the event loop calls: what
  \<open>service_connection\<close>, \<open>unix_connection\<close>, \<open>remote_connection\<close>, \<open>gossip_connection\<close>, \<open>ping\<close>,
  \<open>listener\<close>, \<open>unix_listener\<close> and \<open>interrupt\<close> do with a message, a connection that comes up, an
  error, a hang up, a time out, a new client and a signal.  A callback starts with that of the library's
  class, which is the argument \<open>base\<close>.
\<close>

type_synonym 'a callback = "cid \<Rightarrow> 'a daemon \<Rightarrow> 'a daemon"

section \<open>Messages\<close>

definition sent_from :: "'a conn \<Rightarrow> message \<Rightarrow> message" where
  "sent_from c msg = (if f_named c
     then msg\<lparr>m_from_server := f_own_server_name c, m_from_service := c_name c\<rparr> else msg)"

definition service_process_message :: "('a::linorder, 'z) lib_scheme \<Rightarrow> 'a dispatcher \<Rightarrow> cid \<Rightarrow> 'a dispatcher" where
  "service_process_message L other i msg d =
     dispatch_message L other ((sent_from (obj d i) msg)\<lparr>m_user_data := Some i\<rparr>) d"

definition unix_process_message :: "('a::linorder, 'z) lib_scheme \<Rightarrow> 'a dispatcher \<Rightarrow> cid \<Rightarrow> 'a dispatcher" where
  "unix_process_message L other i msg d =
     dispatch_message L other ((sent_from (obj d i) msg)\<lparr>m_user_data := Some i\<rparr>) d"

definition remote_process_message :: "('a::linorder, 'z) lib_scheme \<Rightarrow> 'a dispatcher \<Rightarrow> cid \<Rightarrow> 'a dispatcher" where
  "remote_process_message L other i msg d =
     (let d1 = (if f_own_server_name (obj d i) = []
                then upd_conn i (\<lambda>c. c\<lparr>f_own_server_name := m_from_server msg\<rparr>) d else d)
      in dispatch_message L other (msg\<lparr>m_user_data := Some i\<rparr>) d1)"

definition ping_process_message :: "('a::linorder, 'z) lib_scheme \<Rightarrow> 'a dispatcher \<Rightarrow> cid \<Rightarrow> 'a dispatcher" where
  "ping_process_message L other i msg d = dispatch_message L other (msg\<lparr>m_user_data := Some i\<rparr>) d"

definition gossip_process_message :: "cid \<Rightarrow> message \<Rightarrow> 'a daemon \<Rightarrow> 'a daemon" where
  "gossip_process_message i msg d =
     (if m_command msg = ''RECEIVED'' then gossip_received (f_address (obj d i)) d else d)"

section \<open>Losing a service connection\<close>

text \<open>The callbacks of \<open>service_connection\<close>, and its private \<open>send_status\<close>.\<close>

definition conn_send_status :: "cid \<Rightarrow> 'a daemon \<Rightarrow> 'a daemon" where
  "conn_send_status i d = send_status i None (upd_conn i (set_connection_type Down) d)"

definition conn_process_timeout :: "('a::linorder, 'z) lib_scheme \<Rightarrow> cid \<Rightarrow> 'a daemon \<Rightarrow> 'a daemon" where
  "conn_process_timeout L i d = conn_send_status i (remove_connection L i d)"

definition conn_process_error :: "'a callback \<Rightarrow> cid \<Rightarrow> 'a daemon \<Rightarrow> 'a daemon" where
  "conn_process_error base i d = conn_send_status i (base i d)"

definition conn_process_invalid :: "'a callback \<Rightarrow> cid \<Rightarrow> 'a daemon \<Rightarrow> 'a daemon" where
  "conn_process_invalid base i d = conn_send_status i (base i d)"

definition hangup_message :: "string \<Rightarrow> message" where
  "hangup_message server_name =
     add_parameter ''server_name'' server_name (new_message\<lparr>m_command := ''HANGUP'', m_service := ''.''\<rparr>)"

definition conn_process_hup :: "('a::linorder, 'z) lib_scheme \<Rightarrow> 'a callback \<Rightarrow> cid \<Rightarrow> 'a daemon \<Rightarrow> 'a daemon" where
  "conn_process_hup L base i d =
     (let d1 = base i d;
          d2 = (if f_remote_connection (obj d1 i) \<and> f_base_server_name (obj d1 i) \<noteq> []
                then cluster_status L (Some i)
                       (broadcast_new L (hangup_message (f_base_server_name (obj d1 i))) [] d1)
                else d1)
      in conn_send_status i d2)"

text \<open>The destructor: the last state of the object.\<close>

definition conn_destroyed :: "int \<Rightarrow> 'a conn \<Rightarrow> 'a conn" where
  "conn_destroyed t c = remove_command ''STATUS'' (set_connection_type Down (connection_ended t c))"

section \<open>Losing a connection on the Unix socket\<close>

text \<open>The same callbacks of \<open>unix_connection\<close>, which has its own.\<close>

definition unix_send_status :: "cid \<Rightarrow> 'a daemon \<Rightarrow> 'a daemon" where
  "unix_send_status i d = send_status i None (upd_conn i (set_connection_type Down) d)"

definition unix_process_timeout :: "('a::linorder, 'z) lib_scheme \<Rightarrow> cid \<Rightarrow> 'a daemon \<Rightarrow> 'a daemon" where
  "unix_process_timeout L i d = unix_send_status i (remove_connection L i d)"

definition unix_process_error :: "'a callback \<Rightarrow> cid \<Rightarrow> 'a daemon \<Rightarrow> 'a daemon" where
  "unix_process_error base i d = unix_send_status i (base i d)"

definition unix_process_hup :: "('a::linorder, 'z) lib_scheme \<Rightarrow> 'a callback \<Rightarrow> cid \<Rightarrow> 'a daemon \<Rightarrow> 'a daemon" where
  "unix_process_hup L base i d =
     (let d1 = base i d;
          d2 = (if f_remote_connection (obj d1 i) \<and> f_base_server_name (obj d1 i) \<noteq> []
                then cluster_status L (Some i)
                       (broadcast_new L (hangup_message (f_base_server_name (obj d1 i))) [] d1)
                else d1)
      in unix_send_status i d2)"

definition unix_process_invalid :: "'a callback \<Rightarrow> cid \<Rightarrow> 'a daemon \<Rightarrow> 'a daemon" where
  "unix_process_invalid base i d = unix_send_status i (base i d)"

definition unix_destroyed :: "int \<Rightarrow> 'a conn \<Rightarrow> 'a conn" where
  "unix_destroyed t c = remove_command ''STATUS'' (set_connection_type Down (connection_ended t c))"

text \<open>The two classes do the same; what is shown for the one holds for the other.\<close>

lemma unix_callbacks:
  "unix_send_status = conn_send_status" "unix_process_timeout = conn_process_timeout"
  "unix_process_error = conn_process_error" "unix_process_hup = conn_process_hup"
  "unix_process_invalid = conn_process_invalid" "unix_destroyed = conn_destroyed"
  by (intro ext; simp add: unix_send_status_def conn_send_status_def unix_process_timeout_def conn_process_timeout_def
      unix_process_error_def conn_process_error_def unix_process_hup_def conn_process_hup_def
      unix_process_invalid_def conn_process_invalid_def unix_destroyed_def conn_destroyed_def)+

section \<open>Connections to other daemons\<close>

definition int_max :: int where
  "int_max = 2 ^ 31 - 1"

text \<open>The count of the failures in a row.\<close>

definition count_failure :: "int \<Rightarrow> 'a conn \<Rightarrow> 'a conn" where
  "count_failure t c =
     (if f_failures c \<le> 0 then c\<lparr>f_failure_start_time := t, f_failures := 1\<rparr>
      else if f_failures c < int_max then c\<lparr>f_failures := f_failures c + 1\<rparr>
      else c)"

definition remote_process_connection_failed :: "('a::linorder, 'z) lib_scheme \<Rightarrow> 'a callback \<Rightarrow> cid \<Rightarrow> 'a daemon \<Rightarrow> 'a daemon" where
  "remote_process_connection_failed L base i d =
     (let d1 = base i d;
          d2 = (if f_connected (obj d1 i) \<and> f_own_server_name (obj d1 i) \<noteq> []
                then broadcast_new L (hangup_message (f_own_server_name (obj d1 i))) []
                       (upd_conn i (\<lambda>c. c\<lparr>f_connected := False\<rparr>) d1)
                else d1);
          d3 = upd_conn i (count_failure (now d2)) d2;
          time_elapsed = now d3 - f_failure_start_time (obj d3 i)
      in if \<not> f_flagged (obj d3 i) \<and> f_failures (obj d3 i) \<ge> 20 \<and> time_elapsed > 60 * 60
         then emit (Flag_raised ''communicatord'' ''remote-connection'' ''connection-failed'' 95
                      [''security'', ''data-leak'', ''network''])
                (upd_conn i (\<lambda>c. c\<lparr>f_flagged := True\<rparr>) d3)
         else d3)"

definition remote_process_connected :: "('a::linorder, 'z) lib_scheme \<Rightarrow> 'a callback \<Rightarrow> cid \<Rightarrow> 'a daemon \<Rightarrow> 'a daemon" where
  "remote_process_connected L base i d =
     (let d1 = upd_conn i (\<lambda>c. c\<lparr>f_connected := True\<rparr>) d;
          c = obj d1 i;
          d2 = (if f_failures c \<noteq> 0 \<or> f_failure_start_time c \<noteq> 0 \<or> f_flagged c
                then emit (Flag_lowered ''communicatord'' ''remote-connection'' ''connection-failed'')
                       (upd_conn i (\<lambda>c. c\<lparr>f_failure_start_time := 0, f_failures := 0, f_flagged := False\<rparr>) d1)
                else d1);
          d3 = process_connected L i (base i d2)
      in upd_conn i (\<lambda>c. c\<lparr>c_timeout_delay := 60000000\<rparr>) d3)"

section \<open>Gossip connections\<close>

definition gossip_process_timeout :: "'a callback \<Rightarrow> cid \<Rightarrow> 'a daemon \<Rightarrow> 'a daemon" where
  "gossip_process_timeout base i d =
     (let d1 = base i d;
          next_wait = min (f_wait (obj d1 i) * 2) (g_max_gossip_timeout d1)
      in if next_wait \<noteq> f_wait (obj d1 i)
         then upd_conn i (\<lambda>c. c\<lparr>f_wait := next_wait, c_timeout_delay := next_wait\<rparr>) d1
         else d1)"

definition server_unreachable :: "('a, 'z) lib_scheme \<Rightarrow> 'a \<Rightarrow> 'a daemon \<Rightarrow> 'a daemon" where
  "server_unreachable L a d =
     broadcast_new L (add_parameter ''who'' (ip_port_string L a)
       (new_message\<lparr>m_command := ''UNREACHABLE'', m_service := ''.''\<rparr>)) [] d"

definition gossip_process_connection_failed :: "('a, 'z) lib_scheme \<Rightarrow> 'a callback \<Rightarrow> cid \<Rightarrow> 'a daemon \<Rightarrow> 'a daemon" where
  "gossip_process_connection_failed L base i d =
     (let d1 = base i d in server_unreachable L (f_address (obj d1 i)) d1)"

definition gossip_process_connected :: "('a, 'z) lib_scheme \<Rightarrow> 'a callback \<Rightarrow> cid \<Rightarrow> 'a daemon \<Rightarrow> 'a daemon" where
  "gossip_process_connected L base i d =
     (let d1 = base i d
      in send_message i (add_parameter ''my_address'' (ip_port_string L (f_connection_address d1))
           (new_message\<lparr>m_command := ''GOSSIP''\<rparr>)) d1)"

definition set_max_gossip_timeout :: "int \<Rightarrow> 'a daemon \<Rightarrow> 'a daemon" where
  "set_max_gossip_timeout max_gossip_timeout d = d\<lparr>g_max_gossip_timeout := max_gossip_timeout\<rparr>"

section \<open>New clients\<close>

text \<open>The members of a \<open>listener\<close>.\<close>

record listener_t =
  l_local :: bool
  l_server_name :: string
  l_username :: string
  l_password :: string

text \<open>
  The constructor of \<open>service_connection\<close>: the peer's address, with the port of our end when it is not
  zero.
\<close>

definition service_connection_object :: "('a, 'z) lib_scheme \<Rightarrow> string \<Rightarrow> 'a \<Rightarrow> nat \<Rightarrow> int \<Rightarrow> 'a conn" where
  "service_connection_object L server_name remote_address our_port socket =
     (blank_conn L Service_conn)\<lparr>f_own_server_name := server_name, c_remote_address := remote_address,
        f_address := (if our_port \<noteq> 0 then set_port L remote_address our_port else remote_address),
        c_socket := socket\<rparr>"

text \<open>What \<open>accept\<close> of the library returns: a client's address, the port it came to, its socket.\<close>

definition listener_process_accept :: "('a, 'z) lib_scheme \<Rightarrow> listener_t \<Rightarrow> ('a \<times> nat \<times> int) option \<Rightarrow> 'a daemon \<Rightarrow> 'a daemon" where
  "listener_process_accept L l client d =
     (case client of
        None \<Rightarrow> d
      | Some (remote_address, our_port, socket) \<Rightarrow>
          let c = set_password (l_password l) (set_username (l_username l)
                (service_connection_object L (l_server_name l) remote_address our_port socket))
          in if l_local l then
               snd (add_connection (next_id d) (snd (new_object
                 (set_server_name (l_server_name l) (c\<lparr>c_name := ''client tcp connection''\<rparr>)) d)))
             else if net_type L remote_address = Loopback then snd (new_object c d)
             else
               snd (add_connection (next_id d) (snd (new_object
                 (mark_as_remote (c\<lparr>c_name := ''remote communicator (in): '' @ ip_port_string L remote_address\<rparr>)) d))))"

definition unix_connection_object :: "('a, 'z) lib_scheme \<Rightarrow> string \<Rightarrow> int \<Rightarrow> 'a conn" where
  "unix_connection_object L server_name socket =
     (blank_conn L Unix_conn)\<lparr>f_own_server_name := server_name, c_socket := socket\<rparr>"

definition unix_listener_process_accept :: "('a, 'z) lib_scheme \<Rightarrow> string \<Rightarrow> int option \<Rightarrow> 'a daemon \<Rightarrow> 'a daemon" where
  "unix_listener_process_accept L server_name client d =
     (case client of
        None \<Rightarrow> d
      | Some socket \<Rightarrow>
          snd (add_connection (next_id d) (snd (new_object
            (set_server_name server_name ((unix_connection_object L server_name socket)\<lparr>c_name := ''client unix connection''\<rparr>)) d))))"

section \<open>The signal\<close>

definition interrupt_process_signal :: "('a::linorder, 'z) lib_scheme \<Rightarrow> cid \<Rightarrow> 'a daemon \<Rightarrow> 'a daemon" where
  "interrupt_process_signal L i d = remove_connection L i (stop L False d)"

section \<open>A hang up\<close>

text \<open>
  The status of the cluster that the daemon recorded is the one from before the connection of another
  daemon was lost.
\<close>

lemma hup_keeps_cluster_status:
  "f_cluster_status (conn_process_hup L base i d) = f_cluster_status (base i d) \<and>
   f_cluster_complete (conn_process_hup L base i d) = f_cluster_complete (base i d)"
proof -
  have s: "f_cluster_status d' = f_cluster_status d \<and> f_cluster_complete d' = f_cluster_complete d"
    if "only_sends d d'" for d d' :: "'a daemon"
    using only_sends_field [OF that, of f_cluster_status] only_sends_field [OF that, of f_cluster_complete]
    by simp
  have "\<not> has_parameter (hangup_message n) ''broadcast_msgid''" for n
    by (simp add: hangup_message_def has_parameter_def new_message_def)
  then have b: "f_cluster_status (broadcast_new L (hangup_message n) [] d) = f_cluster_status d \<and>
      f_cluster_complete (broadcast_new L (hangup_message n) [] d) = f_cluster_complete d" for n and d :: "'a daemon"
    by (rule broadcast_new_fresh [of "hangup_message n" L "[]" d]) simp
  show ?thesis
    by (simp add: conn_process_hup_def conn_send_status_def upd_conn_def b Let_def
        s [OF send_status_only_sends] s [OF cluster_status_reply_only_sends])
qed

end
