(* ===== verification/Invariants.thy ===== *)
theory Invariants
  imports Connections
begin

text \<open>
  The invariant of the daemon's state and its preservation: by the operations of
  \<open>remote_communicators\<close>, by broadcasts, by every handler, by every callback.  The lemmas are collected
  in \<open>inv_intros\<close>, so that an operation composed of others inherits its own from theirs.
\<close>

named_theorems inv_intros \<open>operations that keep the invariant\<close>

section \<open>The invariant\<close>

definition own_connections :: "'a daemon \<Rightarrow> cid option set" where
  "own_connections d =
     {f_interrupt d, f_local_listener d, f_remote_listener d, f_secure_listener d, f_unix_listener d, f_ping d}"

definition own_ok :: "'a daemon \<Rightarrow> bool" where
  "own_ok d \<longleftrightarrow> (\<forall>i. Some i \<in> own_connections d \<longrightarrow> i < next_id d \<and> c_kind (obj d i) \<in> {Other_conn, Ping_conn})"

definition tables_ok :: "'a::linorder daemon \<Rightarrow> bool" where
  "tables_ok d \<longleftrightarrow> neighbors_inv d \<and> map_ok (f_received_broadcast_messages d) \<and> map_ok (g_blocked_ips d)"

definition daemon_inv :: "'a::linorder daemon \<Rightarrow> bool" where
  "daemon_inv d \<longleftrightarrow> rc_inv d \<and> own_ok d \<and> tables_ok d"

text \<open>What the invariant looks at; an operation that leaves it alone keeps the invariant.\<close>

definition inv_view where
  "inv_view d = (rc_view d, own_connections d, f_neighbors_cache_filename d, f_all_neighbors d,
     f_received_broadcast_messages d, g_blocked_ips d)"

lemma daemon_inv_view:
  assumes "inv_view d' = inv_view d"
  shows "daemon_inv d' = daemon_inv d"
proof -
  have "rc_view d' = rc_view d" using assms by (simp add: inv_view_def)
  then show ?thesis
    using assms rc_inv_view [of d' d]
    by (simp add: daemon_inv_def own_ok_def tables_ok_def neighbors_inv_def inv_view_def rc_view_def fun_eq_iff)
qed

lemma inv_view_keep: "daemon_inv d \<Longrightarrow> inv_view d' = inv_view d \<Longrightarrow> daemon_inv d'"
  using daemon_inv_view by blast

lemma inv_view_only_sends: "only_sends d d' \<Longrightarrow> inv_view d' = inv_view d"
  by (erule only_sends_field) (simp add: inv_view_def rc_view_def own_connections_def)

lemma only_sends_inv [inv_intros]: "daemon_inv d \<Longrightarrow> only_sends d d' \<Longrightarrow> daemon_inv d'"
  using inv_view_only_sends inv_view_keep by blast

lemma inv_view_upd_conn:
  assumes "\<And>c. c_kind (f c) = c_kind c" and "\<And>c. f_address (f c) = f_address c"
  shows "inv_view (upd_conn i f d) = inv_view d"
proof -
  have "rc_view (upd_conn i f d) = rc_view d" by (rule rc_view_upd_conn [OF assms])
  then show ?thesis by (simp add: inv_view_def own_connections_def upd_conn_def)
qed

lemma upd_conn_inv [inv_intros]:
  assumes "daemon_inv d" and "\<And>c. c_kind (f c) = c_kind c" and "\<And>c. f_address (f c) = f_address c"
  shows "daemon_inv (upd_conn i f d)"
  using assms(1) by (rule inv_view_keep) (rule inv_view_upd_conn [OF assms(2,3)])

section \<open>The connections\<close>

text \<open>A new object is at an identity that nothing refers to yet.\<close>

lemma new_object_inv:
  assumes "daemon_inv d" shows "daemon_inv (snd (new_object c d))"
proof -
  have "rc_inv (snd (new_object c d))"
    using assms unfolding daemon_inv_def rc_inv_defs new_object_def
    by (auto simp: less_Suc_eq dest!: bspec)
  with assms show ?thesis
    by (auto simp: daemon_inv_def own_ok_def tables_ok_def neighbors_inv_def own_connections_def new_object_def less_Suc_eq)
qed

lemma inv_view_update [simp]:
  "inv_view (d\<lparr>out := x\<rparr>) = inv_view d"
  "inv_view (d\<lparr>g_broadcast_sequence := y\<rparr>) = inv_view d"
  "inv_view (d\<lparr>f_cluster_status := s\<rparr>) = inv_view d"
  "inv_view (d\<lparr>f_cluster_complete := s\<rparr>) = inv_view d"
  "inv_view (d\<lparr>f_total_count_sent := n\<rparr>) = inv_view d"
  "inv_view (d\<lparr>f_services_heard_of := s\<rparr>) = inv_view d"
  "inv_view (d\<lparr>f_services_heard_of_list := S\<rparr>) = inv_view d"
  "inv_view (d\<lparr>f_local_message_cache := c\<rparr>) = inv_view d"
  "inv_view (d\<lparr>f_shutdown := b\<rparr>) = inv_view d"
  "inv_view (d\<lparr>now := y\<rparr>) = inv_view d"
  "inv_view (d\<lparr>g_max_gossip_timeout := y\<rparr>) = inv_view d"
  "inv_view (d\<lparr>f_explicit_neighbors := s\<rparr>) = inv_view d"
  "inv_view (d\<lparr>p_loadavg := b\<rparr>) = inv_view d"
  by (simp_all add: inv_view_def rc_view_def own_connections_def)

lemma new_listed_inv [inv_intros]:
  assumes "daemon_inv d" and "c_kind c \<noteq> Remote_conn"
  shows "daemon_inv (snd (add_connection (next_id d) (snd (new_object c d))))"
proof -
  from assms(1) have n: "next_id d \<notin> set (connections d)"
    by (auto simp: daemon_inv_def rc_inv_def registered_ok_def)
  have "rc_inv (snd (add_connection (next_id d) (snd (new_object c d))))"
    using assms n unfolding daemon_inv_def rc_inv_defs new_object_def add_connection_def
    by (auto simp: less_Suc_eq dest!: bspec)
  with assms n show ?thesis
    by (auto simp: daemon_inv_def own_ok_def tables_ok_def neighbors_inv_def own_connections_def
        new_object_def add_connection_def less_Suc_eq)
qed

lemma unlist_inv:
  assumes "daemon_inv d" and "\<And>a. map_find (f_gossip_ips d) a \<noteq> Some i"
  shows "daemon_inv (unlist_connection i d)"
proof -
  have "rc_inv (unlist_connection i d)"
    using assms unfolding daemon_inv_def rc_inv_defs unlist_connection_def by auto
  with assms show ?thesis
    by (auto simp: daemon_inv_def own_ok_def tables_ok_def neighbors_inv_def own_connections_def
        unlist_connection_def)
qed

lemma not_gossip:
  assumes "daemon_inv d" and "c_kind (obj d i) \<noteq> Gossip_conn"
  shows "map_find (f_gossip_ips d) a \<noteq> Some i"
  using assms by (auto simp: daemon_inv_def rc_inv_defs)

lemma connection_lost_inv [inv_intros]:
  assumes "daemon_inv d" shows "daemon_inv (connection_lost L a d)"
proof (cases "map_find (f_gossip_ips d) a")
  case (Some i)
  then show ?thesis using assms by (simp add: connection_lost_def)
next
  case None
  let ?c = "gossip_connection_object L a"
  let ?d = "d\<lparr>obj := (obj d)(next_id d := ?c), next_id := Suc (next_id d),
      f_gossip_ips := map_insert a (next_id d) (f_gossip_ips d), connections := connections d @ [next_id d]\<rparr>"
  from assms have n: "next_id d \<notin> set (connections d)"
    by (auto simp: daemon_inv_def rc_inv_def registered_ok_def)
  with None have eq: "connection_lost L a d = ?d"
    by (simp add: connection_lost_def new_object_def add_connection_def Let_def)
  have c: "c_kind ?c = Gossip_conn" "f_address ?c = a"
    by (simp_all add: gossip_connection_object_def blank_conn_def)
  have ok: "map_ok (f_gossip_ips d)" using assms by (simp add: daemon_inv_def rc_inv_defs)
  have "rc_inv ?d"
    using assms n c unfolding daemon_inv_def rc_inv_defs
    by (auto simp: less_Suc_eq map_find_insert [OF ok] map_ok_insert dest!: bspec split: if_splits)
  with assms show ?thesis
    unfolding eq by (auto simp: daemon_inv_def own_ok_def tables_ok_def neighbors_inv_def own_connections_def less_Suc_eq)
qed

lemma remove_connection_inv [inv_intros]:
  assumes "daemon_inv d" and "c_kind (obj d i) \<noteq> Gossip_conn"
  shows "daemon_inv (remove_connection L i d)"
  using unlist_inv [OF assms(1) not_gossip [OF assms]] assms(1)
  by (simp add: remove_connection_def connection_removed_def connection_lost_inv)

lemma gossip_entry:
  assumes "daemon_inv d" and "map_find (f_gossip_ips d) a = Some i"
  shows "i \<in> set (connections d)" "c_kind (obj d i) = Gossip_conn" "f_address (obj d i) = a"
  using assms by (auto simp: daemon_inv_def rc_inv_defs)

lemma smaller_entry:
  assumes "daemon_inv d" and "map_find (f_smaller_ips d) a = Some i"
  shows "a \<in> f_all_ips d" "a < f_connection_address d" "i < next_id d" "c_kind (obj d i) = Remote_conn"
    "f_address (obj d i) = a"
  using assms by (auto simp: daemon_inv_def rc_inv_defs)

text \<open>Removing a gossip connection together with its entry.\<close>

lemma unlist_gossip_inv:
  assumes "daemon_inv d" and "map_find (f_gossip_ips d) a = Some i" and "map_ok m"
    and "map_find m = (map_find (f_gossip_ips d))(a := None)"
  shows "daemon_inv ((unlist_connection i d)\<lparr>f_gossip_ips := m\<rparr>)"
proof -
  have other: "b = a" if "map_find (f_gossip_ips d) b = Some i" for b
    using gossip_entry(3) [OF assms(1) that] gossip_entry(3) [OF assms(1,2)] by simp
  have "gossip_ok ((unlist_connection i d)\<lparr>f_gossip_ips := m\<rparr>)"
  proof -
    have "j \<noteq> i \<and> j \<in> set (connections d) \<and> c_kind (obj d j) = Gossip_conn \<and> f_address (obj d j) = b"
      if "map_find m b = Some j" for b j
    proof -
      from that assms(4) have b: "b \<noteq> a" "map_find (f_gossip_ips d) b = Some j" by (auto split: if_splits)
      with other [of b] gossip_entry [OF assms(1) b(2)] show ?thesis by auto
    qed
    with assms(3) show ?thesis by (simp add: gossip_ok_def unlist_connection_def)
  qed
  moreover have "registered_ok d" "smaller_ok d" "outgoing_ok d"
    using assms(1) by (simp_all add: daemon_inv_def rc_inv_def)
  ultimately have "rc_inv ((unlist_connection i d)\<lparr>f_gossip_ips := m\<rparr>)"
    by (simp add: rc_inv_def registered_ok_def smaller_ok_def outgoing_ok_def unlist_connection_def)
  with assms(1) show ?thesis
    by (auto simp: daemon_inv_def own_ok_def tables_ok_def neighbors_inv_def own_connections_def
        unlist_connection_def)
qed

lemma gossip_map_ok: "daemon_inv d \<Longrightarrow> map_ok (f_gossip_ips d)"
  by (simp add: daemon_inv_def rc_inv_defs)

lemma smaller_map_ok: "daemon_inv d \<Longrightarrow> map_ok (f_smaller_ips d)"
  by (simp add: daemon_inv_def rc_inv_defs)

lemma gossip_received_inv [inv_intros]:
  assumes "daemon_inv d" shows "daemon_inv (gossip_received a d)"
  using assms gossip_map_ok [OF assms]
  by (auto simp: gossip_received_def map_find_erase map_ok_erase split: option.split
      intro!: unlist_gossip_inv)

lemma stop_gossiping_inv [inv_intros]:
  "daemon_inv d \<Longrightarrow> daemon_inv (stop_gossiping d)"
proof (induction d rule: stop_gossiping.induct)
  case (1 d)
  show ?case
  proof (cases "f_gossip_ips d")
    case Nil
    with 1 show ?thesis by (simp add: stop_gossiping.simps)
  next
    case (Cons e rest)
    obtain a i where e: "e = (a, i)" by (cases e)
    have ok: "map_ok (f_gossip_ips d)" using "1.prems" by (rule gossip_map_ok)
    then have "map_ok rest" by (simp add: Cons e map_ok_def)
    moreover have "map_find rest = (map_find (f_gossip_ips d))(a := None)"
      using map_find_erase [OF ok, of a] by (simp add: Cons e)
    moreover have "map_find (f_gossip_ips d) a = Some i" by (simp add: Cons e map_find_def)
    ultimately have "daemon_inv ((unlist_connection i d)\<lparr>f_gossip_ips := rest\<rparr>)"
      using "1.prems" by (intro unlist_gossip_inv)
    from "1.IH" [OF Cons e [symmetric] this] show ?thesis by (simp add: stop_gossiping.simps [of d] Cons e)
  qed
qed

lemma too_busy_inv [inv_intros]: "daemon_inv d \<Longrightarrow> daemon_inv (too_busy a d)"
  by (auto simp: too_busy_def split: option.split intro: upd_conn_inv)

lemma remote_shutting_down_inv [inv_intros]: "daemon_inv d \<Longrightarrow> daemon_inv (remote_shutting_down a d)"
  by (auto simp: remote_shutting_down_def split: option.split intro: upd_conn_inv)

lemma forget_remote_connection_inv [inv_intros]:
  assumes "daemon_inv d" shows "daemon_inv (forget_remote_connection a d)"
proof -
  let ?d = "case map_find (f_smaller_ips d) a of
      Some i \<Rightarrow> (unlist_connection i d)\<lparr>f_smaller_ips := map_erase a (f_smaller_ips d)\<rparr> | None \<Rightarrow> d"
  have "rc_inv ?d"
  proof (cases "map_find (f_smaller_ips d) a")
    case (Some i)
    have sm: "map_ok (f_smaller_ips d)" using assms by (rule smaller_map_ok)
    have "map_find (f_gossip_ips d) b \<noteq> Some i" for b
      using smaller_entry(4) [OF assms Some] gossip_entry(2) [OF assms, of b i] by auto
    with Some assms show ?thesis
      unfolding daemon_inv_def rc_inv_defs unlist_connection_def
      by (auto simp: map_find_erase [OF sm] map_ok_erase)
  qed (use assms in \<open>simp add: daemon_inv_def\<close>)
  then have d: "daemon_inv ?d"
    using assms by (auto simp: daemon_inv_def own_ok_def tables_ok_def neighbors_inv_def own_connections_def
        unlist_connection_def split: option.splits)
  have "daemon_inv (d\<lparr>f_gossip_ips := map_erase a (f_gossip_ips d)\<rparr>)" if "daemon_inv d" for d :: "'a daemon"
  proof -
    have "rc_inv (d\<lparr>f_gossip_ips := map_erase a (f_gossip_ips d)\<rparr>)"
      using that gossip_map_ok [OF that] unfolding daemon_inv_def rc_inv_defs
      by (auto simp: map_find_erase map_ok_erase split: if_splits)
    with that show ?thesis
      by (auto simp: daemon_inv_def own_ok_def tables_ok_def neighbors_inv_def own_connections_def)
  qed
  from this [OF d] d show ?thesis
    by (simp add: forget_remote_connection_def Let_def split: option.split)
qed

lemma add_remote_communicator_new:
  assumes inv: "daemon_inv d" and new: "a \<notin> f_all_ips d" and lt: "a < f_connection_address d"
  shows "\<exists>t u. add_remote_communicator L a d =
    d\<lparr>f_all_ips := insert a (f_all_ips d), obj := (obj d)(next_id d := (remote_connection_object L a)\<lparr>c_timeout_date := t\<rparr>),
      next_id := Suc (next_id d), f_smaller_ips := map_insert a (next_id d) (f_smaller_ips d),
      f_last_start_date := u, connections := connections d @ [next_id d]\<rparr>"
proof -
  from inv have n: "next_id d \<notin> set (connections d)"
    by (auto simp: daemon_inv_def rc_inv_def registered_ok_def)
  show ?thesis
  proof (cases "now d > f_last_start_date d")
    case True
    with n new lt show ?thesis
      by (intro exI [of _ "now d * 1000000"] exI [of _ "now d + 1"])
        (simp add: add_remote_communicator_def new_object_def add_connection_def upd_conn_def)
  next
    case False
    with n new lt show ?thesis
      by (intro exI [of _ "f_last_start_date d * 1000000"] exI [of _ "f_last_start_date d + 1"])
        (simp add: add_remote_communicator_def new_object_def add_connection_def upd_conn_def)
  qed
qed

lemma add_remote_communicator_inv [inv_intros]:
  assumes inv: "daemon_inv d" shows "daemon_inv (add_remote_communicator L a d)"
proof -
  consider (self) "a = f_connection_address d"
    | (known) "a \<noteq> f_connection_address d" "a \<in> f_all_ips d"
    | (smaller) "a \<notin> f_all_ips d" "a < f_connection_address d"
    | (larger) "a \<notin> f_all_ips d" "f_connection_address d < a"
    by (metis linorder_less_linear)
  then show ?thesis
  proof cases
    case self
    with inv show ?thesis by (simp add: add_remote_communicator_def)
  next
    case known
    with inv show ?thesis
      by (auto simp: add_remote_communicator_def split: option.split intro!: upd_conn_inv)
  next
    case smaller
    obtain t u where eq: "add_remote_communicator L a d =
      d\<lparr>f_all_ips := insert a (f_all_ips d), obj := (obj d)(next_id d := (remote_connection_object L a)\<lparr>c_timeout_date := t\<rparr>),
        next_id := Suc (next_id d), f_smaller_ips := map_insert a (next_id d) (f_smaller_ips d),
        f_last_start_date := u, connections := connections d @ [next_id d]\<rparr>"
      (is "_ = ?d") using add_remote_communicator_new [OF inv smaller] by blast
    have c: "c_kind (remote_connection_object L a) = Remote_conn" "f_address (remote_connection_object L a) = a"
      by (simp_all add: remote_connection_object_def blank_conn_def)
    have sm: "map_ok (f_smaller_ips d)" using inv by (rule smaller_map_ok)
    have none: "map_find (f_smaller_ips d) a = None"
      using smaller_entry(1) [OF inv, of a] smaller(1) by (cases "map_find (f_smaller_ips d) a") auto
    from inv have lt: "i \<in> set (connections d) \<Longrightarrow> i < next_id d" for i
      by (auto simp: daemon_inv_def rc_inv_defs)
    then have n: "next_id d \<notin> set (connections d)" by blast
    have "registered_ok ?d"
      using inv n lt by (auto simp: daemon_inv_def rc_inv_def registered_ok_def less_Suc_eq)
    moreover have "smaller_ok ?d"
      using inv smaller c unfolding daemon_inv_def rc_inv_def smaller_ok_def
      by (auto simp: map_find_insert [OF sm] map_ok_insert less_Suc_eq)
    moreover have "outgoing_ok ?d"
      using inv n c none unfolding daemon_inv_def rc_inv_def outgoing_ok_def
      by (auto simp: map_find_insert [OF sm] dest!: bspec)
    moreover have "gossip_ok ?d"
      using gossip_entry [OF inv] gossip_map_ok [OF inv] n by (fastforce simp: gossip_ok_def)
    ultimately have "rc_inv ?d" by (simp add: rc_inv_def)
    with inv show ?thesis
      unfolding eq by (auto simp: daemon_inv_def own_ok_def tables_ok_def neighbors_inv_def own_connections_def less_Suc_eq)
  next
    case larger
    have "rc_inv (d\<lparr>f_all_ips := insert a (f_all_ips d)\<rparr>)"
      using inv larger by (auto simp: daemon_inv_def rc_inv_defs)
    with inv have "daemon_inv (d\<lparr>f_all_ips := insert a (f_all_ips d)\<rparr>)"
      by (auto simp: daemon_inv_def own_ok_def tables_ok_def neighbors_inv_def own_connections_def)
    with larger show ?thesis
      by (auto simp: add_remote_communicator_def Let_def intro: connection_lost_inv)
  qed
qed

section \<open>Broadcasts, neighbors and statuses\<close>

lemma inv_received:
  assumes "daemon_inv d" and "map_ok m"
  shows "daemon_inv (d\<lparr>f_received_broadcast_messages := m\<rparr>)"
  using assms
  by (auto simp: daemon_inv_def rc_inv_defs own_ok_def tables_ok_def neighbors_inv_def own_connections_def)

lemma inv_blocked:
  assumes "daemon_inv d" and "map_ok m"
  shows "daemon_inv (d\<lparr>g_blocked_ips := m\<rparr>)"
  using assms
  by (auto simp: daemon_inv_def rc_inv_defs own_ok_def tables_ok_def neighbors_inv_def own_connections_def)

lemma broadcast_prologue_inv:
  assumes inv: "daemon_inv d" shows "daemon_inv (res_state (broadcast_prologue L msg d))"
proof -
  have m: "map_ok (f_received_broadcast_messages d)" using inv by (simp add: daemon_inv_def tables_ok_def)
  show ?thesis
    using inv
    by (cases "get_integer L msg ''broadcast_timeout''"; cases "get_parameter msg ''broadcast_informed_neighbors''";
        cases "get_integer L msg ''broadcast_hops''")
      (simp_all add: broadcast_prologue_def Let_def inv_received map_ok_insert map_ok_erase_if m)
qed

lemma broadcast_message_inv [inv_intros]:
  assumes inv: "daemon_inv d" shows "daemon_inv (res_state (broadcast_message L msg acc d))"
  unfolding broadcast_message_def
proof (rule bind_res_inv [where P = daemon_inv, OF broadcast_prologue_inv [OF inv]])
  fix r and s :: "'a daemon"
  assume s: "daemon_inv s"
  show "daemon_inv (res_state (case r of None \<Rightarrow> ok s
      | Some info \<Rightarrow> let (st, d) = broadcast_choose L msg info acc s in ok (broadcast_send L msg info st d)))"
  proof (cases r)
    case (Some info)
    obtain st d1 where c: "broadcast_choose L msg info acc s = (st, d1)" by fastforce
    have "daemon_inv d1" using s broadcast_choose_frame [OF c] by (rule only_sends_inv)
    moreover obtain es q where "broadcast_send L msg info st d1 = d1\<lparr>out := out d1 @ es, g_broadcast_sequence := q\<rparr>"
      using broadcast_send_frame by blast
    ultimately have "daemon_inv (broadcast_send L msg info st d1)"
      by (simp add: inv_view_keep)
    with Some c show ?thesis by simp
  qed (simp add: s)
qed

lemma broadcast_new_inv [inv_intros]: "daemon_inv d \<Longrightarrow> daemon_inv (broadcast_new L msg acc d)"
  by (simp add: broadcast_new_def broadcast_message_inv)

lemma send_status_inv [inv_intros]: "daemon_inv d \<Longrightarrow> daemon_inv (send_status i r d)"
  using send_status_only_sends by (rule only_sends_inv [rotated])

lemma send_to_inv [inv_intros]: "daemon_inv d \<Longrightarrow> daemon_inv (send_message_to_connection i m b d)"
  by (erule only_sends_inv) simp

lemma send_message_inv [inv_intros]: "daemon_inv d \<Longrightarrow> daemon_inv (send_message i m d)"
  by (erule only_sends_inv) simp

lemma emit_inv [inv_intros]: "daemon_inv d \<Longrightarrow> daemon_inv (emit e d)"
  by (erule only_sends_inv) simp

lemma new_connection_inv [inv_intros]: "daemon_inv d \<Longrightarrow> daemon_inv (new_connection i d)"
  using new_connection_only_sends by (rule only_sends_inv [rotated])

lemma cluster_status_inv [inv_intros]:
  assumes "daemon_inv d" shows "daemon_inv (cluster_status L r d)"
proof (cases r)
  case None
  obtain es q where "cluster_status L None d =
    d\<lparr>f_cluster_status := cluster_up_down (count_live_connections d + 1) (total_count_of d),
      f_cluster_complete := cluster_complete_incomplete (count_live_connections d + 1) (total_count_of d),
      f_total_count_sent := total_count_of d, out := out d @ es, g_broadcast_sequence := q\<rparr>"
    by (rule cluster_status_None_form)
  then have "inv_view (cluster_status L None d) = inv_view d" by simp
  with assms None show ?thesis by (simp add: inv_view_keep)
next
  case (Some i)
  show ?thesis
    unfolding Some using assms cluster_status_reply_only_sends by (rule only_sends_inv)
qed

lemma refresh_heard_of_inv [inv_intros]: "daemon_inv d \<Longrightarrow> daemon_inv (refresh_heard_of L d)"
  by (rule inv_view_keep) (simp_all add: refresh_heard_of_empty)

lemma inv_neighbors:
  assumes "daemon_inv d" and "f_neighbors_cache_filename d \<noteq> []"
  shows "daemon_inv (d\<lparr>f_all_neighbors := n\<rparr>)"
  using assms
  by (auto simp: daemon_inv_def rc_inv_defs own_ok_def tables_ok_def neighbors_inv_def own_connections_def)

lemma read_addresses_inv:
  "daemon_inv d \<Longrightarrow> f_neighbors_cache_filename d \<noteq> [] \<Longrightarrow> daemon_inv (read_addresses L rs d)"
  by (induction L rs d rule: read_addresses.induct)
    (auto simp: add_remote_fields add_remote_communicator_inv inv_neighbors split: option.split)

lemma read_neighbors_inv [inv_intros]:
  assumes "daemon_inv d" shows "daemon_inv (read_neighbors L d)"
proof (cases "f_neighbors_cache_filename d = []")
  case True
  let ?d = "d\<lparr>f_neighbors_cache_filename := data_path d @ ''/neighbors.txt''\<rparr>"
  have "daemon_inv ?d"
    using assms
    by (auto simp: daemon_inv_def rc_inv_defs own_ok_def tables_ok_def neighbors_inv_def own_connections_def)
  with True show ?thesis
    by (auto simp: read_neighbors_def Let_def split: option.split intro!: read_addresses_inv)
qed (simp add: read_neighbors_def assms)

lemma add_addresses_inv:
  "daemon_inv d \<Longrightarrow> f_neighbors_cache_filename d \<noteq> [] \<Longrightarrow> daemon_inv (snd (add_addresses L rs (b, d)))"
proof (induction rs arbitrary: b d)
  case (Cons r rs)
  then show ?case
    by (auto simp: add_remote_fields add_remote_communicator_inv inv_neighbors split: option.split)
qed simp

lemma save_neighbors_inv [inv_intros]: "daemon_inv d \<Longrightarrow> daemon_inv (res_state (save_neighbors d))"
  by (simp add: save_neighbors_def emit_inv)

lemma add_neighbors_inv [inv_intros]:
  assumes "daemon_inv d" shows "daemon_inv (res_state (add_neighbors L s d))"
proof -
  let ?st = "add_addresses L (parse_required_port L (trim_string L s)) (False, read_neighbors L d)"
  have "daemon_inv (snd ?st)"
    by (rule add_addresses_inv [OF read_neighbors_inv [OF assms] read_neighbors_filename])
  then show ?thesis using assms
    by (cases ?st) (simp add: add_neighbors_def Let_def save_neighbors_inv)
qed

lemma remove_neighbor_inv [inv_intros]:
  assumes "daemon_inv d" shows "daemon_inv (res_state (remove_neighbor L s d))"
proof (cases "string_to_addr L s ''255.255.255.255'' 4042")
  case (Some a)
  let ?m = "if a |\<in>| f_all_neighbors d then save_neighbors (d\<lparr>f_all_neighbors := f_all_neighbors d |-| {|a|}\<rparr>)
    else ok d"
  have "daemon_inv (res_state ?m)"
  proof (cases "a |\<in>| f_all_neighbors d")
    case True
    with assms have "f_neighbors_cache_filename d \<noteq> []"
      by (auto simp: daemon_inv_def tables_ok_def neighbors_inv_def)
    with True assms show ?thesis by (simp add: save_neighbors_inv inv_neighbors)
  qed (simp add: assms)
  then have "daemon_inv (res_state (seq ?m (\<lambda>d. ok (forget_remote_connection a d))))"
    by (rule seq_inv [where P = daemon_inv]) (simp add: forget_remote_connection_inv)
  with Some show ?thesis by (simp add: remove_neighbor_def)
qed (simp add: remove_neighbor_def assms)

lemma add_remote_communicator_string_inv [inv_intros]:
  "daemon_inv d \<Longrightarrow> daemon_inv (res_state (add_remote_communicator_string L s d))"
  by (simp add: add_remote_communicator_string_def add_remote_communicator_inv split: option.split)

section \<open>Handlers\<close>

lemma tcp_handler_inv:
  assumes "daemon_inv d"
    and "\<And>i. m_user_data msg = Some i \<Longrightarrow> daemon_inv (res_state (f i d))"
  shows "daemon_inv (res_state (tcp_handler msg d f))"
  using assms by (cases "m_user_data msg") (simp_all add: tcp_handler_def is_tcp_connection_def)

lemma conn_handler_inv:
  assumes "daemon_inv d"
    and "\<And>i. m_user_data msg = Some i \<Longrightarrow> daemon_inv (res_state (f i d))"
  shows "daemon_inv (res_state (conn_handler msg d f))"
  using assms by (cases "m_user_data msg") (simp_all add: conn_handler_def)

lemma c_frames [simp]:
  "c_kind (connection_started t c) = c_kind c" "f_address (connection_started t c) = f_address c"
  "c_kind (connection_ended t c) = c_kind c" "f_address (connection_ended t c) = f_address c"
  "c_kind (set_services L s c) = c_kind c" "f_address (set_services L s c) = f_address c"
  "c_kind (set_services_heard_of L s c) = c_kind c" "f_address (set_services_heard_of L s c) = f_address c"
  "c_kind (add_commands L s c) = c_kind c" "f_address (add_commands L s c) = f_address c"
  by (simp_all add: connection_started_def connection_ended_def set_services_def set_services_heard_of_def
      add_commands_def)

lemma msg_cluster_status_inv [inv_intros]: "daemon_inv d \<Longrightarrow> daemon_inv (res_state (msg_cluster_status L msg d))"
  unfolding msg_cluster_status_def by (rule tcp_handler_inv) (auto intro: inv_intros)

lemma msg_commands_inv [inv_intros]: "daemon_inv d \<Longrightarrow> daemon_inv (res_state (msg_commands L msg d))"
  unfolding msg_commands_def by (rule tcp_handler_inv) (auto simp: Let_def intro: inv_intros)

lemma msg_public_ip_inv [inv_intros]: "daemon_inv d \<Longrightarrow> daemon_inv (res_state (msg_public_ip msg d))"
  unfolding msg_public_ip_def by (rule conn_handler_inv) (auto simp: Let_def intro: inv_intros)

lemma msg_list_services_inv [inv_intros]: "daemon_inv d \<Longrightarrow> daemon_inv (res_state (msg_list_services msg d))"
  by (simp add: msg_list_services_def)

lemma msg_log_unknown_inv [inv_intros]: "daemon_inv d \<Longrightarrow> daemon_inv (res_state (msg_log_unknown msg d))"
  by (simp add: msg_log_unknown_def) (cases "get_parameter msg ''command''"; simp)

lemma disconnect_inv [inv_intros]: "daemon_inv d \<Longrightarrow> daemon_inv (disconnect i d)"
  by (auto simp: disconnect_def intro: inv_intros)

lemma msg_refuse_inv [inv_intros]: "daemon_inv d \<Longrightarrow> daemon_inv (res_state (msg_refuse msg d))"
  unfolding msg_refuse_def by (rule tcp_handler_inv) (auto simp: Let_def intro: inv_intros)

lemma msg_forget_inv [inv_intros]: "daemon_inv d \<Longrightarrow> daemon_inv (res_state (msg_forget L msg d))"
  by (auto simp: msg_forget_def intro!: seq_inv [where P = daemon_inv] intro: inv_intros)

lemma msg_gossip_inv [inv_intros]: "daemon_inv d \<Longrightarrow> daemon_inv (res_state (msg_gossip L msg d))"
  unfolding msg_gossip_def
  by (rule tcp_handler_inv) (auto simp: Let_def intro!: seq_inv [where P = daemon_inv] intro: inv_intros)

lemma msg_service_status_inv [inv_intros]: "daemon_inv d \<Longrightarrow> daemon_inv (res_state (msg_service_status L msg d))"
  by (auto simp: msg_service_status_def Let_def case_prod_beta split: option.split
      intro!: conn_handler_inv send_status_inv new_object_inv)

lemma deliver_cached_eq:
  "deliver_cached i s d =
     d\<lparr>out := out d @ map (Sent i) (filter (\<lambda>m. m_service m = s) (map snd (f_local_message_cache d))),
       f_local_message_cache := filter (\<lambda>(t, m). m_service m \<noteq> s \<and> now d \<le> t) (f_local_message_cache d)\<rparr>"
proof -
  have "foldl (\<lambda>d m. send_to i m d) d ms = d\<lparr>out := out d @ map (Sent i) ms\<rparr>" for d :: "'a daemon" and ms
    by (induction ms arbitrary: d) (simp_all add: send_to_eq)
  then show ?thesis
    unfolding deliver_cached_def
    using process_messages_taken [where p = "\<lambda>m. m_service m = s" and eff = "\<lambda>d m. send_to i m d" and s = d
        and now = "now d" and c = "f_local_message_cache d"]
    by simp
qed

lemma deliver_cached_inv [inv_intros]: "daemon_inv d \<Longrightarrow> daemon_inv (deliver_cached i s d)"
  by (erule inv_view_keep) (simp add: deliver_cached_eq)

lemma msg_register_inv [inv_intros]: "daemon_inv d \<Longrightarrow> daemon_inv (res_state (msg_register L msg d))"
  unfolding msg_register_def
  by (rule tcp_handler_inv) (auto simp: Let_def intro!: deliver_cached_inv send_status_inv send_to_inv upd_conn_inv)

lemma upd_conn_kind: "c_kind (f (obj d j)) = c_kind (obj d j) \<Longrightarrow> c_kind (obj (upd_conn j f d) i) = c_kind (obj d i)"
  by (simp add: upd_conn_def)

lemma send_status_obj [simp]: "obj (send_status i r d) = obj d"
  using send_status_only_sends [of d i r] by (rule only_sends_field) simp

text \<open>The connections that messages come from are not gossip connections.\<close>

definition from_base :: "'a daemon \<Rightarrow> message \<Rightarrow> bool" where
  "from_base d msg \<longleftrightarrow> (\<forall>i. m_user_data msg = Some i \<longrightarrow> is_base (c_kind (obj d i)))"

lemma from_baseD: "from_base d msg \<Longrightarrow> m_user_data msg = Some i \<Longrightarrow> c_kind (obj d i) \<noteq> Gossip_conn"
  by (auto simp: from_base_def)

lemma msg_unregister_inv [inv_intros]:
  "daemon_inv d \<Longrightarrow> from_base d msg \<Longrightarrow> daemon_inv (res_state (msg_unregister L msg d))"
  unfolding msg_unregister_def
  by (rule tcp_handler_inv)
    (auto simp: Let_def upd_conn_kind intro!: remove_connection_inv upd_conn_inv send_status_inv dest: from_baseD)

lemma take_lists_inv [inv_intros]: "daemon_inv d \<Longrightarrow> daemon_inv (res_state (take_lists L msg i d))"
  by (auto simp: take_lists_def Let_def intro!: seq_inv [where P = daemon_inv] refresh_heard_of_inv
      add_neighbors_inv upd_conn_inv)

lemma msg_accept_inv [inv_intros]: "daemon_inv d \<Longrightarrow> daemon_inv (res_state (msg_accept L msg d))"
  unfolding msg_accept_def
  by (rule tcp_handler_inv)
    (auto simp: Let_def split: option.split intro!: seq_inv [where P = daemon_inv] broadcast_message_inv
      new_connection_inv send_to_inv take_lists_inv upd_conn_inv)

lemma block_ip_inv [inv_intros]:
  assumes "daemon_inv d" shows "daemon_inv (block_ip L i d)"
proof -
  have "map_ok (g_blocked_ips d)" using assms by (simp add: daemon_inv_def tables_ok_def)
  with assms show ?thesis
    by (auto simp: block_ip_def Let_def split: option.split intro!: broadcast_new_inv inv_blocked map_ok_insert)
qed

lemma connect_accept_inv [inv_intros]:
  assumes "daemon_inv d" shows "daemon_inv (res_state (connect_accept L msg i d))"
  unfolding connect_accept_def Let_def of_sum_def
  using assms
  by (auto split: option.split sum.split intro!: seq_inv [where P = daemon_inv] bind_res_inv [where P = daemon_inv]
      gossip_received_inv add_neighbors_inv new_connection_inv take_lists_inv upd_conn_inv)

lemma connect_decide_inv [inv_intros]:
  assumes "daemon_inv d" shows "daemon_inv (res_state (connect_decide L msg name i d))"
  unfolding connect_decide_def Let_def
  using assms
  by (auto intro!: bind_res_inv [where P = daemon_inv] connect_accept_inv upd_conn_inv)

lemma connect_finish_inv [inv_intros]:
  assumes "daemon_inv d" shows "daemon_inv (res_state (connect_finish L name i rr d))"
  unfolding connect_finish_def Let_def
  using assms
  by (auto simp: case_prod_beta intro!: seq_inv [where P = daemon_inv] send_status_inv cluster_status_inv
      broadcast_message_inv send_to_inv)

lemma msg_connect_inv [inv_intros]: "daemon_inv d \<Longrightarrow> daemon_inv (res_state (msg_connect L msg d))"
  unfolding msg_connect_def
  by (rule tcp_handler_inv)
    (auto intro!: block_ip_inv bind_res_inv [where P = daemon_inv] connect_decide_inv connect_finish_inv)

lemma process_connected_inv [inv_intros]: "daemon_inv d \<Longrightarrow> daemon_inv (process_connected L i d)"
  by (auto simp: process_connected_def Let_def intro!: send_status_inv send_to_inv)

lemma msg_disconnect_inv [inv_intros]:
  "daemon_inv d \<Longrightarrow> from_base d msg \<Longrightarrow> daemon_inv (res_state (msg_disconnect L msg d))"
  unfolding msg_disconnect_def
  by (rule tcp_handler_inv)
    (auto simp: Let_def upd_conn_kind intro!: send_status_inv cluster_status_inv broadcast_new_inv
      refresh_heard_of_inv remove_connection_inv remote_shutting_down_inv disconnect_inv upd_conn_inv
      dest: from_baseD)

section \<open>Stopping and dispatching\<close>

lemma remove_optional_inv:
  assumes "daemon_inv d" and "c = None \<or> c \<in> own_connections d"
  shows "daemon_inv (remove_optional L c d)"
proof (cases c)
  case (Some i)
  with assms have "c_kind (obj d i) \<in> {Other_conn, Ping_conn}" by (auto simp: daemon_inv_def own_ok_def)
  with assms(1) Some show ?thesis by (auto simp: remove_optional_def intro!: remove_connection_inv)
qed (simp add: remove_optional_def assms)

lemma clear_listeners_inv:
  assumes "daemon_inv d"
  shows "daemon_inv (d\<lparr>f_local_listener := None\<rparr>)" "daemon_inv (d\<lparr>f_remote_listener := None\<rparr>)"
    "daemon_inv (d\<lparr>f_secure_listener := None\<rparr>)" "daemon_inv (d\<lparr>f_ping := None\<rparr>)"
  using assms
  by (auto simp: daemon_inv_def rc_inv_defs own_ok_def tables_ok_def neighbors_inv_def own_connections_def)

lemma stop_listeners_inv [inv_intros]: "daemon_inv d \<Longrightarrow> daemon_inv (stop_listeners L d)"
  unfolding stop_listeners_def Let_def
  by (auto intro!: remove_optional_inv clear_listeners_inv simp: own_connections_def)

lemma stop_service_inv: "daemon_inv d \<Longrightarrow> c_kind (obj d i) \<noteq> Gossip_conn \<Longrightarrow> daemon_inv (stop_service L q i d)"
  by (auto simp: stop_service_def mark_done_def split: connection_type.split
      intro!: remove_connection_inv upd_conn_inv send_to_inv)

lemma stop_connection_inv: "daemon_inv d \<Longrightarrow> daemon_inv (stop_connection L q d i)"
  by (auto simp: stop_connection_def mark_done_def is_service_kind_def
      intro!: stop_service_inv upd_conn_inv send_message_inv)

lemma inv_shutdown: "daemon_inv d \<Longrightarrow> daemon_inv (d\<lparr>f_shutdown := b\<rparr>)"
  by (erule inv_view_keep) simp

lemma stop_inv [inv_intros]: "daemon_inv d \<Longrightarrow> daemon_inv (stop L q d)"
  unfolding stop_def Let_def
  by (intro stop_listeners_inv foldl_inv [where P = daemon_inv] stop_connection_inv stop_gossiping_inv inv_shutdown)

lemma handler_inv:
  assumes "daemon_inv d" and "from_base d msg" and "handler_of L cmd = Some h"
  shows "daemon_inv (res_state (h msg d))"
  using assms unfolding handler_of_def
  by (auto split: if_splits intro: inv_intros simp: msg_shutdown_def)

text \<open>The handlers of the library and of the plugins keep the invariant.\<close>

definition keeps_inv :: "'a::linorder dispatcher \<Rightarrow> bool" where
  "keeps_inv other \<longleftrightarrow> (\<forall>msg d. daemon_inv d \<longrightarrow> daemon_inv (res_state (other msg d)))"

lemma transmission_report_inv [inv_intros]: "daemon_inv d \<Longrightarrow> daemon_inv (transmission_report msg b d)"
  using transmission_report_only_sends by (rule only_sends_inv [rotated])

lemma forward_deliver_inv [inv_intros]: "daemon_inv d \<Longrightarrow> daemon_inv (forward_deliver msg i d)"
  using forward_deliver_only_sends by (rule only_sends_inv [rotated])

lemma forward_scan_inv: "daemon_inv d \<Longrightarrow> daemon_inv (res_state (forward_scan s msg is acc d))"
  by (induction s msg "is" acc d rule: forward_scan.induct)
    (auto simp: Let_def forward_deliver_inv split: sum.split bool.split)

lemma forward_message_inv [inv_intros]:
  assumes "daemon_inv d" shows "daemon_inv (res_state (forward_message L msg d))"
proof -
  have s: "daemon_inv (res_state (service_unavailable msg d))" if "daemon_inv d" for d :: "'a daemon"
    using that by (auto simp: service_unavailable_def Let_def split: option.split intro!: send_to_inv)
  have "daemon_inv (d\<lparr>f_local_message_cache := c\<rparr>)" if "daemon_inv d" for d :: "'a daemon" and c
    using that by (rule inv_view_keep) simp
  with s have c: "daemon_inv (res_state (forward_cache L msg d))" if "daemon_inv d" for d :: "'a daemon"
    using that by (auto simp: forward_cache_def Let_def case_prod_beta
        intro!: seq_inv [where P = daemon_inv] transmission_report_inv)
  have e: "daemon_inv (res_state (forward_elsewhere L msg acc d))" if "daemon_inv d" for d :: "'a daemon" and acc
    using that unfolding forward_elsewhere_def Let_def
    by (auto intro!: c seq_inv [where P = daemon_inv] transmission_report_inv broadcast_message_inv)
  show ?thesis
    using assms unfolding forward_message_def forward_broadcast_def Let_def
    by (auto split: option.split
        intro!: e seq_inv [where P = daemon_inv] bind_res_inv [where P = daemon_inv] broadcast_message_inv
          forward_scan_inv)
qed

lemma shutting_down_inv [inv_intros]:
  "daemon_inv d \<Longrightarrow> from_base d msg \<Longrightarrow> daemon_inv (res_state (shutting_down L msg d))"
  by (auto simp: shutting_down_def Let_def send_to_eq [symmetric] split: option.split
      intro!: remove_connection_inv send_to_inv dest: from_baseD)
    (auto simp: send_to_eq dest: from_baseD)

lemma dispatch_message_inv [inv_intros]:
  assumes "daemon_inv d" and "from_base d msg" and "keeps_inv other"
  shows "daemon_inv (res_state (dispatch_message L other msg d))"
proof (cases "check_broadcast_message L msg d")
  case (Inr known)
  show ?thesis
  proof (cases known)
    case False
    have "daemon_inv (res_state (if communicator_message msg d then communicator_dispatch L other msg d
        else forward_message L msg d))"
      using assms by (auto simp: communicator_dispatch_def keeps_inv_def split: option.split
          intro!: forward_message_inv seq_inv [where P = daemon_inv] handler_inv)
    moreover have "shutting_down L msg d = Ret False d" if "\<not> f_shutdown d"
      using that by (simp add: shutting_down_def)
    moreover have "daemon_inv (res_state (shutting_down L msg d))"
      using assms(1,2) by (rule shutting_down_inv)
    moreover have "shutting_down L msg d = Ret r s \<Longrightarrow> f_shutdown d \<Longrightarrow> r" for r s
      by (auto simp: shutting_down_def Let_def split: option.splits if_splits)
    ultimately show ?thesis
      using Inr False
      by (cases "shutting_down L msg d"; cases "f_shutdown d") (auto simp: dispatch_message_def)
  qed (use Inr assms in \<open>simp add: dispatch_message_def\<close>)
qed (simp add: dispatch_message_def assms)

end
