(* ===== verification/System.thy ===== *)
theory System
  imports Invariants
begin

text \<open>
  The daemon as a state machine: \<open>daemon_step\<close> is one callback of the event loop, in any order and with
  any input; \<open>reachable\<close> are the states after any number of them from a daemon whose sockets are open, with
  the rest of the start (the neighbors of the options, the plugins, the first status of the cluster).
  The safety of the network of daemons follows from the invariant.
\<close>

section \<open>Steps\<close>

text \<open>
  The library's own version of a callback: a service connection that is lost is removed from the event
  loop; a permanent connection goes up or down and its timer is switched on or off.
\<close>

definition lib_lost :: "('a::linorder, 'z) lib_scheme \<Rightarrow> 'a callback" where
  "lib_lost L i d = remove_connection L i d"

definition lib_link :: "bool \<Rightarrow> int \<Rightarrow> bool \<Rightarrow> 'a callback" where
  "lib_link up socket enabled i =
     upd_conn i (\<lambda>c. c\<lparr>c_connected := up, c_socket := socket, c_enabled := enabled\<rparr>)"

inductive daemon_step :: "('a::linorder, 'z) lib_scheme \<Rightarrow> 'a dispatcher \<Rightarrow> 'a daemon \<Rightarrow> 'a daemon \<Rightarrow> bool"
  for L other where
  service_message: "\<lbrakk>i \<in> set (connections d); c_kind (obj d i) = Service_conn\<rbrakk> \<Longrightarrow>
     daemon_step L other d (res_state (service_process_message L other i msg d))"
| unix_message: "\<lbrakk>i \<in> set (connections d); c_kind (obj d i) = Unix_conn\<rbrakk> \<Longrightarrow>
     daemon_step L other d (res_state (unix_process_message L other i msg d))"
| remote_message: "\<lbrakk>i \<in> set (connections d); c_kind (obj d i) = Remote_conn\<rbrakk> \<Longrightarrow>
     daemon_step L other d (res_state (remote_process_message L other i msg d))"
| ping_message: "\<lbrakk>i \<in> set (connections d); c_kind (obj d i) = Ping_conn\<rbrakk> \<Longrightarrow>
     daemon_step L other d (res_state (ping_process_message L other i msg d))"
| gossip_message: "\<lbrakk>i \<in> set (connections d); c_kind (obj d i) = Gossip_conn\<rbrakk> \<Longrightarrow>
     daemon_step L other d (gossip_process_message i msg d)"
| timeout: "\<lbrakk>i \<in> set (connections d); c_kind (obj d i) = Service_conn\<rbrakk> \<Longrightarrow>
     daemon_step L other d (conn_process_timeout L i d)"
| conn_error: "\<lbrakk>i \<in> set (connections d); c_kind (obj d i) = Service_conn\<rbrakk> \<Longrightarrow>
     daemon_step L other d (conn_process_error (lib_lost L) i d)"
| conn_invalid: "\<lbrakk>i \<in> set (connections d); c_kind (obj d i) = Service_conn\<rbrakk> \<Longrightarrow>
     daemon_step L other d (conn_process_invalid (lib_lost L) i d)"
| hup: "\<lbrakk>i \<in> set (connections d); c_kind (obj d i) = Service_conn\<rbrakk> \<Longrightarrow>
     daemon_step L other d (conn_process_hup L (lib_lost L) i d)"
| unix_timeout: "\<lbrakk>i \<in> set (connections d); c_kind (obj d i) = Unix_conn\<rbrakk> \<Longrightarrow>
     daemon_step L other d (unix_process_timeout L i d)"
| unix_error: "\<lbrakk>i \<in> set (connections d); c_kind (obj d i) = Unix_conn\<rbrakk> \<Longrightarrow>
     daemon_step L other d (unix_process_error (lib_lost L) i d)"
| unix_invalid: "\<lbrakk>i \<in> set (connections d); c_kind (obj d i) = Unix_conn\<rbrakk> \<Longrightarrow>
     daemon_step L other d (unix_process_invalid (lib_lost L) i d)"
| unix_hup: "\<lbrakk>i \<in> set (connections d); c_kind (obj d i) = Unix_conn\<rbrakk> \<Longrightarrow>
     daemon_step L other d (unix_process_hup L (lib_lost L) i d)"
| remote_failed: "\<lbrakk>i \<in> set (connections d); c_kind (obj d i) = Remote_conn\<rbrakk> \<Longrightarrow>
     daemon_step L other d (remote_process_connection_failed L (lib_link False s e) i d)"
| remote_connected: "\<lbrakk>i \<in> set (connections d); c_kind (obj d i) = Remote_conn\<rbrakk> \<Longrightarrow>
     daemon_step L other d (remote_process_connected L (lib_link True s e) i d)"
| gossip_timeout: "\<lbrakk>i \<in> set (connections d); c_kind (obj d i) = Gossip_conn\<rbrakk> \<Longrightarrow>
     daemon_step L other d (gossip_process_timeout (lib_link c s e) i d)"
| gossip_failed: "\<lbrakk>i \<in> set (connections d); c_kind (obj d i) = Gossip_conn\<rbrakk> \<Longrightarrow>
     daemon_step L other d (gossip_process_connection_failed L (lib_link False s e) i d)"
| gossip_connected: "\<lbrakk>i \<in> set (connections d); c_kind (obj d i) = Gossip_conn\<rbrakk> \<Longrightarrow>
     daemon_step L other d (gossip_process_connected L (lib_link True s e) i d)"
| accept: "daemon_step L other d (listener_process_accept L l client d)"
| unix_accept: "daemon_step L other d (unix_listener_process_accept L name fd d)"
| signal: "f_interrupt d = Some i \<Longrightarrow> daemon_step L other d (interrupt_process_signal L i d)"
| tick: "now d \<le> t \<Longrightarrow> daemon_step L other d (d\<lparr>now := t\<rparr>)"

text \<open>A daemon that just opened its sockets, before its first callback.\<close>

definition initial_daemon :: "'a::linorder daemon \<Rightarrow> bool" where
  "initial_daemon d \<longleftrightarrow>
     distinct (connections d) \<and> (\<forall>i \<in> set (connections d). i < next_id d) \<and>
     (\<forall>i \<in> set (connections d). c_kind (obj d i) \<in> {Other_conn, Ping_conn}) \<and> own_ok d \<and>
     f_all_ips d = {} \<and> f_smaller_ips d = [] \<and> f_gossip_ips d = [] \<and> f_all_neighbors d = {||} \<and>
     f_received_broadcast_messages d = [] \<and> g_blocked_ips d = []"

inductive reachable :: "('a::linorder, 'z) lib_scheme \<Rightarrow> 'a dispatcher \<Rightarrow> 'a daemon \<Rightarrow> bool"
  for L other where
  start: "initial_daemon d \<Longrightarrow> reachable L other d"
| neighbors: "reachable L other d \<Longrightarrow> reachable L other (res_state (add_neighbors L s d))"
| announce: "reachable L other d \<Longrightarrow> reachable L other (cluster_status L None d)"
| options: "reachable L other d \<Longrightarrow> reachable L other (d\<lparr>f_explicit_neighbors := s\<rparr>)"
| plugins: "reachable L other d \<Longrightarrow> reachable L other (d\<lparr>p_loadavg := b\<rparr>)"
| step: "reachable L other d \<Longrightarrow> daemon_step L other d d' \<Longrightarrow> reachable L other d'"

section \<open>The invariant holds\<close>

lemma initial_daemon_inv: "initial_daemon d \<Longrightarrow> daemon_inv d"
  by (auto simp: initial_daemon_def daemon_inv_def rc_inv_defs tables_ok_def neighbors_inv_def map_ok_def)

lemma lib_link_inv: "daemon_inv d \<Longrightarrow> daemon_inv (lib_link c s e i d)"
  unfolding lib_link_def by (intro upd_conn_inv) auto

lemma lib_link_kind [simp]: "c_kind (obj (lib_link c s e i d) j) = c_kind (obj d j)"
  by (simp add: lib_link_def upd_conn_def)

lemma conn_send_status_inv: "daemon_inv d \<Longrightarrow> daemon_inv (conn_send_status i d)"
  by (auto simp: conn_send_status_def intro!: send_status_inv upd_conn_inv)

lemma lib_lost_inv: "daemon_inv d \<Longrightarrow> c_kind (obj d i) \<noteq> Gossip_conn \<Longrightarrow> daemon_inv (lib_lost L i d)"
  by (auto simp: lib_lost_def intro!: remove_connection_inv)

text \<open>A connection of a service that is lost, on either kind of socket.\<close>

lemma lost_inv:
  assumes "daemon_inv d" and "c_kind (obj d i) \<noteq> Gossip_conn"
  shows "daemon_inv (conn_process_timeout L i d)" "daemon_inv (conn_process_error (lib_lost L) i d)"
    "daemon_inv (conn_process_invalid (lib_lost L) i d)" "daemon_inv (conn_process_hup L (lib_lost L) i d)"
  using assms by (auto simp: conn_process_timeout_def conn_process_error_def conn_process_invalid_def
      conn_process_hup_def Let_def
      intro!: conn_send_status_inv remove_connection_inv lib_lost_inv cluster_status_inv broadcast_new_inv)

lemma count_failure_frame [simp]:
  "c_kind (count_failure t c) = c_kind c" "f_address (count_failure t c) = f_address c"
  by (simp_all add: count_failure_def)

text \<open>Stopping keeps the pointer to the object of the signal.\<close>

lemma f_interrupt_frame [simp]:
  "f_interrupt (upd_conn i f d) = f_interrupt d"
  "f_interrupt (unlist_connection i d) = f_interrupt d"
  "f_interrupt (send_message i m d) = f_interrupt d"
  "f_interrupt (send_message_to_connection i m b d) = f_interrupt d"
  by (simp_all add: state_simps)

lemma f_interrupt_connection_lost [simp]: "f_interrupt (connection_lost L a d) = f_interrupt d"
  by (simp add: connection_lost_def new_object_def add_connection_def Let_def)

lemma f_interrupt_remove [simp]:
  "f_interrupt (remove_connection L i d) = f_interrupt d"
  "f_interrupt (remove_optional L c d) = f_interrupt d"
  by (simp_all add: remove_optional_def remove_connection_def connection_removed_def split: option.split)

lemma f_interrupt_stop_gossiping [simp]: "f_interrupt (stop_gossiping d) = f_interrupt d"
proof (induction d rule: stop_gossiping.induct)
  case (1 d)
  then show ?case
    by (cases "f_gossip_ips d") (auto simp: stop_gossiping.simps [of d] split: prod.split)
qed

lemma f_interrupt_stop [simp]: "f_interrupt (stop L q d) = f_interrupt d"
proof -
  have "f_interrupt (stop_connection L q d i) = f_interrupt d" for d :: "'a daemon" and i
    by (simp add: stop_connection_def stop_service_def mark_done_def split: connection_type.split)
  then have "f_interrupt (foldl (stop_connection L q) d is) = f_interrupt d" for d :: "'a daemon" and "is"
    by (rule foldl_frame)
  then show ?thesis by (simp add: stop_def stop_listeners_def Let_def)
qed

lemma daemon_step_inv:
  assumes "daemon_step L other d d'" and "daemon_inv d" and "keeps_inv other"
  shows "daemon_inv d'"
  using assms(1)
proof cases
  case (service_message i msg)
  with assms(2,3) show ?thesis
    by (auto simp: service_process_message_def from_base_def sent_from_def intro!: dispatch_message_inv)
next
  case (unix_message i msg)
  with assms(2,3) show ?thesis
    by (auto simp: unix_process_message_def from_base_def sent_from_def intro!: dispatch_message_inv)
next
  case (remote_message i msg)
  with assms(2,3) show ?thesis
    by (auto simp: remote_process_message_def from_base_def Let_def upd_conn_kind
        intro!: dispatch_message_inv upd_conn_inv)
next
  case (ping_message i msg)
  with assms(2,3) show ?thesis
    by (auto simp: ping_process_message_def from_base_def intro!: dispatch_message_inv)
next
  case (gossip_message i msg)
  with assms(2) show ?thesis by (auto simp: gossip_process_message_def intro: gossip_received_inv)
next
  case (remote_failed i s e)
  with assms(2) show ?thesis
    by (auto simp: remote_process_connection_failed_def Let_def
        intro!: emit_inv upd_conn_inv broadcast_new_inv lib_link_inv)
next
  case (remote_connected i s e)
  with assms(2) show ?thesis
    by (auto simp: remote_process_connected_def Let_def
        intro!: emit_inv upd_conn_inv process_connected_inv lib_link_inv)
next
  case (gossip_timeout i c s e)
  with assms(2) show ?thesis
    by (auto simp: gossip_process_timeout_def Let_def intro!: upd_conn_inv lib_link_inv)
next
  case (gossip_failed i s e)
  with assms(2) show ?thesis
    by (auto simp: gossip_process_connection_failed_def server_unreachable_def Let_def
        intro!: broadcast_new_inv lib_link_inv)
next
  case (gossip_connected i s e)
  with assms(2) show ?thesis
    by (auto simp: gossip_process_connected_def Let_def intro!: send_message_inv lib_link_inv)
next
  case (accept l client)
  with assms(2) show ?thesis
    by (auto simp: listener_process_accept_def Let_def service_connection_object_def blank_conn_def mark_as_remote_def
        split: option.split intro!: new_listed_inv new_object_inv)
next
  case (unix_accept name fd)
  with assms(2) show ?thesis
    by (auto simp: unix_listener_process_accept_def unix_connection_object_def blank_conn_def split: option.split intro!: new_listed_inv)
next
  case (signal i)
  have inv: "daemon_inv (stop L False d)" using assms(2) by (rule stop_inv)
  from signal have "Some i \<in> own_connections (stop L False d)" by (simp add: own_connections_def)
  with inv have "c_kind (obj (stop L False d) i) \<in> {Other_conn, Ping_conn}"
    by (simp add: daemon_inv_def own_ok_def)
  with inv signal show ?thesis
    by (auto simp: interrupt_process_signal_def intro!: remove_connection_inv)
next
  case (tick t)
  with assms(2) show ?thesis by (auto intro: inv_view_keep)
qed (use assms(2) in \<open>simp_all add: unix_callbacks lost_inv\<close>)

text \<open>
  The daemon as one machine: the operations of the start and the callbacks are its steps. They are an
  instance of the interface \<open>invariant_machine\<close> of the prelude, whose facts give the invariant of the
  reachable states. The library's handlers are those that keep the invariant.
\<close>

inductive daemon_action :: "('a::linorder, 'z) lib_scheme \<Rightarrow> 'a dispatcher \<Rightarrow> 'a daemon \<Rightarrow> 'a daemon \<Rightarrow> bool"
  for L other where
  "daemon_action L other d (res_state (add_neighbors L s d))"
| "daemon_action L other d (cluster_status L None d)"
| "daemon_action L other d (d\<lparr>f_explicit_neighbors := s\<rparr>)"
| "daemon_action L other d (d\<lparr>p_loadavg := b\<rparr>)"
| "daemon_step L other d d' \<Longrightarrow> daemon_action L other d d'"

inductive_cases daemon_actionE: "daemon_action L other d d'"

lemma daemon_action_inv:
  assumes "daemon_action L other d d'" and "daemon_inv d" and "keeps_inv other"
  shows "daemon_inv d'"
  using assms(1)
proof (rule daemon_actionE)
  fix s assume "d' = d\<lparr>f_explicit_neighbors := s\<rparr>"
  with assms(2) show ?thesis by (auto intro: inv_view_keep)
next
  fix b assume "d' = d\<lparr>p_loadavg := b\<rparr>"
  with assms(2) show ?thesis by (auto intro: inv_view_keep)
qed (use assms(2,3) in \<open>auto intro: add_neighbors_inv cluster_status_inv daemon_step_inv\<close>)

interpretation dm: invariant_machine initial_daemon "daemon_action L other" "\<lambda>d. keeps_inv other \<longrightarrow> daemon_inv d" for L other
  by unfold_locales (auto intro: initial_daemon_inv daemon_action_inv)

lemma reachable_run:
  assumes "reachable L other d"
  obtains d0 where "initial_daemon d0" and "(daemon_action L other)\<^sup>*\<^sup>* d0 d"
proof -
  from assms have "\<exists>d0. initial_daemon d0 \<and> (daemon_action L other)\<^sup>*\<^sup>* d0 d"
    by induction (blast intro: daemon_action.intros rtranclp.rtrancl_into_rtrancl)+
  with that show thesis by blast
qed

lemma reachable_inv: "reachable L other d \<Longrightarrow> keeps_inv other \<Longrightarrow> daemon_inv d"
  by (elim reachable_run) (blast dest: dm.inv_run)

text \<open>The dispatcher of the library when it has no handler for a message.\<close>

definition no_other :: "'a dispatcher" where
  "no_other msg d = Ret False d"

lemma no_other_keeps: "keeps_inv no_other"
  by (simp add: keeps_inv_def no_other_def)

text \<open>Handlers of the library that only answer some of the messages, \<open>reply\<close>, over the same connection.\<close>

definition replying :: "(message \<Rightarrow> message option) \<Rightarrow> 'a dispatcher" where
  "replying reply msg d =
     (case reply msg of
        None \<Rightarrow> Ret False d
      | Some r \<Rightarrow> seq (daemon_send_message (r\<lparr>m_user_data := m_user_data msg\<rparr>) d) (Ret True))"

lemma replying_keeps: "keeps_inv (replying reply)"
  by (auto simp: keeps_inv_def replying_def daemon_send_message_def split: option.split
      intro!: seq_inv [where P = daemon_inv] send_to_inv)

section \<open>The links between daemons\<close>

lemma outgoing_smaller:
  assumes "daemon_inv d" and "i \<in> set (connections d)" and "c_kind (obj d i) = Remote_conn"
  shows "map_find (f_smaller_ips d) (f_address (obj d i)) = Some i" "f_address (obj d i) < f_connection_address d"
proof -
  show "map_find (f_smaller_ips d) (f_address (obj d i)) = Some i"
    using assms by (auto simp: daemon_inv_def rc_inv_defs)
  from smaller_entry(2) [OF assms(1) this] show "f_address (obj d i) < f_connection_address d" .
qed

text \<open>
  C4: Whatever messages, errors and time outs a daemon sees, it never has two connections to the same
  daemon, and it opens connections only to daemons with a smaller address than its own, itself
  excluded.
\<close>

theorem outgoing_links:
  assumes "reachable L other d" and "keeps_inv other"
  shows "inj_on (\<lambda>i. f_address (obj d i)) {i. i \<in> set (connections d) \<and> c_kind (obj d i) = Remote_conn} \<and>
    (\<lambda>i. f_address (obj d i)) ` {i. i \<in> set (connections d) \<and> c_kind (obj d i) = Remote_conn}
      \<subseteq> {a. a < f_connection_address d}"
proof -
  have inv: "daemon_inv d" using assms by (rule reachable_inv)
  show ?thesis
    using outgoing_smaller [OF inv] by (auto intro!: inj_onI) (metis option.inject)
qed

text \<open>
  C20: Two daemons never both open a connection to the other, so there is one link between them.
\<close>

theorem one_link:
  assumes "reachable L other d1" and "reachable L other d2" and "keeps_inv other"
    and "i1 \<in> set (connections d1)" and "c_kind (obj d1 i1) = Remote_conn"
    and "f_address (obj d1 i1) = f_connection_address d2"
    and "i2 \<in> set (connections d2)" and "c_kind (obj d2 i2) = Remote_conn"
  shows "f_address (obj d2 i2) \<noteq> f_connection_address d1"
  using outgoing_smaller(2) [OF reachable_inv [OF assms(1,3)] assms(4,5)]
    outgoing_smaller(2) [OF reachable_inv [OF assms(2,3)] assms(7,8)] assms(6)
  by auto

lemma add_neighbors_returns: "\<exists>d'. add_neighbors L s d = ok d'"
proof (cases "trim_string L s = []")
  case False
  obtain b d2 where d2: "add_addresses L (parse_required_port L (trim_string L s)) (False, read_neighbors L d) = (b, d2)"
    by fastforce
  from add_addresses_fields [OF this] have "f_neighbors_cache_filename d2 \<noteq> []"
    by (simp add: read_neighbors_filename)
  then obtain es where "save_neighbors d2 = ok (d2\<lparr>out := out d2 @ es\<rparr>)" by (rule save_neighbors_set)
  with False d2 show ?thesis by (auto simp: add_neighbors_def)
qed (simp add: add_neighbors_def)

text \<open>
  C23: Saving the list of neighbors never throws: its file name is known whenever there is a neighbor to
  add or to remove, and CONNECT, ACCEPT, GOSSIP and FORGET cannot end in that error.
\<close>

theorem save_neighbors_safe:
  assumes "reachable L other d" and "keeps_inv other"
  shows "(\<forall>s. \<exists>d'. add_neighbors L s d = ok d') \<and>
    (\<forall>s e d'. remove_neighbor L s d = Raise e d' \<longrightarrow> e = Invalid_address s)"
proof (intro conjI allI impI)
  have inv: "daemon_inv d" using assms by (rule reachable_inv)
  fix s
  show "\<exists>d'. add_neighbors L s d = ok d'" by (rule add_neighbors_returns)
  fix e d'
  assume r: "remove_neighbor L s d = Raise e d'"
  show "e = Invalid_address s"
  proof (cases "string_to_addr L s ''255.255.255.255'' 4042")
    case (Some a)
    have "neighbors_inv d" "map_ok (f_smaller_ips d)" "map_ok (f_gossip_ips d)"
      using inv smaller_map_ok gossip_map_ok by (auto simp: daemon_inv_def tables_ok_def)
    from remove_neighbor_form [OF this(1) Some this(2,3)] r show ?thesis by auto
  qed (use r in \<open>simp add: remove_neighbor_def\<close>)
qed

text \<open>
  C30: Every pointer the daemon keeps is to a live object of the right class: the connections of the event
  loop are objects it made, each once; a connection of the map of the smaller addresses is a
  remote connection to that address, one of the gossip map a gossip connection to that address that the
  event loop still runs, and its own sockets are not connections of services or of daemons.
\<close>

theorem pointers_typed:
  assumes "reachable L other d" and "keeps_inv other"
  shows "distinct (connections d) \<and> set (connections d) \<subseteq> {i. i < next_id d} \<and>
    (\<forall>a. case map_find (f_smaller_ips d) a of None \<Rightarrow> True
      | Some i \<Rightarrow> i < next_id d \<and> c_kind (obj d i) = Remote_conn \<and> f_address (obj d i) = a) \<and>
    (\<forall>a. case map_find (f_gossip_ips d) a of None \<Rightarrow> True
      | Some i \<Rightarrow> i \<in> set (connections d) \<and> c_kind (obj d i) = Gossip_conn \<and> f_address (obj d i) = a) \<and>
    own_connections d \<subseteq> insert None (Some ` {i. i < next_id d \<and> c_kind (obj d i) \<in> {Other_conn, Ping_conn}})"
proof -
  have inv: "rc_inv d" "own_ok d" using reachable_inv [OF assms] by (simp_all add: daemon_inv_def)
  have "own_connections d \<subseteq> insert None (Some ` {i. i < next_id d \<and> c_kind (obj d i) \<in> {Other_conn, Ping_conn}})"
  proof
    fix x assume "x \<in> own_connections d"
    then show "x \<in> insert None (Some ` {i. i < next_id d \<and> c_kind (obj d i) \<in> {Other_conn, Ping_conn}})"
      using inv(2) unfolding own_ok_def by (cases x) blast+
  qed
  with inv(1) show ?thesis by (auto simp: rc_inv_defs split: option.split)
qed

definition sample_linked :: "int \<Rightarrow> string \<Rightarrow> int daemon" where
  "sample_linked own neighbor = res_state (add_neighbors sample_lib neighbor
     ((sample_daemon [])\<lparr>f_connection_address := own\<rparr>))"

lemma sample_linked_reachable: "reachable sample_lib no_other (sample_linked own neighbor)"
  unfolding sample_linked_def
  by (intro reachable.neighbors reachable.start)
    (auto simp: initial_daemon_def sample_daemon_def own_ok_def own_connections_def)

theorem outgoing_links_witness:
  "0 \<in> set (connections (sample_linked 10 ''5'')) \<and> c_kind (obj (sample_linked 10 ''5'') 0) = Remote_conn \<and>
   f_address (obj (sample_linked 10 ''5'') 0) < 10"
proof -
  have c: "0 \<in> set (connections (sample_linked 10 ''5''))" "c_kind (obj (sample_linked 10 ''5'') 0) = Remote_conn"
    "f_connection_address (sample_linked 10 ''5'') = 10" by code_simp+
  with outgoing_links [OF sample_linked_reachable [of 10 "''5''"] no_other_keeps] show ?thesis by force
qed

theorem one_link_witness:
  "f_address (obj (sample_linked 10 ''5'') 0) = 5 \<and> f_address (obj (sample_linked 5 ''3'') 0) \<noteq> 10"
proof -
  have c: "0 \<in> set (connections (sample_linked 10 ''5''))" "c_kind (obj (sample_linked 10 ''5'') 0) = Remote_conn"
    "f_address (obj (sample_linked 10 ''5'') 0) = f_connection_address (sample_linked 5 ''3'')"
    "0 \<in> set (connections (sample_linked 5 ''3''))" "c_kind (obj (sample_linked 5 ''3'') 0) = Remote_conn"
    by code_simp+
  have a: "f_connection_address (sample_linked 5 ''3'') = 5" "f_connection_address (sample_linked 10 ''5'') = 10"
    by code_simp+
  from one_link [OF sample_linked_reachable sample_linked_reachable no_other_keeps c] c(3) a
  show ?thesis by simp
qed

theorem save_neighbors_safe_witness:
  "\<exists>d'. add_neighbors sample_lib ''20'' (sample_linked 10 ''5'') = ok d'"
  using save_neighbors_safe [OF sample_linked_reachable [of 10 "''5''"] no_other_keeps] by blast

theorem pointers_typed_witness:
  "\<exists>i. map_find (f_smaller_ips (sample_linked 10 ''5'')) 5 = Some i \<and> c_kind (obj (sample_linked 10 ''5'') i) = Remote_conn"
proof -
  have "map_find (f_smaller_ips (sample_linked 10 ''5'')) 5 \<noteq> None" by code_simp
  with pointers_typed [OF sample_linked_reachable [of 10 "''5''"] no_other_keeps] show ?thesis
    by (auto split: option.splits)
qed

end
