(* ===== verification/Registration.thy ===== *)
theory Registration
  imports System
begin

text \<open>
  Services come and go: what REGISTER and UNREGISTER do to a connection, and what happens to the
  messages that were cached for a service before it registered. The facts about the cache are those
  of its interface, the locale \<open>message_store\<close>.
\<close>

section \<open>REGISTER\<close>

lemma deliver_cached_take:
  "deliver_cached i s d =
     (let (ms, c) = cache_take (now d) (\<lambda>m. m_service m = s) (f_local_message_cache d)
      in d\<lparr>out := out d @ map (Sent i) ms, f_local_message_cache := c\<rparr>)"
  by (simp add: deliver_cached_eq cache_take_eq)

text \<open>STATUS sends one message only, without a service name.\<close>

lemma send_status_all_sends:
  "\<exists>es. send_status_all reply js d = d\<lparr>out := out d @ es\<rparr> \<and> snd ` set (sent_messages es) \<subseteq> {reply}"
proof (induction reply js d rule: send_status_all.induct)
  case (1 reply d)
  show ?case by (intro exI [of _ "[]"]) simp
next
  case (2 reply i js d)
  define d1 where "d1 = (if c_kind (obj d i) = Service_conn
        then (if understand_command (obj d i) ''STATUS'' then send_message i reply d else d)
        else if c_kind (obj d i) = Unix_conn
        then (if understand_command (obj d i) ''STATUS'' then send_message i reply d else d)
        else d)"
  have "d1 = send_message i reply d \<or> d1 = d" by (simp add: d1_def)
  then obtain es where d1: "d1 = d\<lparr>out := out d @ es\<rparr>" "snd ` set (sent_messages es) \<subseteq> {reply}"
  proof
    assume "d1 = send_message i reply d"
    then show thesis by (intro that [of "[Sent i reply]"]) (simp_all add: send_message_def emit_def)
  next
    assume "d1 = d"
    then show thesis by (intro that [of "[]"]) simp_all
  qed
  from 2 [folded d1_def] obtain es' where
    "send_status_all reply js d1 = d1\<lparr>out := out d1 @ es'\<rparr>" "snd ` set (sent_messages es') \<subseteq> {reply}" by blast
  with d1 have "send_status_all reply js d1 = d\<lparr>out := out d @ es @ es'\<rparr>"
    "snd ` set (sent_messages (es @ es')) \<subseteq> {reply}" by auto
  then show ?case unfolding send_status_all.simps d1_def by blast
qed

lemma status_message_service [simp]: "m_service (status_message d i) = []"
  by (simp add: status_message_def Let_def daemon_message_def add_integer_def new_message_def)

lemma send_status_sends:
  "\<exists>es. send_status i None d = d\<lparr>out := out d @ es\<rparr> \<and> (\<forall>(j, m) \<in> set (sent_messages es). m_service m = [])"
  using send_status_all_sends [of "status_message d i" "connections d" d]
  by (fastforce simp: send_status_def Let_def)
text \<open>A REGISTER message that the daemon accepts.\<close>

definition register_accepted :: "('a, 'z) lib_scheme \<Rightarrow> message \<Rightarrow> cid \<Rightarrow> 'a daemon \<Rightarrow> bool" where
  "register_accepted L msg i d \<longleftrightarrow>
     m_user_data msg = Some i \<and> \<not> f_is_udp (obj d i) \<and> has_parameter msg ''service'' \<and>
     has_parameter msg ''version'' \<and> check_version L msg \<and> param msg ''service'' \<noteq> [] \<and>
     is_service_kind (c_kind (obj d i))"

lemma msg_register_accepted:
  assumes "register_accepted L msg i d"
  shows "\<exists>es. (\<forall>(j, m) \<in> set (sent_messages es). m_service m = []) \<and> msg_register L msg d =
    ok (deliver_cached i (param msg ''service'')
      (d\<lparr>obj := (obj d)(i := (obj d i)\<lparr>f_named := True, c_name := param msg ''service'', f_type := Local,
            f_started_on := now d, f_ended_on := - 1\<rparr>),
         out := out d @ [Sent i (help_message d),
           Sent i (add_parameter ''my_address'' (ip_port_string L (f_connection_address d))
             (daemon_message (f_server_name d) ''READY''))] @ es\<rparr>))"
proof -
  let ?d = "d\<lparr>obj := (obj d)(i := (obj d i)\<lparr>f_named := True, c_name := param msg ''service'', f_type := Local,
            f_started_on := now d, f_ended_on := - 1\<rparr>),
         out := out d @ [Sent i (help_message d),
           Sent i (add_parameter ''my_address'' (ip_port_string L (f_connection_address d))
             (daemon_message (f_server_name d) ''READY''))]\<rparr>"
  have r: "msg_register L msg d = ok (deliver_cached i (param msg ''service'') (send_status i None ?d))"
    using assms
    by (simp add: msg_register_def tcp_handler_Some register_accepted_def upd_conn_def connection_started_def
        send_to_eq help_message_def Let_def)
  obtain es where "send_status i None ?d = ?d\<lparr>out := out ?d @ es\<rparr>"
      "\<forall>(j, m) \<in> set (sent_messages es). m_service m = []"
    using send_status_sends [of i ?d] by blast
  then show ?thesis unfolding r by (intro exI [of _ es]) simp
qed

text \<open>The messages with the name of a service that a step sent, with the connections they went to.\<close>

definition sent_for :: "string \<Rightarrow> 'a daemon \<Rightarrow> 'a daemon \<Rightarrow> (cid \<times> message) list" where
  "sent_for s d d' = filter (\<lambda>(j, m). m_service m = s) (sent_messages (drop (length (out d)) (out d')))"

text \<open>What REGISTER sends under the name of the service: the cached messages, each of them once.\<close>

lemma sent_messages_Sent [simp]: "sent_messages (map (\<lambda>x. Sent i (f x)) xs) = map (\<lambda>x. (i, f x)) xs"
  by (induction xs) auto

lemma msg_register_sent_for:
  assumes "register_accepted L msg i d" and "param msg ''service'' = s"
  shows "\<exists>d'. msg_register L msg d = ok d' \<and>
    sent_for s d d' = map (Pair i) (fst (cache_take (now d) (\<lambda>m. m_service m = s) (f_local_message_cache d))) \<and>
    f_local_message_cache d' = snd (cache_take (now d) (\<lambda>m. m_service m = s) (f_local_message_cache d))"
proof -
  have s: "s \<noteq> []" using assms by (auto simp: register_accepted_def)
  from msg_register_accepted [OF assms(1)] obtain es where
    es: "\<forall>(j, m) \<in> set (sent_messages es). m_service m = []" and
    r: "msg_register L msg d =
      ok (deliver_cached i s
        (d\<lparr>obj := (obj d)(i := (obj d i)\<lparr>f_named := True, c_name := s, f_type := Local,
              f_started_on := now d, f_ended_on := - 1\<rparr>),
           out := out d @ [Sent i (help_message d),
             Sent i (add_parameter ''my_address'' (ip_port_string L (f_connection_address d))
               (daemon_message (f_server_name d) ''READY''))] @ es\<rparr>))"
    using assms(2) by auto
  have e: "filter (\<lambda>(j, m). m_service m = s) (sent_messages es) = []"
    using es s by (fastforce simp: filter_empty_conv)
  show ?thesis
    unfolding r deliver_cached_eq cache_take_eq
    by (intro exI conjI, rule refl) (simp_all add: sent_for_def help_message_def filter_map o_def e s s [symmetric])
qed

text \<open>
  C36: REGISTER makes the connection the service: it gets the name, is up as a local service from now
  on, and is told HELP and READY first; last come the messages cached for the service, in the order
  they were cached, and they leave the cache, while those for other services that have not expired stay.
  A message that expired and was still in the cache is sent to the service as well (in
  the example below, the ROTATE message, whose time ended ten seconds ago): \<open>process_messages\<close> looks
  at the time only after it has offered the message.
\<close>

theorem register_connects:
  assumes "register_accepted L msg i d"
  shows "\<exists>d' es. msg_register L msg d = ok d' \<and>
    c_name (obj d' i) = param msg ''service'' \<and> f_named (obj d' i) \<and> f_type (obj d' i) = Local \<and>
    f_started_on (obj d' i) = now d \<and> (\<forall>j. j = i \<or> obj d' j = obj d j) \<and>
    connections d' = connections d \<and>
    map fst (take 2 (sent_messages (drop (length (out d)) (out d')))) = [i, i] \<and>
    map (m_command \<circ> snd) (take 2 (sent_messages (drop (length (out d)) (out d')))) = [''HELP'', ''READY''] \<and>
    out d' = out d @ es @
      map (Sent i) (filter (\<lambda>m. m_service m = param msg ''service'') (map snd (f_local_message_cache d))) \<and>
    f_local_message_cache d' =
      filter (\<lambda>(t, m). m_service m \<noteq> param msg ''service'' \<and> now d \<le> t) (f_local_message_cache d)"
proof -
  obtain es where r: "msg_register L msg d =
    ok (deliver_cached i (param msg ''service'')
      (d\<lparr>obj := (obj d)(i := (obj d i)\<lparr>f_named := True, c_name := param msg ''service'', f_type := Local,
            f_started_on := now d, f_ended_on := - 1\<rparr>),
         out := out d @ [Sent i (help_message d),
           Sent i (add_parameter ''my_address'' (ip_port_string L (f_connection_address d))
             (daemon_message (f_server_name d) ''READY''))] @ es\<rparr>))"
    using msg_register_accepted [OF assms] by blast
  show ?thesis
    unfolding r deliver_cached_eq by (intro exI conjI, rule refl) (auto simp: help_message_def)
qed

definition sample_register :: message where
  "sample_register = (add_parameter ''service'' ''log'' (add_parameter ''version'' ''1'' new_message))
     \<lparr>m_command := ''REGISTER'', m_user_data := Some 0\<rparr>"

definition sample_waiting :: "int daemon" where
  "sample_waiting = (sample_daemon [(sample_conn Unix_conn ''client unix connection'' 0 {})
       \<lparr>f_base_server_name := ''alpha'', f_type := Down\<rparr>])
     \<lparr>f_local_services_list := {''log'', ''cron''}\<rparr>"

definition sample_cached :: "int daemon" where
  "sample_cached = sample_waiting\<lparr>f_local_message_cache :=
     [(1060, sample_request ''log'' ''WRITE''), (1060, sample_request ''cron'' ''RUN''),
      (990, sample_request ''log'' ''ROTATE'')]\<rparr>"

lemma sample_register_accepted: "register_accepted sample_lib sample_register 0 sample_cached"
  by code_simp

theorem register_connects_witness:
  "\<exists>d' es. msg_register sample_lib sample_register sample_cached = ok d' \<and> c_name (obj d' 0) = ''log'' \<and>
     out d' = es @ [Sent 0 (sample_request ''log'' ''WRITE''), Sent 0 (sample_request ''log'' ''ROTATE'')] \<and>
     f_local_message_cache d' = [(1060, sample_request ''cron'' ''RUN'')]"
proof -
  have p: "param sample_register ''service'' = ''log''" by code_simp
  have c: "filter (\<lambda>(t, m). m_service m \<noteq> ''log'' \<and> now sample_cached \<le> t) (f_local_message_cache sample_cached)
      = [(1060, sample_request ''cron'' ''RUN'')]"
    by (simp add: sample_cached_def sample_waiting_def sample_request_def sample_daemon_def)
  have l: "map (Sent 0) (filter (\<lambda>m. m_service m = ''log'') (map snd (f_local_message_cache sample_cached))) =
      [Sent 0 (sample_request ''log'' ''WRITE''), Sent 0 (sample_request ''log'' ''ROTATE'')]"
    by (simp add: sample_cached_def sample_waiting_def sample_request_def sample_daemon_def)
  from register_connects [OF sample_register_accepted] obtain d' es where
    "msg_register sample_lib sample_register sample_cached = ok d'" "c_name (obj d' 0) = ''log''"
    "out d' = out sample_cached @ es @ [Sent 0 (sample_request ''log'' ''WRITE''), Sent 0 (sample_request ''log'' ''ROTATE'')]"
    "f_local_message_cache d' = [(1060, sample_request ''cron'' ''RUN'')]"
    unfolding p c l by blast
  then show ?thesis by (intro exI [of _ d'] exI [of _ "out sample_cached @ es"]) simp
qed

section \<open>A message for a service that is not there yet\<close>

text \<open>A message that the daemon keeps for one of its services.\<close>

definition kept_for_later :: "('a, 'z) lib_scheme \<Rightarrow> message \<Rightarrow> 'a daemon \<Rightarrow> bool" where
  "kept_for_later L msg d \<longleftrightarrow>
     servers_named d \<and> \<not> is_broadcast_service (m_service msg) \<and>
     find (is_destination d msg) (connections d) = None \<and>
     forward_server_name d msg \<in> {[], ''*'', ''?'', f_server_name d} \<and>
     m_service msg \<in> f_local_services_list d \<and> cache_parameters L msg ''no'' = None"

lemma forward_message_kept:
  assumes "kept_for_later L msg d"
  shows "\<exists>es. forward_message L msg d = Ret True (d\<lparr>out := out d @ es, f_local_message_cache :=
    cache_put (now d + cache_ttl L (cache_parameters L msg)) msg (f_local_message_cache d)\<rparr>)"
proof -
  have "forward_message L msg d = forward_cache L msg d"
    using assms unfolding kept_for_later_def
    by (simp add: forward_message_def forward_scan_spec servers_named_missing)
      (auto simp: forward_elsewhere_def Let_def)
  moreover let ?d = "d\<lparr>f_local_message_cache :=
      cache_put (now d + cache_ttl L (cache_parameters L msg)) msg (f_local_message_cache d)\<rparr>"
  have "forward_cache L msg d = Ret True (transmission_report msg True ?d)"
    using assms by (simp add: forward_cache_def cache_message_def Let_def cache_put_def kept_for_later_def)
  moreover obtain es where "transmission_report msg True ?d = ?d\<lparr>out := out ?d @ es\<rparr>"
    using transmission_report_only_sends [of ?d msg True] unfolding only_sends_def by metis
  ultimately show ?thesis by (intro exI [of _ es]) simp
qed

text \<open>
  C13: A message for a service of this computer that is not running is not lost, and it is delivered
  once: when a connection registers as the service, the messages for the service that it is sent are
  the ones that were cached before and then this one, each one time and in this order, whether their
  time is over or not; and a later REGISTER of the service, by the same or by another connection, is
  sent none of them, as long as nothing else was cached.
\<close>

theorem kept_message_delivered_once:
  assumes "kept_for_later L msg d" and "forward_message L msg d = Ret r d1"
    and "f_local_message_cache d2 = f_local_message_cache d1"
    and "register_accepted L reg i d2" and "param reg ''service'' = m_service msg"
  shows "\<exists>d3. msg_register L reg d2 = ok d3 \<and>
    sent_for (m_service msg) d2 d3 = map (Pair i)
      (filter (\<lambda>m. m_service m = m_service msg) (map snd (f_local_message_cache d)) @ [msg]) \<and>
    (\<forall>d4 reg' j. f_local_message_cache d4 = f_local_message_cache d3 \<and>
       register_accepted L reg' j d4 \<and> param reg' ''service'' = m_service msg \<longrightarrow>
       (\<exists>d5. msg_register L reg' d4 = ok d5 \<and> sent_for (m_service msg) d4 d5 = []))"
proof -
  let ?p = "\<lambda>m. m_service m = m_service msg" and ?t = "now d + cache_ttl L (cache_parameters L msg)"
  have c: "f_local_message_cache d2 = cache_put ?t msg (f_local_message_cache d)"
    using forward_message_kept [OF assms(1)] assms(2,3) by auto
  obtain d3 where d3: "msg_register L reg d2 = ok d3"
      "sent_for (m_service msg) d2 d3 = map (Pair i) (fst (cache_take (now d2) ?p (f_local_message_cache d2)))"
      "f_local_message_cache d3 = snd (cache_take (now d2) ?p (f_local_message_cache d2))"
    using msg_register_sent_for [OF assms(4,5)] by blast
  have later: "\<exists>d5. msg_register L reg' d4 = ok d5 \<and> sent_for (m_service msg) d4 d5 = []"
    if "f_local_message_cache d4 = f_local_message_cache d3" "register_accepted L reg' j d4"
      "param reg' ''service'' = m_service msg" for d4 :: "'a daemon" and reg' j
    using msg_register_sent_for [OF that(2,3)] unfolding that(1) d3(3) cache_take_again by auto
  show ?thesis
    using later d3(1,2) mc.delivered [of ?p msg "now d2" ?t "f_local_message_cache d"]
    by (intro exI [of _ d3]) (auto simp: c)
qed

theorem kept_message_delivered_once_witness:
  "\<exists>d1 d3. forward_message sample_lib (sample_request ''log'' ''WRITE'') sample_cached = Ret True d1 \<and>
     msg_register sample_lib sample_register d1 = ok d3 \<and>
     sent_for ''log'' d1 d3 =
       [(0, sample_request ''log'' ''WRITE''), (0, sample_request ''log'' ''ROTATE''), (0, sample_request ''log'' ''WRITE'')]"
proof -
  let ?m = "sample_request ''log'' ''WRITE''"
  have n: "servers_named sample_cached"
    by (auto simp: servers_named_def sample_cached_def sample_waiting_def sample_daemon_def sample_conn_def)
  have k: "kept_for_later sample_lib ?m sample_cached"
    unfolding kept_for_later_def by (intro conjI n) code_simp+
  obtain es where f: "forward_message sample_lib ?m sample_cached =
      Ret True (sample_cached\<lparr>out := out sample_cached @ es, f_local_message_cache :=
        cache_put (now sample_cached + cache_ttl sample_lib (cache_parameters sample_lib ?m)) ?m
          (f_local_message_cache sample_cached)\<rparr>)" (is "_ = Ret True ?d1")
    using forward_message_kept [OF k] by blast
  have a: "register_accepted sample_lib sample_register 0 ?d1"
    using sample_register_accepted by (simp add: register_accepted_def)
  have p: "param sample_register ''service'' = m_service ?m" and s: "m_service ?m = ''log''"
    and l: "filter (\<lambda>m. m_service m = ''log'') (map snd (f_local_message_cache sample_cached)) =
      [sample_request ''log'' ''WRITE'', sample_request ''log'' ''ROTATE'']"
    by (code_simp, simp add: sample_request_def, simp add: sample_cached_def sample_request_def)
  from kept_message_delivered_once [OF k f refl a p] obtain d3 where
    "msg_register sample_lib sample_register ?d1 = ok d3"
    "sent_for ''log'' ?d1 d3 = map (Pair 0) ([sample_request ''log'' ''WRITE'', sample_request ''log'' ''ROTATE''] @ [?m])"
    unfolding s l by blast
  then show ?thesis using f by (intro exI [of _ ?d1] exI [of _ d3]) simp
qed

section \<open>UNREGISTER\<close>

lemma connection_lost_connections:
  "set (connections d) \<subseteq> set (connections (connection_lost L a d)) \<and>
   set (connections (connection_lost L a d)) \<subseteq> insert (next_id d) (set (connections d)) \<and>
   (\<forall>j. j = next_id d \<or> obj (connection_lost L a d) j = obj d j)"
  by (auto simp: connection_lost_def new_object_def add_connection_def Let_def)

lemma remove_connection_removes:
  assumes "i < next_id d"
  shows "i \<notin> set (connections (remove_connection L i d)) \<and>
    set (connections d) - {i} \<subseteq> set (connections (remove_connection L i d)) \<and>
    obj (remove_connection L i d) i = obj d i"
proof -
  let ?d = "unlist_connection i d"
  have u: "set (connections ?d) = set (connections d) - {i}" "obj ?d = obj d" "next_id ?d = next_id d"
    by (auto simp: unlist_connection_def)
  note l = connection_lost_connections [of ?d L "f_address (obj d i)", unfolded u]
  then have "obj (connection_lost L (f_address (obj d i)) ?d) i = obj d i"
    using assms by (metis less_irrefl)
  with l u assms show ?thesis
    by (auto simp: remove_connection_def connection_removed_def)
qed

text \<open>
  After UNREGISTER the service is gone: its connection is out of the event loop, down and without
  a name, the time of its end is recorded if it was up, and no other connection is removed.
\<close>

theorem unregister_removes:
  assumes "m_user_data msg = Some i" and "\<not> f_is_udp (obj d i)" and "has_parameter msg ''service''"
    and "i < next_id d"
  shows "\<exists>d'. msg_unregister L msg d = ok d' \<and> i \<notin> set (connections d') \<and>
    set (connections d) - {i} \<subseteq> set (connections d') \<and>
    f_type (obj d' i) = Down \<and> c_name (obj d' i) = [] \<and>
    f_ended_on (obj d' i) = f_ended_on (connection_ended (now d) (obj d i))"
proof -
  let ?d2 = "upd_conn i (connection_ended (now d)) (upd_conn i (\<lambda>c. c\<lparr>f_type := Down\<rparr>) d)"
  let ?d4 = "upd_conn i (\<lambda>c. c\<lparr>c_name := []\<rparr>) (send_status i None ?d2)"
  have r: "msg_unregister L msg d = ok (remove_connection L i ?d4)"
    using assms by (simp add: msg_unregister_def tcp_handler_Some upd_conn_def)
  obtain es where s: "send_status i None ?d2 = ?d2\<lparr>out := out ?d2 @ es\<rparr>"
    using send_status_only_sends [of ?d2 i None] unfolding only_sends_def by metis
  have "i < next_id ?d4" "connections ?d4 = connections d"
    using assms(4) unfolding s by (simp_all add: upd_conn_def)
  moreover have "f_type (obj ?d4 i) = Down" "c_name (obj ?d4 i) = []"
      "f_ended_on (obj ?d4 i) = f_ended_on (connection_ended (now d) (obj d i))"
    by (simp_all add: upd_conn_def connection_ended_def)
  ultimately show ?thesis
    using remove_connection_removes [of i ?d4 L] unfolding r by auto
qed

theorem unregister_removes_witness:
  "\<exists>d'. msg_unregister sample_lib (sample_register\<lparr>m_command := ''UNREGISTER''\<rparr>) sample_waiting = ok d' \<and>
     0 \<notin> set (connections d')"
proof -
  have "m_user_data (sample_register\<lparr>m_command := ''UNREGISTER''\<rparr>) = Some 0"
    "\<not> f_is_udp (obj sample_waiting 0)" "has_parameter (sample_register\<lparr>m_command := ''UNREGISTER''\<rparr>) ''service''"
    "0 < next_id sample_waiting" by code_simp+
  from unregister_removes [OF this] show ?thesis by blast
qed

end
