(* ===== verification/Admission.thy ===== *)
theory Admission
  imports System
begin

text \<open>
  Who may connect: the decision between ACCEPT and REFUSE, the credentials, and the addresses that are
  blocked after wrong credentials.
\<close>

section \<open>ACCEPT or REFUSE\<close>

lemma res_cases_Ret: "(\<And>r s. m = Ret r s \<Longrightarrow> P) \<Longrightarrow> (\<And>e s. m = Raise e s \<Longrightarrow> P) \<Longrightarrow> P"
  by (cases m) auto

lemma with_neighbors_command [simp]: "m_command (with_neighbors d m) = m_command m"
  by (simp add: with_neighbors_def)

lemma connect_accept_command:
  assumes "connect_accept L msg i d = Ret reply d'"
  shows "m_command reply = ''ACCEPT''"
proof -
  obtain t where t: "take_lists L msg i (upd_conn i (\<lambda>c. connection_started (now d) (c\<lparr>f_type := Remote_type\<rparr>)) d) = Ret () t"
    using assms unfolding connect_accept_def Let_def
    by (cases "take_lists L msg i (upd_conn i (\<lambda>c. connection_started (now d) (c\<lparr>f_type := Remote_type\<rparr>)) d)") auto
  obtain s where s: "get_parameter msg ''my_address'' = Inr s"
    using assms t unfolding connect_accept_def Let_def by (cases "get_parameter msg ''my_address''") auto
  obtain a where a: "string_to_addr L s ''255.255.255.255'' 4042 = Some a"
    using assms t s unfolding connect_accept_def Let_def by (cases "string_to_addr L s ''255.255.255.255'' 4042") auto
  from assms t s a show ?thesis
    unfolding connect_accept_def Let_def
    by (cases "add_neighbors L s (new_connection i (upd_conn i (\<lambda>c. c\<lparr>f_base_address := a\<rparr>) t))")
      (auto split: if_splits)
qed

text \<open>
  C35: A daemon that asks for a connection is refused in exactly three cases: its name is taken by
  another connection, this daemon is shutting down, or it has as many connections as it may have. The
  answer says REFUSE in these cases, with the reason when it is the name or the shutdown, and ACCEPT
  otherwise; a refused connection is not marked as one of another daemon.
\<close>

theorem connect_decision:
  assumes "connect_decide L msg name i d = Ret (reply, refuse) d'"
  shows "(refuse \<longleftrightarrow> name_conflict d i name \<or> f_shutdown d \<or> f_max_connections d \<le> length (connections d)) \<and>
    m_command reply = (if refuse then ''REFUSE'' else ''ACCEPT'') \<and>
    (refuse \<and> name_conflict d i name \<longleftrightarrow> refuse \<and> has_parameter reply ''conflict'') \<and>
    (refuse \<and> f_shutdown d \<longleftrightarrow> refuse \<and> has_parameter reply ''shutdown'') \<and>
    (if refuse then f_type (obj d' i) = f_type (obj d i) else True)"
proof -
  let ?d1 = "upd_conn i (\<lambda>c. c\<lparr>f_base_server_name := name\<rparr>) d"
  have f: "f_shutdown ?d1 = f_shutdown d" "f_max_connections ?d1 = f_max_connections d"
    "f_type (obj ?d1 i) = f_type (obj d i)" by (simp_all add: upd_conn_def)
  consider (name) "name_conflict d i name" | (down) "\<not> name_conflict d i name" "f_shutdown d"
    | (full) "\<not> name_conflict d i name" "\<not> f_shutdown d" "f_max_connections d \<le> length (connections d)"
    | (free) "\<not> name_conflict d i name" "\<not> f_shutdown d" "\<not> f_max_connections d \<le> length (connections d)"
    by blast
  then show ?thesis
  proof cases
    case name
    with assms show ?thesis by (auto simp: connect_decide_def refuse_conflict_def Let_def split: if_splits)
  next
    case down
    with assms f show ?thesis by (auto simp: connect_decide_def with_neighbors_def Let_def split: if_splits)
  next
    case full
    with assms f show ?thesis by (auto simp: connect_decide_def with_neighbors_def Let_def split: if_splits)
  next
    case free
    then have "bind_res (connect_accept L msg i ?d1) (\<lambda>reply d. Ret (reply, False) d) = Ret (reply, refuse) d'"
      using assms f by (simp add: connect_decide_def Let_def)
    then have "connect_accept L msg i ?d1 = Ret reply d'" "\<not> refuse" by (auto elim: bind_res_RetE)
    with free connect_accept_command show ?thesis by (simp, blast)
  qed
qed

definition sample_connect :: message where
  "sample_connect = (add_parameter ''server_name'' ''beta'' (add_parameter ''my_address'' ''20'' new_message))
     \<lparr>m_command := ''CONNECT'', m_user_data := Some 0\<rparr>"

definition sample_listening :: "int daemon" where
  "sample_listening = sample_daemon [(sample_conn Service_conn ''remote'' 20 {})\<lparr>f_type := Down,
     f_remote_connection := True, f_username := ''admin'', f_password := ''secret'', c_remote_address := 20\<rparr>]"

theorem connect_decision_witness:
  "\<exists>reply d'. connect_decide sample_lib sample_connect ''beta'' 0 sample_listening = Ret (reply, False) d' \<and>
     m_command reply = ''ACCEPT''"
proof (cases "connect_decide sample_lib sample_connect ''beta'' 0 sample_listening")
  case (Ret r d')
  obtain reply refuse where r: "r = (reply, refuse)" by fastforce
  have "\<not> name_conflict sample_listening 0 ''beta''" "\<not> f_shutdown sample_listening"
    "\<not> f_max_connections sample_listening \<le> length (connections sample_listening)" by code_simp+
  with connect_decision [OF Ret [unfolded r]] Ret r show ?thesis by auto
next
  case (Raise e s)
  have "case connect_decide sample_lib sample_connect ''beta'' 0 sample_listening of Ret _ _ \<Rightarrow> True | _ \<Rightarrow> False"
    by code_simp
  with Raise show ?thesis by simp
qed

section \<open>Credentials\<close>

definition block_message :: "('a, 'z) lib_scheme \<Rightarrow> 'a \<Rightarrow> message" where
  "block_message L a =
     add_parameter ''reason'' ''Three or more attempts at connecting to communicator daemon with the wrong credentials''
     (add_parameter ''profile'' ''system-login-attempts''
     (add_parameter ''period'' ''1h''
     (add_parameter ''uri'' (ip_bracket_string L a)
       (new_message\<lparr>m_command := ''BLOCK'', m_service := ''*''\<rparr>))))"

lemma block_message_fresh: "\<not> has_parameter (block_message L a) ''broadcast_msgid''"
  by (simp add: block_message_def has_parameter_def new_message_def)

text \<open>The attempts in a row of an address, this one included; after 15 minutes they start again.\<close>

definition attempts :: "'a::linorder daemon \<Rightarrow> 'a \<Rightarrow> int" where
  "attempts d a = (case map_find (g_blocked_ips d) a of
      None \<Rightarrow> 1 | Some h \<Rightarrow> if f_last_hit h + 60 * 15 < now d then 1 else f_count h + 1)"

lemma block_ip_eq:
  "block_ip L i d =
     (let a = set_port L (c_remote_address (obj d i)) 0;
          d1 = d\<lparr>g_blocked_ips := map_insert a \<lparr>f_count = attempts d a, f_last_hit = now d\<rparr> (g_blocked_ips d)\<rparr>
      in if 3 \<le> attempts d a then broadcast_new L (block_message L a) [] d1 else d1)"
  by (simp add: block_ip_def attempts_def block_message_def Let_def split: option.split)

lemma block_ip_form:
  obtains es q where "block_ip L i d = d\<lparr>g_blocked_ips := map_insert (set_port L (c_remote_address (obj d i)) 0)
      \<lparr>f_count = attempts d (set_port L (c_remote_address (obj d i)) 0), f_last_hit = now d\<rparr> (g_blocked_ips d),
      out := out d @ es, g_broadcast_sequence := q\<rparr>"
    "attempts d (set_port L (c_remote_address (obj d i)) 0) < 3 \<Longrightarrow> es = []"
proof -
  let ?a = "set_port L (c_remote_address (obj d i)) 0"
  let ?d = "d\<lparr>g_blocked_ips := map_insert ?a \<lparr>f_count = attempts d ?a, f_last_hit = now d\<rparr> (g_blocked_ips d)\<rparr>"
  have eq: "block_ip L i d = (if 3 \<le> attempts d ?a then broadcast_new L (block_message L ?a) [] ?d else ?d)"
    by (simp only: block_ip_eq Let_def)
  show ?thesis
  proof (cases "3 \<le> attempts d ?a")
    case True
    obtain es q where b: "broadcast_new L (block_message L ?a) [] ?d = ?d\<lparr>out := out ?d @ es, g_broadcast_sequence := q\<rparr>"
      by (rule broadcast_new_fresh [OF block_message_fresh]) (rule that)
    from eq True have "block_ip L i d = broadcast_new L (block_message L ?a) [] ?d" by (simp only: if_True)
    also note b
    finally have "block_ip L i d = ?d\<lparr>out := out ?d @ es, g_broadcast_sequence := q\<rparr>" .
    then show ?thesis
      by (intro that [where es = es and q = q]) (use True in simp_all)
  next
    case False
    with eq have "block_ip L i d = ?d" by (simp only: if_False)
    then have "block_ip L i d = ?d\<lparr>out := out ?d @ [], g_broadcast_sequence := g_broadcast_sequence ?d\<rparr>"
      by simp
    then show ?thesis
      by (intro that [where es = "[]" and q = "g_broadcast_sequence d"]) simp_all
  qed
qed

text \<open>
  Without the user name and password of the connection a CONNECT is ignored: no reply is sent,
  and no connection, neighbor or status changes; at most the address is counted as an attempt, and
  that only on a connection that came in.
\<close>

theorem connect_wrong_credentials:
  assumes "m_user_data msg = Some i" and "f_username (obj d i) \<noteq> []" and "\<not> f_is_udp (obj d i)"
    and "\<not> (has_parameter msg ''username'' \<and> has_parameter msg ''password'' \<and> check_credentials msg (obj d i))"
  shows "msg_connect L msg d = ok d \<or>
    msg_connect L msg d = ok (block_ip L i d) \<and> c_kind (obj d i) = Service_conn \<and>
      obj (block_ip L i d) = obj d \<and> connections (block_ip L i d) = connections d \<and>
      f_all_neighbors (block_ip L i d) = f_all_neighbors d \<and> f_cluster_status (block_ip L i d) = f_cluster_status d"
proof -
  have "msg_connect L msg d \<in> {ok d, ok (block_ip L i d)} \<and> (c_kind (obj d i) = Service_conn \<or> msg_connect L msg d = ok d)"
    using assms by (simp add: msg_connect_def tcp_handler_Some)
  moreover obtain q es where "block_ip L i d = d\<lparr>g_blocked_ips := map_insert (set_port L (c_remote_address (obj d i)) 0)
      \<lparr>f_count = attempts d (set_port L (c_remote_address (obj d i)) 0), f_last_hit = now d\<rparr> (g_blocked_ips d),
      out := out d @ es, g_broadcast_sequence := q\<rparr>"
    by (rule block_ip_form) blast
  then have "obj (block_ip L i d) = obj d \<and> connections (block_ip L i d) = connections d \<and>
      f_all_neighbors (block_ip L i d) = f_all_neighbors d \<and> f_cluster_status (block_ip L i d) = f_cluster_status d"
    by simp
  ultimately show ?thesis by blast
qed

theorem connect_wrong_credentials_witness:
  "msg_connect sample_lib (add_parameter ''username'' ''admin'' (add_parameter ''password'' ''guess'' sample_connect))
     sample_listening \<in> {ok sample_listening, ok (block_ip sample_lib 0 sample_listening)}"
proof -
  let ?m = "add_parameter ''username'' ''admin'' (add_parameter ''password'' ''guess'' sample_connect)"
  have "m_user_data ?m = Some 0" "f_username (obj sample_listening 0) \<noteq> []" "\<not> f_is_udp (obj sample_listening 0)"
    "\<not> (has_parameter ?m ''username'' \<and> has_parameter ?m ''password'' \<and> check_credentials ?m (obj sample_listening 0))"
    by code_simp+
  from connect_wrong_credentials [OF this, of sample_lib] show ?thesis by blast
qed

text \<open>
  The third attempt with wrong credentials in a row from an address, none more than fifteen
  minutes after the one before, has BLOCK sent to every local service that understands it; the first
  two send nothing.
\<close>

theorem block_ip_third:
  assumes "map_ok (g_blocked_ips d)" and "map_find (g_blocked_ips d) a = None"
    and "a = set_port L (c_remote_address (obj d i)) 0"
    and "now d \<le> t2" and "t2 \<le> now d + 900" and "t2 \<le> t3" and "t3 \<le> t2 + 900"
    and "j \<in> set (connections d)" and "local_recipient L (obj d j) ''BLOCK''"
  shows "out (block_ip L i ((block_ip L i d)\<lparr>now := t2\<rparr>)) = out d \<and>
    Sent j (block_message L a) \<in>
      set (out (block_ip L i ((block_ip L i ((block_ip L i d)\<lparr>now := t2\<rparr>))\<lparr>now := t3\<rparr>)))"
proof -
  obtain q1 es1 where e1: "block_ip L i d = d\<lparr>g_blocked_ips := map_insert (set_port L (c_remote_address (obj d i)) 0)
      \<lparr>f_count = attempts d (set_port L (c_remote_address (obj d i)) 0), f_last_hit = now d\<rparr> (g_blocked_ips d),
      out := out d @ es1, g_broadcast_sequence := q1\<rparr>"
    and s1: "attempts d (set_port L (c_remote_address (obj d i)) 0) < 3 \<Longrightarrow> es1 = []"
    by (rule block_ip_form) blast
  have a1: "attempts d a = 1" using assms(2) by (simp add: attempts_def)
  with e1 s1 assms(3) have b1: "block_ip L i d = d\<lparr>g_blocked_ips := map_insert a
      \<lparr>f_count = 1, f_last_hit = now d\<rparr> (g_blocked_ips d), g_broadcast_sequence := q1\<rparr>" (is "_ = ?d1") by simp
  let ?d1t = "?d1\<lparr>now := t2\<rparr>"
  have a2: "attempts ?d1t a = 2"
    using assms(1,4,5) by (simp add: attempts_def map_find_insert)
  obtain q2 es2 where e2: "block_ip L i ?d1t = ?d1t\<lparr>g_blocked_ips := map_insert (set_port L (c_remote_address (obj ?d1t i)) 0)
      \<lparr>f_count = attempts ?d1t (set_port L (c_remote_address (obj ?d1t i)) 0), f_last_hit = now ?d1t\<rparr> (g_blocked_ips ?d1t),
      out := out ?d1t @ es2, g_broadcast_sequence := q2\<rparr>"
    and s2: "attempts ?d1t (set_port L (c_remote_address (obj ?d1t i)) 0) < 3 \<Longrightarrow> es2 = []"
    by (rule block_ip_form) blast
  have "es2 = []" using s2 a2 assms(3) by simp
  with e2 a2 assms(3) have b2: "block_ip L i ?d1t = ?d1t\<lparr>g_blocked_ips := map_insert a
      \<lparr>f_count = 2, f_last_hit = t2\<rparr> (g_blocked_ips ?d1t), g_broadcast_sequence := q2\<rparr>" (is "_ = ?d2") by simp
  let ?d2t = "?d2\<lparr>now := t3\<rparr>"
  have a3: "attempts ?d2t a = 3"
    using assms(1,6,7) by (simp add: attempts_def map_find_insert map_ok_insert)
  let ?d3 = "?d2t\<lparr>g_blocked_ips := map_insert a \<lparr>f_count = 3, f_last_hit = t3\<rparr> (g_blocked_ips ?d2t)\<rparr>"
  have "set_port L (c_remote_address (obj ?d2t i)) 0 = a" by (simp add: assms(3))
  then have "block_ip L i ?d2t = (if 3 \<le> attempts ?d2t a then broadcast_new L (block_message L a) []
      (?d2t\<lparr>g_blocked_ips := map_insert a \<lparr>f_count = attempts ?d2t a, f_last_hit = now ?d2t\<rparr> (g_blocked_ips ?d2t)\<rparr>)
    else ?d2t\<lparr>g_blocked_ips := map_insert a \<lparr>f_count = attempts ?d2t a, f_last_hit = now ?d2t\<rparr> (g_blocked_ips ?d2t)\<rparr>)"
    by (simp only: block_ip_eq [of L i ?d2t] Let_def)
  then have b3: "block_ip L i ?d2t = broadcast_new L (block_message L a) [] ?d3" unfolding a3 by simp
  have p: "broadcast_prologue L (block_message L a) ?d3 =
      Ret (Some \<lparr>i_msgid = [], i_informed = [], i_hops = 0, i_timeout = 0\<rparr>) ?d3"
    using block_message_fresh [of L a] by (simp add: broadcast_prologue_def)
  have c: "m_command (block_message L a) = ''BLOCK''" by (simp add: block_message_def)
  have "Sent j (block_message L a) \<in> set (out (broadcast_new L (block_message L a) [] ?d3))"
  proof (rule broadcast_message_form [OF p])
    fix chosen copy q
    assume bm: "broadcast_message L (block_message L a) [] ?d3 =
      ok (?d3\<lparr>out := out ?d3 @ map (\<lambda>i. Sent i (block_message L a))
             (local_targets L (block_message L a) ?d3 (connections ?d3)) @
                  map (\<lambda>i. Sent i copy) chosen, g_broadcast_sequence := q\<rparr>)"
    show ?thesis
      unfolding broadcast_new_def bm using assms(8,9) by (simp add: c)
  qed
  then show ?thesis using b1 b2 b3 by simp
qed

theorem block_ip_third_witness:
  "\<exists>d. out d = [] \<and> Sent 1 (block_message sample_lib 20) \<in> set (out (block_ip sample_lib 0 d))"
proof -
  let ?d = "sample_daemon [(sample_conn Service_conn ''remote'' 20 {})\<lparr>c_remote_address := 20\<rparr>,
    sample_conn Unix_conn ''firewall'' 0 {''BLOCK''}]"
  have m: "map_ok (g_blocked_ips ?d)" by (simp add: sample_daemon_def map_ok_def)
  have f: "map_find (g_blocked_ips ?d) 20 = None" "20 = set_port sample_lib (c_remote_address (obj ?d 0)) 0"
    "now ?d \<le> 1100" "(1100 :: int) \<le> now ?d + 900" "(1100 :: int) \<le> 1200" "(1200 :: int) \<le> 1100 + 900"
    "1 \<in> set (connections ?d)" "local_recipient sample_lib (obj ?d 1) ''BLOCK''"
    by code_simp+
  have o: "out ?d = []" by code_simp
  let ?d2 = "(block_ip sample_lib 0 ((block_ip sample_lib 0 ?d)\<lparr>now := 1100\<rparr>))\<lparr>now := 1200\<rparr>"
  have "out ?d2 = [] \<and> Sent 1 (block_message sample_lib 20) \<in> set (out (block_ip sample_lib 0 ?d2))"
    using block_ip_third [OF m f] o by simp
  then show ?thesis by blast
qed

end
