(* ===== verification/Check_Clock.thy ===== *)
theory Check_Clock
  imports Status Sample
begin

text \<open>
  The plugin communicatord_check_clock (check_clock.cpp and stable_clock.cpp): every hour it runs a
  command that waits until the clock is synchronised, keeps the status of the clock, and tells the
  local services when it changes.

  The commands it runs are the state \<open>p_children\<close>, each with the callback bound to its end; what \<open>stat\<close> and \<open>start\<close> answer is the record
  \<open>clock_env\<close>. The commands come back through \<open>signal_child\<close> in the callbacks \<open>ntp_wait_exited\<close> and
  \<open>timedate_wait_exited\<close>.
\<close>

datatype clock_status_t = CLOCK_STATUS_UNKNOWN | CLOCK_STATUS_NO_NTP | CLOCK_STATUS_STABLE | CLOCK_STATUS_INVALID

datatype process_state_t = PROCESS_STATE_IDLE | PROCESS_STATE_NTP_WAIT | PROCESS_STATE_TIMEDATE_WAIT

record check_clock =
  f_clock_status :: clock_status_t
  f_process_state :: process_state_t
  f_timedate_wait_command :: string
  f_tag :: "nat option"
  f_check_clock_status :: bool
  p_children :: "(process_state_t \<times> string list) list"

record clock_env =
  has_ntp_wait_file :: bool
  has_timedatectl_file :: bool
  start_fails :: "string list \<Rightarrow> bool"

section \<open>The status\<close>

definition clock_status_message :: "'a daemon \<Rightarrow> clock_status_t \<Rightarrow> message" where
  "clock_status_message d status =
     (let msg = add_parameter ''cache'' ''no'' (daemon_message (f_server_name d) ''CLOCK_UNSTABLE'')
      in case status of
           CLOCK_STATUS_STABLE \<Rightarrow> add_parameter ''clock_resolution'' ''verified'' (msg\<lparr>m_command := ''CLOCK_STABLE''\<rparr>)
         | CLOCK_STATUS_NO_NTP \<Rightarrow> add_parameter ''clock_resolution'' ''no_ntp'' (msg\<lparr>m_command := ''CLOCK_STABLE''\<rparr>)
         | CLOCK_STATUS_INVALID \<Rightarrow> add_parameter ''clock_error'' ''invalid'' msg
         | CLOCK_STATUS_UNKNOWN \<Rightarrow> add_parameter ''clock_error'' ''checking'' msg)"

definition send_clock_status :: "('a, 'z) lib_scheme \<Rightarrow> cid option \<Rightarrow> 'a daemon \<times> check_clock \<Rightarrow> 'a daemon \<times> check_clock" where
  "send_clock_status L reply_connection = (\<lambda>(d, c).
     let msg = clock_status_message d (f_clock_status c) in
     (case reply_connection of
        Some i \<Rightarrow>
          if c_kind (obj d i) = Unix_conn then
            (if understand_command (obj d i) (m_command msg) then send_message i msg d else d, c)
          else if c_kind (obj d i) = Service_conn \<and> understand_command (obj d i) (m_command msg)
          then (send_message i msg d, c) else (d, c)
      | None \<Rightarrow> (broadcast_new L (msg\<lparr>m_service := ''.''\<rparr>) [] d, c)))"

definition set_clock_status :: "('a, 'z) lib_scheme \<Rightarrow> clock_status_t \<Rightarrow> 'a daemon \<times> check_clock \<Rightarrow> 'a daemon \<times> check_clock" where
  "set_clock_status L status = (\<lambda>(d, c).
     if f_clock_status c = status then (d, c)
     else send_clock_status L None (d, c\<lparr>f_clock_status := status\<rparr>))"

definition msg_clock_status :: "('a, 'z) lib_scheme \<Rightarrow> message \<Rightarrow> 'a daemon \<times> check_clock \<Rightarrow> 'a daemon \<times> check_clock" where
  "msg_clock_status L msg = (\<lambda>(d, c).
     (case m_user_data msg of
        None \<Rightarrow> (d, c)
      | Some i \<Rightarrow> send_clock_status L (Some i) (d, c)))"

section \<open>The process\<close>

definition set_timedate_wait_command :: "string \<Rightarrow> check_clock \<Rightarrow> check_clock" where
  "set_timedate_wait_command s c = c\<lparr>f_timedate_wait_command := s\<rparr>"

definition has_ntp_wait :: "clock_env \<Rightarrow> bool" where
  "has_ntp_wait E = has_ntp_wait_file E"

definition has_timedatectl :: "clock_env \<Rightarrow> bool" where
  "has_timedatectl E = has_timedatectl_file E"

text \<open>\<open>safe_object\<close> sets the state back when the function returns before \<open>release\<close>.\<close>

definition start_ntp_wait :: "clock_env \<Rightarrow> check_clock \<Rightarrow> check_clock" where
  "start_ntp_wait E c =
     (let command = [''/usr/sbin/ntp-wait'', ''--tries=600'', ''--sleep=1''] in
      if start_fails E command then c\<lparr>f_process_state := PROCESS_STATE_IDLE\<rparr>
      else c\<lparr>f_process_state := PROCESS_STATE_NTP_WAIT, p_children := p_children c @ [(PROCESS_STATE_NTP_WAIT, command)]\<rparr>)"

definition start_timedate_wait :: "clock_env \<Rightarrow> check_clock \<Rightarrow> check_clock" where
  "start_timedate_wait E c =
     (let command = [if f_timedate_wait_command c = [] then ''/usr/bin/timedate-wait'' else f_timedate_wait_command c,
                     ''--tries=600'', ''--sleep=1''] in
      if start_fails E command then c\<lparr>f_process_state := PROCESS_STATE_IDLE\<rparr>
      else c\<lparr>f_process_state := PROCESS_STATE_TIMEDATE_WAIT, p_children := p_children c @ [(PROCESS_STATE_TIMEDATE_WAIT, command)]\<rparr>)"

text \<open>A child that ended with the result \<open>r\<close>; the two callbacks are the same code.\<close>

definition ntp_wait_exited :: "('a, 'z) lib_scheme \<Rightarrow> int \<Rightarrow> 'a daemon \<times> check_clock \<Rightarrow> 'a daemon \<times> check_clock" where
  "ntp_wait_exited L r = (\<lambda>(d, c).
     set_clock_status L (if r = 0 then CLOCK_STATUS_STABLE else CLOCK_STATUS_INVALID)
       (d, c\<lparr>f_process_state := PROCESS_STATE_IDLE\<rparr>))"

definition timedate_wait_exited :: "('a, 'z) lib_scheme \<Rightarrow> int \<Rightarrow> 'a daemon \<times> check_clock \<Rightarrow> 'a daemon \<times> check_clock" where
  "timedate_wait_exited L r = (\<lambda>(d, c).
     set_clock_status L (if r = 0 then CLOCK_STATUS_STABLE else CLOCK_STATUS_INVALID)
       (d, c\<lparr>f_process_state := PROCESS_STATE_IDLE\<rparr>))"

definition stable_clock_timeout :: "('a, 'z) lib_scheme \<Rightarrow> clock_env \<Rightarrow> 'a daemon \<times> check_clock \<Rightarrow> 'a daemon \<times> check_clock" where
  "stable_clock_timeout L E = (\<lambda>(d, c).
     if f_process_state c \<noteq> PROCESS_STATE_IDLE then (d, c)
     else if has_ntp_wait E then (d, start_ntp_wait E c)
     else if has_timedatectl E then (d, start_timedate_wait E c)
     else set_clock_status L CLOCK_STATUS_NO_NTP (d, c))"

section \<open>The plugin\<close>

text \<open>The option \<open>timedate_wait_command\<close>, the tag and whether the event loop takes the timer are inputs.\<close>

definition check_clock_initialize :: "nat \<Rightarrow> string option \<Rightarrow> bool \<Rightarrow> check_clock \<Rightarrow> (check_clock, unit) res" where
  "check_clock_initialize tag command added c =
     (if f_tag c \<noteq> None then Raise Logic_error c
      else
        let c1 = c\<lparr>f_tag := Some tag, f_process_state := PROCESS_STATE_IDLE, f_timedate_wait_command := []\<rparr>;
            c2 = (case command of None \<Rightarrow> c1 | Some s \<Rightarrow> set_timedate_wait_command s c1)
        in ok (c2\<lparr>f_check_clock_status := added\<rparr>))"

definition check_clock_terminate :: "check_clock \<Rightarrow> check_clock" where
  "check_clock_terminate c = c\<lparr>f_check_clock_status := False\<rparr>"

definition new_check_clock :: check_clock where
  "new_check_clock = \<lparr>f_clock_status = CLOCK_STATUS_UNKNOWN, f_process_state = PROCESS_STATE_IDLE,
     f_timedate_wait_command = [], f_tag = None, f_check_clock_status = False, p_children = []\<rparr>"

section \<open>The plugin as a state machine\<close>

text \<open>What can happen to a plugin: its timer, the end of a command, a question, anything else in the daemon.\<close>

inductive clock_step :: "('a, 'z) lib_scheme \<Rightarrow> 'a daemon \<times> check_clock \<Rightarrow> 'a daemon \<times> check_clock \<Rightarrow> bool" for L where
  timer: "clock_step L s (stable_clock_timeout L E s)"
| ntp_exit: "p_children c = cs @ (PROCESS_STATE_NTP_WAIT, command) # ds \<Longrightarrow>
     clock_step L (d, c) (ntp_wait_exited L r (d, c\<lparr>p_children := cs @ ds\<rparr>))"
| timedate_exit: "p_children c = cs @ (PROCESS_STATE_TIMEDATE_WAIT, command) # ds \<Longrightarrow>
     clock_step L (d, c) (timedate_wait_exited L r (d, c\<lparr>p_children := cs @ ds\<rparr>))"
| question: "clock_step L s (msg_clock_status L msg s)"
| daemon: "clock_step L (d, c) (d', c)"

inductive_cases clock_stepE: "clock_step L s s'"

text \<open>A daemon whose plugin was just initialised.\<close>

definition clock_start :: "'a daemon \<times> check_clock \<Rightarrow> bool" where
  "clock_start s \<longleftrightarrow> (\<exists>tag command added. check_clock_initialize tag command added new_check_clock = ok (snd s))"

section \<open>One command at a time\<close>

definition clock_inv :: "check_clock \<Rightarrow> bool" where
  "clock_inv c \<longleftrightarrow>
     (case p_children c of
        [] \<Rightarrow> f_process_state c = PROCESS_STATE_IDLE
      | [p] \<Rightarrow> f_process_state c = fst p \<and> fst p \<noteq> PROCESS_STATE_IDLE
      | _ \<Rightarrow> False)"

lemma send_clock_status_plugin: "snd (send_clock_status L r (d, c)) = c"
  by (simp add: send_clock_status_def Let_def split: option.split)

lemma set_clock_status_plugin:
  "f_process_state (snd (set_clock_status L st (d, c))) = f_process_state c"
  "p_children (snd (set_clock_status L st (d, c))) = p_children c"
  "f_clock_status (snd (set_clock_status L st (d, c))) = st"
  by (simp_all add: set_clock_status_def send_clock_status_plugin)

lemma clock_inv_cases:
  assumes "clock_inv c"
  obtains "p_children c = []" "f_process_state c = PROCESS_STATE_IDLE"
  | p where "p_children c = [p]" "f_process_state c = fst p" "fst p \<noteq> PROCESS_STATE_IDLE"
  using assms unfolding clock_inv_def by (cases "p_children c" rule: remdups_adj.cases) auto

lemma clock_inv_set_status: "clock_inv (snd (set_clock_status L st (d, c))) \<longleftrightarrow> clock_inv c"
  by (simp add: clock_inv_def set_clock_status_plugin split: list.split)

lemma clock_inv_exit:
  assumes "clock_inv c" and "p_children c = cs @ p # ds"
  shows "clock_inv (c\<lparr>p_children := cs @ ds, f_process_state := PROCESS_STATE_IDLE\<rparr>)"
proof -
  have "cs = [] \<and> ds = []" using assms by (cases rule: clock_inv_cases) (auto simp: Cons_eq_append_conv)
  then show ?thesis by (simp add: clock_inv_def)
qed

lemma clock_step_inv:
  assumes "clock_step L s s'" and "clock_inv (snd s)"
  shows "clock_inv (snd s')"
  using assms(1)
proof cases
  case (timer E)
  obtain d c where s: "s = (d, c)" by fastforce
  with assms(2) have "clock_inv c" by simp
  then show ?thesis
    by (cases rule: clock_inv_cases)
      (auto simp: timer s stable_clock_timeout_def clock_inv_set_status start_ntp_wait_def start_timedate_wait_def
        Let_def clock_inv_def set_clock_status_plugin)
next
  case (ntp_exit c cs command ds d r)
  with assms(2) clock_inv_exit [of c] show ?thesis by (simp add: ntp_wait_exited_def clock_inv_set_status)
next
  case (timedate_exit c cs command ds d r)
  with assms(2) clock_inv_exit [of c] show ?thesis by (simp add: timedate_wait_exited_def clock_inv_set_status)
next
  case (question msg)
  obtain d c where "s = (d, c)" by fastforce
  with question assms(2) show ?thesis
    by (simp add: msg_clock_status_def send_clock_status_plugin split: option.split)
next
  case (daemon d c d')
  with assms(2) show ?thesis by simp
qed

lemma clock_initialize_inv: "check_clock_initialize tag command added new_check_clock = ok c \<Longrightarrow> clock_inv c"
  by (auto simp: check_clock_initialize_def new_check_clock_def set_timedate_wait_command_def Let_def ok_def
      clock_inv_def split: option.splits)

lemma clock_start_inv: "clock_start s \<Longrightarrow> clock_inv (snd s)"
  by (auto simp: clock_start_def intro: clock_initialize_inv)

interpretation ck: invariant_machine clock_start "clock_step L" "\<lambda>s. clock_inv (snd s)" for L
  by unfold_locales (auto intro: clock_start_inv clock_step_inv)

text \<open>
  The plugin never has two commands running, and it knows of the one that runs: in every reachable
  state it is idle exactly when there is none, otherwise its state is the one of the command.
\<close>

theorem one_clock_command:
  assumes "clock_start s" and "(clock_step L)\<^sup>*\<^sup>* s (d, c)"
  shows "length (p_children c) \<le> 1 \<and> (f_process_state c = PROCESS_STATE_IDLE \<longleftrightarrow> p_children c = []) \<and>
    (\<forall>p \<in> set (p_children c). fst p = f_process_state c)"
proof -
  have "clock_inv c" using ck.inv_run [OF assms] by simp
  then show ?thesis by (cases rule: clock_inv_cases) auto
qed

definition sample_clock_env :: clock_env where
  "sample_clock_env = \<lparr>has_ntp_wait_file = True, has_timedatectl_file = False, start_fails = (\<lambda>c. False)\<rparr>"

definition sample_clock :: check_clock where
  "sample_clock = new_check_clock\<lparr>f_tag := Some 1, f_check_clock_status := True\<rparr>"

lemma sample_clock_start: "clock_start (sample_daemon [], sample_clock)"
  unfolding clock_start_def
  by (rule exI [of _ 1], rule exI [of _ None], rule exI [of _ True])
    (simp add: check_clock_initialize_def sample_clock_def new_check_clock_def)

theorem one_clock_command_witness:
  "length (p_children (snd (stable_clock_timeout sample_lib sample_clock_env (sample_daemon [], sample_clock)))) = 1"
proof -
  let ?s = "stable_clock_timeout sample_lib sample_clock_env (sample_daemon [], sample_clock)"
  have "clock_step sample_lib (sample_daemon [], sample_clock) (fst ?s, snd ?s)"
    using clock_step.timer by simp
  from one_clock_command [OF sample_clock_start r_into_rtranclp [where r = "clock_step sample_lib", OF this]] have "length (p_children (snd ?s)) \<le> 1"
    "f_process_state (snd ?s) = PROCESS_STATE_IDLE \<longleftrightarrow> p_children (snd ?s) = []" by blast+
  moreover have "f_process_state (snd ?s) \<noteq> PROCESS_STATE_IDLE" by code_simp
  ultimately show ?thesis by (cases "p_children (snd ?s)") auto
qed

section \<open>Who is told\<close>

lemma clock_status_message_fields:
  "m_command (clock_status_message d st) =
     (if st \<in> {CLOCK_STATUS_STABLE, CLOCK_STATUS_NO_NTP} then ''CLOCK_STABLE'' else ''CLOCK_UNSTABLE'')"
  "\<not> has_parameter (clock_status_message d st) ''broadcast_msgid''"
  by (cases st; simp add: clock_status_message_def Let_def has_parameter_def)+

text \<open>
  A change of the status of the clock is announced once, to the local services that understand the
  message and to nobody else; when a command finds the status the plugin already has, nothing is sent.
  The message says that the clock is stable exactly for the statuses "stable" and "no NTP".
\<close>

theorem clock_status_announced:
  "\<exists>q. set_clock_status L st (d, c) =
     (if f_clock_status c = st then (d, c)
      else let msg = (clock_status_message d st)\<lparr>m_service := ''.''\<rparr> in
        (d\<lparr>out := out d @ map (\<lambda>i. Sent i msg) (local_targets L msg d (connections d)), g_broadcast_sequence := q\<rparr>,
         c\<lparr>f_clock_status := st\<rparr>)) \<and>
   (m_command (clock_status_message d st) = ''CLOCK_STABLE'' \<longleftrightarrow>
     st = CLOCK_STATUS_STABLE \<or> st = CLOCK_STATUS_NO_NTP)"
proof -
  let ?msg = "(clock_status_message d st)\<lparr>m_service := ''.''\<rparr>"
  obtain q where "broadcast_new L ?msg [] d =
    d\<lparr>out := out d @ map (\<lambda>i. Sent i ?msg) (local_targets L ?msg d (connections d)), g_broadcast_sequence := q\<rparr>"
    by (rule broadcast_local [of ?msg]) (simp_all add: clock_status_message_fields)
  then show ?thesis
    by (intro exI [of _ q]) (simp add: set_clock_status_def send_clock_status_def clock_status_message_fields Let_def)
qed

end
