(* ===== verification/Shutdown.thy ===== *)
theory Shutdown
  imports System Registration Admission Loadavg_Plugin Check_Clock
begin

text \<open>
  The end of a daemon: what \<open>stop\<close> leaves behind, and that no message is processed any more.
\<close>

section \<open>Messages after the shutdown started\<close>

text \<open>
  Once the daemon is shutting down no message is processed or forwarded. A message that came over
  UDP is dropped; any other gets at most a QUITTING as an answer, none for an UNREGISTER, and its
  connection is removed.
\<close>

theorem dispatch_shutting_down:
  assumes "f_shutdown d" and "m_user_data msg = Some i" and "check_broadcast_message L msg d = Inr False"
  shows "dispatch_message L other msg d =
    Ret True (if f_is_udp (obj d i) then d
      else remove_connection L i
        (if m_command msg \<noteq> ''UNREGISTER'' \<and>
            verify_command d i (daemon_message (f_server_name d) ''QUITTING'')
         then send_message i (daemon_message (f_server_name d) ''QUITTING'') d else d))"
  using assms
  by (simp add: dispatch_message_def shutting_down_def Let_def verify_command_def new_message_def
      send_message_to_connection_def)

theorem dispatch_shutting_down_witness:
  "dispatch_message sample_lib no_other sample_register (sample_waiting\<lparr>f_shutdown := True\<rparr>) =
     Ret True (remove_connection sample_lib 0 (send_message 0 (daemon_message ''alpha'' ''QUITTING'')
       (sample_waiting\<lparr>f_shutdown := True\<rparr>)))"
proof -
  let ?d = "sample_waiting\<lparr>f_shutdown := True\<rparr>"
  have "f_shutdown ?d" "m_user_data sample_register = Some 0"
    "check_broadcast_message sample_lib sample_register ?d = Inr False" by code_simp+
  note * = dispatch_shutting_down [OF this, of no_other]
  have "\<not> f_is_udp (obj ?d 0)" "m_command sample_register \<noteq> ''UNREGISTER''" "f_server_name ?d = ''alpha''"
    "verify_command ?d 0 (daemon_message ''alpha'' ''QUITTING'')" by code_simp+
  then show ?thesis unfolding * by simp
qed

section \<open>Stopping\<close>

text \<open>The whole of \<open>communicatord::stop\<close>: at its end the signal \<open>terminate\<close> takes the plugins' timers away.\<close>

definition stop_server :: "('a::linorder, 'z) lib_scheme \<Rightarrow> bool \<Rightarrow> 'a daemon \<times> 'b loadavg_plugin \<times> check_clock
    \<Rightarrow> 'a daemon \<times> 'b loadavg_plugin \<times> check_clock" where
  "stop_server L quitting = (\<lambda>(d, p, c). (stop L quitting d, loadavg_terminate p, check_clock_terminate c))"

text \<open>What one round of the loop of \<open>stop\<close> leaves of the other connections.\<close>

definition stop_frame :: "'a daemon \<Rightarrow> 'a daemon \<Rightarrow> bool" where
  "stop_frame d d' \<longleftrightarrow> next_id d \<le> next_id d' \<and> f_server_name d' = f_server_name d \<and>
     f_shutdown d' = f_shutdown d \<and> (\<exists>es. out d' = out d @ es) \<and>
     (\<forall>j < next_id d. c_kind (obj d' j) = c_kind (obj d j) \<and> (c_done (obj d j) \<longrightarrow> c_done (obj d' j)))"

lemma stop_frame_refl [simp]: "stop_frame d d"
  by (simp add: stop_frame_def)

lemma stop_frame_trans:
  assumes "stop_frame a b" and "stop_frame b c" shows "stop_frame a c"
  using assms unfolding stop_frame_def by (metis append.assoc le_trans less_le_trans)

lemma stop_frame_mark_done [simp]: "stop_frame d (mark_done i d)"
  by (auto simp: stop_frame_def mark_done_def upd_conn_def)

lemma stop_frame_send [simp]: "stop_frame d (send_message i m d)" "stop_frame d (send_to i m d)"
  by (auto simp: stop_frame_def state_simps)

lemma stop_frame_unlist [simp]: "stop_frame d (unlist_connection i d)"
  by (auto simp: stop_frame_def unlist_connection_def)

lemma stop_frame_connection_lost [simp]: "stop_frame d (connection_lost L a d)"
  by (auto simp: stop_frame_def connection_lost_def new_object_def add_connection_def Let_def)

lemma stop_frame_remove [simp]: "stop_frame d (remove_connection L i d)"
  by (auto simp: remove_connection_def connection_removed_def
      intro: stop_frame_trans [OF stop_frame_unlist stop_frame_connection_lost])

lemma stop_frame_connection: "stop_frame d (stop_connection L q d i)"
  by (auto simp: stop_connection_def stop_service_def split: connection_type.split
      intro: stop_frame_trans [OF stop_frame_send(1) stop_frame_mark_done]
        stop_frame_trans [OF stop_frame_send(2) stop_frame_mark_done]
        stop_frame_trans [OF stop_frame_mark_done stop_frame_send(2)])

lemma stop_frame_loop: "stop_frame d (foldl (stop_connection L q) d is)"
  by (rule foldl_inv [where P = "stop_frame d"]) (auto intro: stop_frame_trans stop_frame_connection)

lemma stop_frame_remove_optional [simp]: "stop_frame d (remove_optional L c d)"
  by (simp add: remove_optional_def split: option.split)

lemma stop_frame_clear [simp]:
  "stop_frame a (d\<lparr>f_local_listener := c\<rparr>) = stop_frame a d" "stop_frame a (d\<lparr>f_remote_listener := c\<rparr>) = stop_frame a d"
  "stop_frame a (d\<lparr>f_secure_listener := c\<rparr>) = stop_frame a d" "stop_frame a (d\<lparr>f_ping := c\<rparr>) = stop_frame a d"
  by (simp_all add: stop_frame_def)

lemma stop_frame_listeners: "stop_frame d (stop_listeners L d)"
  unfolding stop_listeners_def Let_def
  by (simp, (rule stop_frame_trans [OF _ stop_frame_remove_optional], simp?)+)

lemma stop_loop_remote:
  assumes "i \<in> set is" and "i < next_id d" and "c_kind (obj d i) = Remote_conn"
  shows "c_done (obj (foldl (stop_connection L q) d is) i) \<and>
    Sent i (going_down d q) \<in> set (out (foldl (stop_connection L q) d is))"
  using assms
proof (induction "is" arbitrary: d)
  case (Cons j "is")
  let ?d = "stop_connection L q d j"
  have f: "stop_frame d ?d" by (rule stop_frame_connection)
  then have n: "i < next_id ?d" "c_kind (obj ?d i) = Remote_conn" "going_down ?d q = going_down d q"
    using Cons.prems by (auto simp: stop_frame_def going_down_def)
  show ?case
  proof (cases "i = j")
    case True
    with Cons.prems have "c_done (obj ?d i)" "Sent i (going_down d q) \<in> set (out ?d)"
      by (simp_all add: stop_connection_def mark_done_def upd_conn_def send_message_def emit_def)
    with stop_frame_loop [of ?d L q "is"] n show ?thesis by (auto simp: stop_frame_def)
  next
    case False
    with Cons.IH [of ?d] Cons.prems n show ?thesis by simp
  qed
qed simp

lemma stop_gossiping_fields:
  "f_gossip_ips (stop_gossiping d) = [] \<and> obj (stop_gossiping d) = obj d \<and> next_id (stop_gossiping d) = next_id d \<and>
   f_server_name (stop_gossiping d) = f_server_name d \<and> f_shutdown (stop_gossiping d) = f_shutdown d \<and>
   set (connections (stop_gossiping d)) = set (connections d) - snd ` set (f_gossip_ips d)"
proof (induction d rule: stop_gossiping.induct)
  case (1 d)
  show ?case
  proof (cases "f_gossip_ips d")
    case Nil
    then show ?thesis by (simp add: stop_gossiping.simps [of d])
  next
    case (Cons e rest)
    obtain a i where e: "e = (a, i)" by (cases e)
    from "1.IH" [OF Cons e [symmetric]] show ?thesis
      by (auto simp: stop_gossiping.simps [of d] Cons e unlist_connection_def)
  qed
qed

text \<open>A socket of the daemon itself leaves the event loop and does not come back.\<close>

definition out_of_loop :: "cid \<Rightarrow> 'a daemon \<Rightarrow> bool" where
  "out_of_loop i d \<longleftrightarrow> i < next_id d \<and> i \<notin> set (connections d)"

lemma remove_connection_loop:
  "set (connections (remove_connection L j d)) \<subseteq> set (connections d) - {j} \<union> {next_id d}"
  "next_id d \<le> next_id (remove_connection L j d)" "own_connections (remove_connection L j d) = own_connections d"
  by (auto simp: remove_connection_def connection_removed_def connection_lost_def unlist_connection_def new_object_def
      add_connection_def own_connections_def Let_def)

lemma out_of_loop_removed: "i < next_id d \<Longrightarrow> out_of_loop i (remove_connection L i d)"
  using remove_connection_loop [where L = L and j = i and d = d] by (auto simp: out_of_loop_def)

lemma out_of_loop_remove: "out_of_loop i d \<Longrightarrow> out_of_loop i (remove_connection L j d)"
  using remove_connection_loop [where L = L and j = j and d = d] by (auto simp: out_of_loop_def)

lemma out_of_loop_optional:
  "c = Some i \<and> i < next_id d \<or> out_of_loop i d \<Longrightarrow> out_of_loop i (remove_optional L c d)"
  by (auto simp: remove_optional_def out_of_loop_removed out_of_loop_remove split: option.split)

lemma remove_optional_own:
  "f_interrupt (remove_optional L c d) = f_interrupt d" "f_local_listener (remove_optional L c d) = f_local_listener d"
  "f_remote_listener (remove_optional L c d) = f_remote_listener d"
  "f_secure_listener (remove_optional L c d) = f_secure_listener d"
  "f_unix_listener (remove_optional L c d) = f_unix_listener d" "f_ping (remove_optional L c d) = f_ping d"
  "next_id d \<le> next_id (remove_optional L c d)"
  by (simp_all add: remove_optional_def remove_connection_def connection_removed_def connection_lost_def
      unlist_connection_def new_object_def add_connection_def Let_def split: option.split)

lemma stop_listeners_own:
  "f_local_listener (stop_listeners L d) = None" "f_remote_listener (stop_listeners L d) = None"
  "f_secure_listener (stop_listeners L d) = None" "f_ping (stop_listeners L d) = None"
  by (simp_all add: stop_listeners_def Let_def remove_optional_own)

lemma stop_listeners_out_of_loop:
  assumes "Some i \<in> own_connections d" and "i < next_id d"
  shows "out_of_loop i (stop_listeners L d)"
proof -
  have clear: "out_of_loop i (d\<lparr>f_local_listener := c\<rparr>) = out_of_loop i d" "out_of_loop i (d\<lparr>f_remote_listener := c\<rparr>) = out_of_loop i d"
    "out_of_loop i (d\<lparr>f_secure_listener := c\<rparr>) = out_of_loop i d" "out_of_loop i (d\<lparr>f_ping := c\<rparr>) = out_of_loop i d"
    for c and d :: "'a daemon"
    by (simp_all add: out_of_loop_def)
  let ?d1 = "remove_optional L (f_interrupt d) d"
  let ?d2 = "(remove_optional L (f_local_listener ?d1) ?d1)\<lparr>f_local_listener := None\<rparr>"
  let ?d3 = "(remove_optional L (f_remote_listener ?d2) ?d2)\<lparr>f_remote_listener := None\<rparr>"
  let ?d4 = "(remove_optional L (f_secure_listener ?d3) ?d3)\<lparr>f_secure_listener := None\<rparr>"
  let ?d5 = "remove_optional L (f_unix_listener ?d4) ?d4"
  let ?d6 = "(remove_optional L (f_ping ?d5) ?d5)\<lparr>f_ping := None\<rparr>"
  have n: "i < next_id ?d1" using assms(2) remove_optional_own(7) by (rule less_le_trans)
  have n2: "i < next_id ?d2" using less_le_trans [OF n remove_optional_own(7)] by simp
  have n3: "i < next_id ?d3" using less_le_trans [OF n2 remove_optional_own(7)] by simp
  have n4: "i < next_id ?d4" using less_le_trans [OF n3 remove_optional_own(7)] by simp
  have n5: "i < next_id ?d5" using n4 remove_optional_own(7) by (rule less_le_trans)
  have p: "f_local_listener ?d1 = f_local_listener d" "f_remote_listener ?d2 = f_remote_listener d"
    "f_secure_listener ?d3 = f_secure_listener d" "f_unix_listener ?d4 = f_unix_listener d" "f_ping ?d5 = f_ping d"
    by (simp_all add: remove_optional_own)
  have o1: "out_of_loop i ?d1" if "f_interrupt d = Some i"
    using that assms(2) by (intro out_of_loop_optional) simp
  have o2: "out_of_loop i ?d2" if "out_of_loop i ?d1 \<or> f_local_listener d = Some i"
    unfolding clear using that n p(1) by (intro out_of_loop_optional) auto
  have o3: "out_of_loop i ?d3" if "out_of_loop i ?d2 \<or> f_remote_listener d = Some i"
    using that n2 p(2) by (subst clear, intro out_of_loop_optional) auto
  have o4: "out_of_loop i ?d4" if "out_of_loop i ?d3 \<or> f_secure_listener d = Some i"
    using that n3 p(3) by (subst clear, intro out_of_loop_optional) auto
  have o5: "out_of_loop i ?d5" if "out_of_loop i ?d4 \<or> f_unix_listener d = Some i"
    using that n4 p(4) by (intro out_of_loop_optional) auto
  have o6: "out_of_loop i ?d6" if "out_of_loop i ?d5 \<or> f_ping d = Some i"
    using that n5 p(5) by (subst clear, intro out_of_loop_optional) auto
  have "stop_listeners L d = ?d6" by (simp add: stop_listeners_def Let_def)
  then show ?thesis using assms(1) o1 o2 o3 o4 o5 o6 by (auto simp: own_connections_def)
qed

lemma own_connections_stopping:
  "own_connections (stop_gossiping d) = own_connections d"
  "own_connections (stop_connection L q d i) = own_connections d"
  "own_connections (foldl (stop_connection L q) d is) = own_connections d"
proof -
  show "own_connections (stop_gossiping d) = own_connections d"
  proof (induction d rule: stop_gossiping.induct)
    case (1 d)
    then show ?case
      by (subst stop_gossiping.simps) (auto simp: own_connections_def unlist_connection_def split: list.split)
  qed
  show c: "own_connections (stop_connection L q d i) = own_connections d" for d i
    using remove_connection_loop(3) [where L = L and j = i and d = d]
    by (auto simp: stop_connection_def stop_service_def mark_done_def own_connections_def state_simps split: connection_type.split)
  show "own_connections (foldl (stop_connection L q) d is) = own_connections d"
    by (rule foldl_frame) (rule c)
qed

text \<open>
  C37: When the daemon stops, every daemon it connected to is told (SHUTDOWN when the cluster goes down,
  DISCONNECT when only this computer does) and the connection ends once that is sent; the daemon is
  marked as shutting down, and none of its own sockets - the listeners, the one on the Unix socket included, the
  UDP socket and the signal - is left in the event loop, nor a pointer to them but those to the Unix listener and
  the signal.
\<close>

theorem stop_tells_daemons:
  assumes "daemon_inv d"
  shows "f_shutdown (stop L q d) \<and> f_local_listener (stop L q d) = None \<and> f_remote_listener (stop L q d) = None \<and>
    f_secure_listener (stop L q d) = None \<and> f_ping (stop L q d) = None \<and>
    {i. Some i \<in> own_connections d} \<inter> set (connections (stop L q d)) = {} \<and>
    {i. i \<in> set (connections d) \<and> c_kind (obj d i) = Remote_conn} \<subseteq>
      {i. c_done (obj (stop L q d) i) \<and> Sent i (going_down d q) \<in> set (out (stop L q d))}"
proof -
  let ?d1 = "stop_gossiping (d\<lparr>f_shutdown := True\<rparr>)"
  let ?d2 = "foldl (stop_connection L q) ?d1 (connections ?d1)"
  have st: "stop L q d = stop_listeners L ?d2" by (simp add: stop_def Let_def)
  note g = stop_gossiping_fields [of "d\<lparr>f_shutdown := True\<rparr>"]
  have l: "stop_frame ?d1 ?d2" "stop_frame ?d2 (stop_listeners L ?d2)"
    by (rule stop_frame_loop, rule stop_frame_listeners)
  have "f_shutdown (stop L q d)" using l g unfolding st by (simp add: stop_frame_def)
  moreover have "{i. Some i \<in> own_connections d} \<inter> set (connections (stop L q d)) = {}"
  proof -
    have "i \<notin> set (connections (stop L q d))" if i: "Some i \<in> own_connections d" for i
    proof -
      have "i < next_id d" using assms i by (simp add: daemon_inv_def own_ok_def)
      then have "i < next_id ?d2" using l(1) g by (simp add: stop_frame_def)
      moreover have "Some i \<in> own_connections ?d2"
        using i by (simp add: own_connections_stopping) (simp add: own_connections_def)
      ultimately show ?thesis unfolding st using stop_listeners_out_of_loop by (fastforce simp: out_of_loop_def)
    qed
    then show ?thesis by blast
  qed
  moreover have "c_done (obj (stop L q d) i) \<and> Sent i (going_down d q) \<in> set (out (stop L q d))"
    if i: "i \<in> set (connections d)" "c_kind (obj d i) = Remote_conn" for i
  proof -
    have lt: "i < next_id d" using assms i by (auto simp: daemon_inv_def rc_inv_defs)
    have "i \<notin> snd ` set (f_gossip_ips d)"
    proof
      assume "i \<in> snd ` set (f_gossip_ips d)"
      then obtain a where "(a, i) \<in> set (f_gossip_ips d)" by auto
      then have "map_find (f_gossip_ips d) a = Some i"
        using gossip_map_ok [OF assms] by (simp add: map_find_Some_iff)
      from gossip_entry(2) [OF assms this] i show False by simp
    qed
    with i g have "i \<in> set (connections ?d1)" by simp
    moreover have "going_down ?d1 q = going_down d q" using g by (simp add: going_down_def)
    ultimately have "c_done (obj ?d2 i) \<and> Sent i (going_down d q) \<in> set (out ?d2)"
      using stop_loop_remote [of i "connections ?d1" ?d1 L q] lt i g by simp
    moreover have "i < next_id ?d2" using l(1) g lt by (simp add: stop_frame_def)
    ultimately show ?thesis using l(2) unfolding st by (auto simp: stop_frame_def)
  qed
  ultimately show ?thesis using stop_listeners_own [of L ?d2] unfolding st [symmetric] by blast
qed

theorem stop_tells_daemons_witness:
  "Sent 0 (daemon_message ''alpha'' ''SHUTDOWN'') \<in> set (out (stop sample_lib True (sample_linked 10 ''5'')))"
proof -
  have c: "0 \<in> set (connections (sample_linked 10 ''5''))" "c_kind (obj (sample_linked 10 ''5'') 0) = Remote_conn"
    by code_simp+
  have "f_server_name (sample_linked 10 ''5'') = ''alpha''" by code_simp
  then have g: "going_down (sample_linked 10 ''5'') True = daemon_message ''alpha'' ''SHUTDOWN''"
    by (simp add: going_down_def)
  have "daemon_inv (sample_linked 10 ''5'')"
    using sample_linked_reachable no_other_keeps by (rule reachable_inv)
  from stop_tells_daemons [OF this, of sample_lib True] show ?thesis using c g by auto
qed

text \<open>
  A connection of another daemon that is down is removed while the daemon stops, which starts a gossip
  connection anew after all gossiping was stopped.
\<close>

lemma stop_gossips_again:
  "f_gossip_ips (stop sample_lib False (sample_daemon [(sample_conn Service_conn ''in'' 20 {})
     \<lparr>f_type := Down, f_remote_connection := True\<rparr>])) \<noteq> []"
  by code_simp

end
