(* ===== verification/Links.thy ===== *)
theory Links
  imports System
begin

text \<open>
  The timing of the links between daemons: the failures of a connection that are counted before the
  administrator is warned, and the pauses between two GOSSIP messages.
\<close>

section \<open>Failures of a connection\<close>

text \<open>Failures in a row, at the given times.\<close>

definition count_failures :: "int list \<Rightarrow> 'a conn \<Rightarrow> 'a conn" where
  "count_failures ts c = foldl (\<lambda>c t. count_failure t c) c ts"

text \<open>
  The number of failures in a row is exact up to the largest \<open>int\<close> and never wraps around, and the
  time kept is that of the first of them, whenever the connection had succeeded before or is new.
\<close>

theorem count_failures_exact:
  assumes "f_failures c \<le> 0"
  shows "f_failures (count_failures (t # ts) c) = min (int (length (t # ts))) int_max \<and>
    f_failure_start_time (count_failures (t # ts) c) = t"
proof -
  have "f_failures (count_failures ts c) = min (n + int (length ts)) int_max \<and>
      f_failure_start_time (count_failures ts c) = s"
    if "f_failures c = min n int_max" "f_failure_start_time c = s" "0 < n" for c :: "'a conn" and n s
    using that
  proof (induction ts arbitrary: c n)
    case Nil
    then show ?case by (simp add: count_failures_def)
  next
    case (Cons t' ts)
    have "f_failures (count_failure t' c) = min (n + 1) int_max \<and> f_failure_start_time (count_failure t' c) = s"
      using Cons.prems by (auto simp: count_failure_def int_max_def min_def)
    with Cons.IH [of "count_failure t' c" "n + 1"] Cons.prems show ?case
      by (simp add: count_failures_def algebra_simps)
  qed
  from this [of "count_failure t c" 1 t] assms show ?thesis
    by (simp add: count_failures_def count_failure_def int_max_def)
qed

theorem count_failures_exact_witness:
  "f_failures (count_failures [10, 70, 130] (blank_conn sample_lib Remote_conn)) = 3"
  using count_failures_exact [of "blank_conn sample_lib Remote_conn" 10 "[70, 130]"]
  by (simp add: blank_conn_def int_max_def)

lemma broadcast_new_obj [simp]:
  assumes "\<not> has_parameter msg ''broadcast_msgid''"
  shows "obj (broadcast_new L msg acc d) = obj d" "now (broadcast_new L msg acc d) = now d"
  by (rule broadcast_new_fresh [OF assms, of L acc d]; simp)+

lemma hangup_fresh [simp]: "\<not> has_parameter (hangup_message s) ''broadcast_msgid''"
  by (simp add: hangup_message_def has_parameter_def new_message_def)

lemma upd_conn_same [simp]: "obj (upd_conn i f d) i = f (obj d i)"
  by (simp add: upd_conn_def)

lemma upd_conn_now [simp]: "now (upd_conn i f d) = now d" "out (upd_conn i f d) = out d"
  by (simp_all add: upd_conn_def)

text \<open>
  The flag that warns of a failing connection goes up at the failure that makes it at least 20 in
  a row and more than an hour, and not again until the connection succeeds; success resets the count
  and takes the flag down.
\<close>

theorem failure_flag:
  "(f_flagged (obj (remote_process_connection_failed L (lib_link False s e) i d) i) \<longleftrightarrow>
      f_flagged (obj d i) \<or>
      20 \<le> f_failures (count_failure (now d) (obj d i)) \<and>
      60 * 60 < now d - f_failure_start_time (count_failure (now d) (obj d i))) \<and>
   f_failures (obj (remote_process_connection_failed L (lib_link False s e) i d) i) =
      f_failures (count_failure (now d) (obj d i)) \<and>
   f_failures (obj (remote_process_connected L (lib_link True s e) i d) i) = 0 \<and>
   \<not> f_flagged (obj (remote_process_connected L (lib_link True s e) i d) i)"
proof -
  let ?d1 = "lib_link False s e i d"
  let ?h = "hangup_message (f_own_server_name (obj ?d1 i))"
  let ?d2 = "if f_connected (obj ?d1 i) \<and> f_own_server_name (obj ?d1 i) \<noteq> []
    then broadcast_new L ?h [] (upd_conn i (\<lambda>c. c\<lparr>f_connected := False\<rparr>) ?d1) else ?d1"
  have n: "now ?d2 = now d" by (simp add: lib_link_def)
  have c: "f_failures (obj ?d2 i) = f_failures (obj d i)"
    "f_failure_start_time (obj ?d2 i) = f_failure_start_time (obj d i)" "f_flagged (obj ?d2 i) = f_flagged (obj d i)"
    by (simp_all add: lib_link_def)
  have f: "f_failures (count_failure t (obj ?d2 i)) = f_failures (count_failure t (obj d i))"
    "f_failure_start_time (count_failure t (obj ?d2 i)) = f_failure_start_time (count_failure t (obj d i))"
    "f_flagged (count_failure t (obj ?d2 i)) = f_flagged (obj d i)" for t
    unfolding count_failure_def using c by (simp_all split: if_splits)
  let ?d3 = "upd_conn i (count_failure (now ?d2)) ?d2"
  have failed: "remote_process_connection_failed L (lib_link False s e) i d =
    (if \<not> f_flagged (obj ?d3 i) \<and> 20 \<le> f_failures (obj ?d3 i) \<and>
        60 * 60 < now ?d3 - f_failure_start_time (obj ?d3 i)
     then emit (Flag_raised ''communicatord'' ''remote-connection'' ''connection-failed'' 95
             [''security'', ''data-leak'', ''network'']) (upd_conn i (\<lambda>c. c\<lparr>f_flagged := True\<rparr>) ?d3)
     else ?d3)"
    by (simp only: remote_process_connection_failed_def Let_def)
  have sent: "f_failures (obj (process_connected L i d') i) = f_failures (obj d' i)"
    "f_flagged (obj (process_connected L i d') i) = f_flagged (obj d' i)" for d' :: "'a daemon"
    by (simp_all add: process_connected_def Let_def frame_simps)
  have "f_failures (obj (remote_process_connected L (lib_link True s e) i d) i) = 0 \<and>
      \<not> f_flagged (obj (remote_process_connected L (lib_link True s e) i d) i)"
    by (auto simp: remote_process_connected_def Let_def sent lib_link_def frame_simps)
  then show ?thesis unfolding failed by (simp add: f n frame_simps) blast
qed

section \<open>Pauses between GOSSIP messages\<close>

definition gossip_timeouts :: "nat \<Rightarrow> bool \<Rightarrow> int \<Rightarrow> bool \<Rightarrow> cid \<Rightarrow> 'a daemon \<Rightarrow> 'a daemon" where
  "gossip_timeouts n c s e i = (gossip_process_timeout (lib_link c s e) i ^^ n)"

text \<open>
  The pause before the next GOSSIP doubles at each time out until it is the maximum, and then
  stays there; the maximum is never exceeded, and the timer of the connection is set to the pause.
\<close>

theorem gossip_backoff:
  assumes "0 \<le> f_wait (obj d i)" and "0 \<le> g_max_gossip_timeout d"
  shows "f_wait (obj (gossip_timeouts (Suc n) c s e i d) i) =
    min (2 ^ Suc n * f_wait (obj d i)) (g_max_gossip_timeout d)"
proof -
  have step: "f_wait (obj (gossip_process_timeout (lib_link c s e) i d) i) =
      min (2 * f_wait (obj d i)) (g_max_gossip_timeout d) \<and>
      g_max_gossip_timeout (gossip_process_timeout (lib_link c s e) i d) = g_max_gossip_timeout d"
    for d :: "'a daemon"
    by (auto simp: gossip_process_timeout_def lib_link_def upd_conn_def Let_def mult.commute)
  have "f_wait (obj (gossip_timeouts (Suc n) c s e i d) i) =
      min (2 ^ Suc n * f_wait (obj d i)) (g_max_gossip_timeout d) \<and>
      g_max_gossip_timeout (gossip_timeouts (Suc n) c s e i d) = g_max_gossip_timeout d"
  proof (induction n)
    case 0
    show ?case using step [of d] by (simp add: gossip_timeouts_def)
  next
    case (Suc n)
    let ?d = "gossip_timeouts (Suc n) c s e i d"
    have "gossip_timeouts (Suc (Suc n)) c s e i d = gossip_process_timeout (lib_link c s e) i ?d"
      by (simp add: gossip_timeouts_def)
    then show ?case using step [of ?d] Suc assms by (auto simp: min_def)
  qed
  then show ?thesis by blast
qed

definition sample_gossip :: "int daemon" where
  "sample_gossip = sample_daemon [blank_conn sample_lib Gossip_conn]"

theorem gossip_backoff_witness:
  "f_wait (obj (gossip_timeouts (Suc 0) False 0 True 0 sample_gossip) 0) = 10000000"
proof -
  have "0 \<le> f_wait (obj sample_gossip 0)" "0 \<le> g_max_gossip_timeout sample_gossip"
    "f_wait (obj sample_gossip 0) = 5000000" "g_max_gossip_timeout sample_gossip = 3600000000" by code_simp+
  with gossip_backoff [of sample_gossip 0 0 False 0 True] show ?thesis by simp
qed

end
