(* ===== verification/Flags.thy ===== *)
theory Flags
  imports Message "HOL-Library.Word" "HOL-Library.Char_ord" "HOL-Library.List_Lexorder"
begin

text \<open>
  The flags of communicator/flags.cpp: a process that detects a problem raises a flag, which is a file
  that stays until the flag is lowered.

  A flag file is a configuration file of advgetopt, whose code is not in the repository: the record
  \<open>conf_lib\<close> has the functions the class calls (\<open>get_conf_file\<close> on a file that is there or not,
  \<open>has_parameter\<close>, \<open>get_parameter\<close>, \<open>set_parameter\<close>), and \<open>conf_laws\<close> says what they document.
  The answers of the system calls are the record \<open>flag_env\<close>; the flag files and the commands that were
  started are the state \<open>flag_world\<close>.
\<close>

section \<open>Reading a number: std::stol\<close>

definition is_space :: "char \<Rightarrow> bool" where
  "is_space c \<longleftrightarrow> c \<in> {CHR '' '', CHR 0x09, CHR 0x0A, CHR 0x0B, CHR 0x0C, CHR 0x0D}"

definition is_digit :: "char \<Rightarrow> bool" where
  "is_digit c \<longleftrightarrow> 48 \<le> (of_char c :: nat) \<and> (of_char c :: nat) \<le> 57"

definition stol :: "string \<Rightarrow> int option" where
  "stol s =
     (let r = dropWhile is_space s;
          neg = (r \<noteq> [] \<and> hd r = CHR ''-'');
          ds = takeWhile is_digit (if r \<noteq> [] \<and> hd r \<in> {CHR ''-'', CHR ''+''} then tl r else r)
      in if ds = [] then None
         else (case undec_digits 0 ds of
                 None \<Rightarrow> None
               | Some n \<Rightarrow>
                   let v = (if neg then - int n else int n)
                   in if - (2 ^ 63) \<le> v \<and> v < 2 ^ 63 then Some v else None))"

lemma dec_nat_digits: "list_all is_digit (dec_nat n)"
proof (induction n rule: dec_nat.induct)
  case (1 n)
  then show ?case
    by (cases "n < 10") (simp_all add: dec_nat.simps [of n] is_digit_def of_char_digit)
qed

lemma digit_not_space: "is_digit c \<Longrightarrow> \<not> is_space c \<and> c \<noteq> CHR ''-'' \<and> c \<noteq> CHR ''+''"
  by (auto simp: is_digit_def is_space_def)

lemma stol_dec_string:
  assumes "- (2 ^ 63) \<le> i" and "i < 2 ^ 63"
  shows "stol (dec_string i) = Some i"
proof -
  have ne: "dec_nat n \<noteq> []" and dig: "is_digit (hd (dec_nat n))" for n
    using dec_nat_nonempty [of n] dec_nat_digits [of n] by (cases "dec_nat n"; simp)+
  have t: "takeWhile is_digit (dec_nat n) = dec_nat n" for n
    using dec_nat_digits [of n] by (simp add: list_all_iff)
  have d: "dropWhile is_space (dec_nat n) = dec_nat n" for n
    using ne [of n] dig [of n] digit_not_space by (cases "dec_nat n") auto
  have m: "\<not> is_space (CHR ''-'')" by (simp add: is_space_def)
  have h: "hd (dec_nat n) \<noteq> CHR ''-''" "hd (dec_nat n) \<noteq> CHR ''+''" for n
    using dig [of n] digit_not_space by auto
  show ?thesis
    using assms by (auto simp: stol_def dec_string_def Let_def t d m h ne undec_dec_nat)
qed

section \<open>Names\<close>

definition is_upper :: "char \<Rightarrow> bool" where
  "is_upper c \<longleftrightarrow> 65 \<le> (of_char c :: nat) \<and> (of_char c :: nat) \<le> 90"

definition is_lower :: "char \<Rightarrow> bool" where
  "is_lower c \<longleftrightarrow> 97 \<le> (of_char c :: nat) \<and> (of_char c :: nat) \<le> 122"

text \<open>\<open>c |= 0x20\<close> on a letter in upper case.\<close>

definition lower :: "char \<Rightarrow> char" where
  "lower c = char_of ((of_char c :: nat) + 32)"

text \<open>The loop of \<open>valid_name\<close>, with its variables \<open>first\<close> and \<open>last_char\<close>; it returns the name it wrote.\<close>

fun valid_name_loop :: "bool \<Rightarrow> char \<Rightarrow> string \<Rightarrow> exn + string" where
  "valid_name_loop first last_char [] = (if last_char = CHR ''-'' then Inl Invalid_name else Inr [])"
| "valid_name_loop first last_char (c # cs) =
     (if c = CHR ''-'' then
        if first then Inl Invalid_name
        else if last_char = CHR ''-'' then Inl Invalid_name
        else map_sum id (Cons c) (valid_name_loop False c cs)
      else if is_digit c then
        if first then Inl Invalid_name
        else map_sum id (Cons c) (valid_name_loop False c cs)
      else if is_upper c then map_sum id (Cons (lower c)) (valid_name_loop False (lower c) cs)
      else if \<not> is_lower c then Inl Invalid_name
      else map_sum id (Cons c) (valid_name_loop False c cs))"

definition valid_name :: "string \<Rightarrow> exn + string" where
  "valid_name name = (if name = [] then Inl Invalid_name else valid_name_loop True (CHR 0x00) name)"

section \<open>A flag\<close>

datatype state_t = STATE_UP | STATE_DOWN

record flag =
  f_state :: state_t
  f_unit :: string
  f_section :: string
  f_name :: string
  f_filename :: string
  f_source_file :: string
  f_function :: string
  f_line :: "32 word"
  f_column :: "32 word"
  f_message :: string
  f_priority :: int
  f_manual_down :: bool
  f_from_raise_flag :: bool
  f_date :: int
  f_modified :: int
  f_tags :: "string set"
  f_hostname :: string
  f_count :: int
  f_version :: string

definition default_flag :: flag where
  "default_flag = \<lparr>f_state = STATE_UP, f_unit = [], f_section = [], f_name = [], f_filename = [],
     f_source_file = [], f_function = [], f_line = 0, f_column = 0, f_message = [], f_priority = 5,
     f_manual_down = False, f_from_raise_flag = False, f_date = - 1, f_modified = - 1, f_tags = {},
     f_hostname = [], f_count = 0, f_version = []\<rparr>"

text \<open>A \<open>std::source_location\<close>.\<close>

record location =
  l_file :: string
  l_function :: string
  l_line :: "32 word"
  l_column :: "32 word"

definition new_flag :: "int \<Rightarrow> string \<Rightarrow> string \<Rightarrow> string \<Rightarrow> location \<Rightarrow> exn + flag" where
  "new_flag t unit section name loc =
     (case valid_name unit of Inl e \<Rightarrow> Inl e | Inr u \<Rightarrow>
      (case valid_name section of Inl e \<Rightarrow> Inl e | Inr s \<Rightarrow>
       (case valid_name name of Inl e \<Rightarrow> Inl e | Inr n \<Rightarrow>
         Inr (default_flag\<lparr>f_unit := u, f_section := s, f_name := n, f_source_file := l_file loc,
                f_function := l_function loc, f_line := l_line loc, f_column := l_column loc,
                f_date := t\<rparr>))))"

definition set_from_raise_flag :: "flag \<Rightarrow> flag" where
  "set_from_raise_flag f = f\<lparr>f_from_raise_flag := True\<rparr>"

definition set_state :: "state_t \<Rightarrow> flag \<Rightarrow> flag" where
  "set_state s f = f\<lparr>f_state := s\<rparr>"

definition set_source_file :: "string \<Rightarrow> flag \<Rightarrow> flag" where
  "set_source_file s f = f\<lparr>f_source_file := s\<rparr>"

definition set_function :: "string \<Rightarrow> flag \<Rightarrow> flag" where
  "set_function s f = f\<lparr>f_function := s\<rparr>"

definition set_line :: "32 word \<Rightarrow> flag \<Rightarrow> flag" where
  "set_line n f = f\<lparr>f_line := n\<rparr>"

definition set_column :: "32 word \<Rightarrow> flag \<Rightarrow> flag" where
  "set_column n f = f\<lparr>f_column := n\<rparr>"

definition set_message :: "string \<Rightarrow> flag \<Rightarrow> flag" where
  "set_message s f = f\<lparr>f_message := s\<rparr>"

definition set_priority :: "int \<Rightarrow> flag \<Rightarrow> flag" where
  "set_priority priority f =
     (if priority < 0 then f\<lparr>f_priority := 0\<rparr>
      else if priority > 100 then f\<lparr>f_priority := 100\<rparr>
      else f\<lparr>f_priority := priority\<rparr>)"

definition set_manual_down :: "bool \<Rightarrow> flag \<Rightarrow> flag" where
  "set_manual_down b f = f\<lparr>f_manual_down := b\<rparr>"

definition add_tag :: "string \<Rightarrow> flag \<Rightarrow> flag" where
  "add_tag t f = f\<lparr>f_tags := insert t (f_tags f)\<rparr>"

section \<open>Outside: configuration files and the system\<close>

record 'c conf_lib =
  conf_open :: "'c option \<Rightarrow> 'c"
  conf_has :: "'c \<Rightarrow> string \<Rightarrow> bool"
  conf_get :: "'c \<Rightarrow> string \<Rightarrow> string"
  conf_set :: "string \<Rightarrow> string \<Rightarrow> 'c \<Rightarrow> 'c"

datatype stat_result = Stat_dir | Stat_other | Stat_enoent | Stat_error

text \<open>
  The answers of the system, with \<open>can_unlink\<close> and \<open>can_save\<close> for the current user (\<open>False\<close>) or the
  user that \<open>as_root\<close> switched to (\<open>True\<close>). \<open>as_root_user\<close> is \<open>None\<close> when the user is unknown.
\<close>

record 'c flag_env =
  e_config :: 'c
  e_time :: int
  e_stat :: "string \<Rightarrow> stat_result"
  e_mkdir_p :: "string \<Rightarrow> bool"
  e_stat_again :: "string \<Rightarrow> stat_result"
  e_stack_is_dir :: bool
  e_euid :: nat
  e_getpwuid :: "string option"
  as_root_user :: "string \<Rightarrow> bool option"
  can_unlink :: "bool \<Rightarrow> string \<Rightarrow> bool"
  can_save :: "bool \<Rightarrow> string \<Rightarrow> bool"
  e_start :: "string list \<Rightarrow> int"
  e_wait :: "string list \<Rightarrow> int"
  e_loop_is_running :: bool
  e_hostname :: string
  e_version :: string
  e_glob :: "string \<Rightarrow> string list"

record 'c flag_world =
  w_files :: "string \<Rightarrow> 'c option"
  w_commands :: "string list list"
  g_path_to_flag_files :: string

definition get_config_param :: "'c conf_lib \<Rightarrow> 'c flag_env \<Rightarrow> string \<Rightarrow> string \<Rightarrow> string" where
  "get_config_param C E name default_value =
     (if conf_has C (e_config E) name then conf_get C (e_config E) name else default_value)"

text \<open>
  When the directory is created and then cannot be read, the code goes on with the structure that
  \<open>stat\<close> did not fill: \<open>e_stack_is_dir\<close> is what it happens to hold.
\<close>

definition get_path_to_flag_files :: "'c conf_lib \<Rightarrow> 'c flag_env \<Rightarrow> 'c flag_world \<Rightarrow> string \<times> 'c flag_world" where
  "get_path_to_flag_files C E w =
     (if g_path_to_flag_files w \<noteq> [] then (g_path_to_flag_files w, w)
      else
        let path = get_config_param C E ''path'' ''/var/lib/communicator/flags'';
            is_dir = (case e_stat E path of
                Stat_dir \<Rightarrow> True
              | Stat_other \<Rightarrow> False
              | Stat_error \<Rightarrow> False
              | Stat_enoent \<Rightarrow>
                  e_mkdir_p E path \<and>
                  (case e_stat_again E path of
                     Stat_dir \<Rightarrow> True
                   | Stat_other \<Rightarrow> False
                   | _ \<Rightarrow> e_stack_is_dir E))
        in if is_dir then (path, w\<lparr>g_path_to_flag_files := path\<rparr>) else ([], w))"

text \<open>The member is mutable: the first call sets it.\<close>

definition get_filename :: "'c conf_lib \<Rightarrow> 'c flag_env \<Rightarrow> flag \<Rightarrow> 'c flag_world \<Rightarrow> string \<times> flag \<times> 'c flag_world" where
  "get_filename C E f w =
     (if f_filename f \<noteq> [] then (f_filename f, f, w)
      else
        let (path, w1) = get_path_to_flag_files C E w;
            filename = (if path \<noteq> []
                        then path @ ''/'' @ f_unit f @ ''_'' @ f_section f @ ''_'' @ f_name f @ ''.flag''
                        else [])
        in (filename, f\<lparr>f_filename := filename\<rparr>, w1))"

section \<open>Loading a flag\<close>

text \<open>\<open>std::stol\<close> of a parameter: it throws on text that is no number or does not fit a long.\<close>

definition get_long :: "'c conf_lib \<Rightarrow> 'c \<Rightarrow> string \<Rightarrow> exn + int" where
  "get_long C file k = (case stol (conf_get C file k) of None \<Rightarrow> Inl (Not_an_integer k) | Some i \<Rightarrow> Inr i)"

text \<open>An optional number: the member keeps its default when the parameter is not in the file.\<close>

definition optional_long :: "'c conf_lib \<Rightarrow> 'c \<Rightarrow> string \<Rightarrow> (int \<Rightarrow> flag \<Rightarrow> flag) \<Rightarrow> flag \<Rightarrow> exn + flag" where
  "optional_long C file k set_field f =
     (if conf_has C file k
      then (case get_long C file k of Inl e \<Rightarrow> Inl e | Inr i \<Rightarrow> Inr (set_field i f))
      else Inr f)"

definition optional_string :: "'c conf_lib \<Rightarrow> 'c \<Rightarrow> string \<Rightarrow> (string \<Rightarrow> flag \<Rightarrow> flag) \<Rightarrow> flag \<Rightarrow> flag" where
  "optional_string C file k set_field f =
     (if conf_has C file k then set_field (conf_get C file k) f else f)"

definition load_tags :: "('a, 'z) lib_scheme \<Rightarrow> string \<Rightarrow> string set" where
  "load_tags L tags = tokens L {} tags '','' True [CHR '' '', CHR 0x0A, CHR 0x0D, CHR 0x09]"

definition load_flag :: "('a, 'z) lib_scheme \<Rightarrow> 'c conf_lib \<Rightarrow> 'c flag_env \<Rightarrow> 'c flag_world \<Rightarrow> string \<Rightarrow> exn + flag" where
  "load_flag L C E w filename =
     (if filename = [] then Inl Invalid_parameter
      else
        let file = conf_open C (w_files w filename);
            time_now = e_time E
        in if \<not> conf_has C file ''unit'' \<or> \<not> conf_has C file ''section'' \<or>
              \<not> conf_has C file ''name'' \<or> \<not> conf_has C file ''message''
           then Inl Invalid_parameter
           else
             let f0 = default_flag\<lparr>f_filename := filename, f_unit := conf_get C file ''unit'',
                        f_section := conf_get C file ''section'', f_name := conf_get C file ''name''\<rparr>;
                 f1 = optional_string C file ''source_file'' set_source_file f0;
                 f2 = optional_string C file ''function'' set_function f1
             in
             (case optional_long C file ''line'' (\<lambda>i. set_line (word_of_int i)) f2 of Inl e \<Rightarrow> Inl e | Inr f3 \<Rightarrow>
             (case optional_long C file ''priority'' (\<lambda>i f. f\<lparr>f_priority := to_int32 i\<rparr>)
                     (f3\<lparr>f_message := conf_get C file ''message''\<rparr>) of Inl e \<Rightarrow> Inl e | Inr f4 \<Rightarrow>
             let f5 = optional_string C file ''manual_down'' (\<lambda>s. set_manual_down (s = ''yes'')) f4 in
             (case optional_long C file ''date'' (\<lambda>i f. f\<lparr>f_date := i\<rparr>) (f5\<lparr>f_date := time_now\<rparr>)
                of Inl e \<Rightarrow> Inl e | Inr f6 \<Rightarrow>
             (case optional_long C file ''modified'' (\<lambda>i f. f\<lparr>f_modified := i\<rparr>) (f6\<lparr>f_modified := time_now\<rparr>)
                of Inl e \<Rightarrow> Inl e | Inr f7 \<Rightarrow>
             let f8 = optional_string C file ''tags'' (\<lambda>s f. f\<lparr>f_tags := f_tags f \<union> load_tags L s\<rparr>) f7;
                 f9 = optional_string C file ''hostname'' (\<lambda>s f. f\<lparr>f_hostname := s\<rparr>) f8
             in
             (case optional_long C file ''count'' (\<lambda>i f. f\<lparr>f_count := to_int32 i\<rparr>) f9
                of Inl e \<Rightarrow> Inl e | Inr f10 \<Rightarrow>
             Inr (optional_string C file ''version'' (\<lambda>s f. f\<lparr>f_version := s\<rparr>) f10)))))))"

definition FLAGS_LIMIT :: nat where
  "FLAGS_LIMIT = 100"

definition too_many_flags :: "int \<Rightarrow> location \<Rightarrow> string \<Rightarrow> exn + flag" where
  "too_many_flags t loc path =
     map_sum id (\<lambda>f. add_tag ''too-many'' (add_tag ''flag'' (set_priority 97 (set_message
         (''too many flags were raised, showing only the first 100,'' @
          '' others can be viewed on this system at '' @ [CHR 0x22] @ path @ [CHR 0x22]) f))))
       (new_flag t ''communicator'' ''flag'' ''too-many-flags'' loc)"

fun load_flag_files :: "('a, 'z) lib_scheme \<Rightarrow> 'c conf_lib \<Rightarrow> 'c flag_env \<Rightarrow> 'c flag_world \<Rightarrow> location \<Rightarrow> string
    \<Rightarrow> flag list \<Rightarrow> string list \<Rightarrow> exn + flag list" where
  "load_flag_files L C E w loc path result [] = Inr result"
| "load_flag_files L C E w loc path result (filename # filenames) =
     (if length result \<ge> FLAGS_LIMIT
      then map_sum id (\<lambda>f. result @ [f]) (too_many_flags (e_time E) loc path)
      else (case load_flag L C E w filename of
              Inl e \<Rightarrow> Inl e
            | Inr f \<Rightarrow> load_flag_files L C E w loc path (result @ [f]) filenames))"

definition load_flags :: "('a, 'z) lib_scheme \<Rightarrow> 'c conf_lib \<Rightarrow> 'c flag_env \<Rightarrow> location \<Rightarrow> 'c flag_world
    \<Rightarrow> (exn + flag list) \<times> 'c flag_world" where
  "load_flags L C E loc w =
     (let (path, w1) = get_path_to_flag_files C E w
      in if path = [] then (Inr [], w1)
         else (load_flag_files L C E w1 loc path [] (e_glob E (path @ ''/*.flag'')), w1))"

section \<open>Saving a flag\<close>

text \<open>\<open>unlink\<close>; the removal of a file that is not there works.\<close>

definition remove_file :: "'c flag_env \<Rightarrow> bool \<Rightarrow> string \<Rightarrow> 'c flag_world \<Rightarrow> bool \<times> 'c flag_world" where
  "remove_file E switched filename w =
     (if can_unlink E switched filename then (True, w\<lparr>w_files := (w_files w)(filename := None)\<rparr>)
      else (False, w))"

text \<open>The command line of the raise-flag tool for a flag.\<close>

definition raise_flag_arguments :: "string \<Rightarrow> string \<Rightarrow> flag \<Rightarrow> string list" where
  "raise_flag_arguments communicator_user communicator_group f =
     [''--user'', communicator_user, ''--group'', communicator_group] @
     (if f_source_file f \<noteq> [] then [''--source-file'', f_source_file f] else []) @
     (if f_function f \<noteq> [] then [''--function'', f_function f] else []) @
     (if f_line f \<noteq> 0 then [''--line'', dec_string (uint (f_line f))] else []) @
     (if f_priority f \<noteq> 5 then [''--priority'', dec_string (f_priority f)] else []) @
     (if f_manual_down f then [''--manual''] else []) @
     (if f_tags f \<noteq> {} then ''--tags'' # sorted_list_of_set (f_tags f) else []) @
     (if f_state f = STATE_UP then [''--up''] else [''--down'']) @
     [f_unit f, f_section f, f_name f] @
     (if f_state f = STATE_UP \<and> f_message f \<noteq> [] then [f_message f] else [])"

definition run_raise_flag :: "'c flag_env \<Rightarrow> string list \<Rightarrow> 'c flag_world \<Rightarrow> bool \<times> 'c flag_world" where
  "run_raise_flag E args w =
     (if e_start E args \<noteq> 0 then (False, w)
      else
        let w1 = w\<lparr>w_commands := w_commands w @ [''raise-flag'' # args]\<rparr>
        in if \<not> e_loop_is_running E then (e_wait E args = 0, w1) else (True, w1))"

text \<open>The parameters \<open>save\<close> sets on the file of a flag that is up.\<close>

definition set_optional :: "'c conf_lib \<Rightarrow> bool \<Rightarrow> string \<Rightarrow> string \<Rightarrow> 'c \<Rightarrow> 'c" where
  "set_optional C b k v file = (if b then conf_set C k v file else file)"

definition flag_parameters :: "('a, 'z) lib_scheme \<Rightarrow> 'c conf_lib \<Rightarrow> 'c flag_env \<Rightarrow> bool \<Rightarrow> flag \<Rightarrow> 'c \<Rightarrow> 'c" where
  "flag_parameters L C E has_date f file =
     (let file = conf_set C ''unit'' (f_unit f) file;
          file = conf_set C ''section'' (f_section f) file;
          file = conf_set C ''name'' (f_name f) file;
          file = conf_set C ''message'' (f_message f) file;
          file = conf_set C ''priority'' (dec_string (f_priority f)) file;
          file = conf_set C ''manual_down'' (if f_manual_down f then ''yes'' else ''no'') file;
          file = conf_set C ''modified'' (dec_string (e_time E)) file;
          file = conf_set C ''hostname'' (e_hostname E) file;
          file = conf_set C ''version'' (e_version E) file;
          file = set_optional C (f_function f \<noteq> []) ''function'' (f_function f) file;
          file = set_optional C (f_line f > 0) ''line'' (dec_string (uint (f_line f))) file;
          file = set_optional C (f_source_file f \<noteq> []) ''source_file'' (f_source_file f) file;
          file = set_optional C (\<not> has_date) ''date'' (dec_string (f_date f)) file
      in set_optional C (f_tags f \<noteq> {}) ''tags'' (join_strings L (f_tags f) '','') file)"

text \<open>The addition is the one of \<open>long\<close>.\<close>

definition to_int64 :: "int \<Rightarrow> int" where
  "to_int64 i = (i + 2 ^ 63) mod 2 ^ 64 - 2 ^ 63"

definition save_up :: "('a, 'z) lib_scheme \<Rightarrow> 'c conf_lib \<Rightarrow> 'c flag_env \<Rightarrow> bool \<Rightarrow> string \<Rightarrow> flag
    \<Rightarrow> 'c flag_world \<Rightarrow> ('c flag_world, bool) res" where
  "save_up L C E switched filename f w =
     (let file = conf_open C (w_files w filename);
          exists = (w_files w filename \<noteq> None);
          has_date = (exists \<and> conf_has C file ''date'');
          has_count = (exists \<and> conf_has C file ''count'');
          file1 = flag_parameters L C E has_date f file
      in case (if has_count then map_sum id (\<lambda>n. dec_string (to_int64 (n + 1))) (get_long C file1 ''count'')
               else Inr ''1'') of
           Inl e \<Rightarrow> Raise e w
         | Inr count \<Rightarrow>
             let file2 = conf_set C ''count'' count file1
             in if can_save E switched filename
                then Ret True (w\<lparr>w_files := (w_files w)(filename := Some file2)\<rparr>)
                else Ret False w)"

text \<open>The end of \<open>save\<close>, as the user \<open>communicator\<close>, as root, or switched.\<close>

definition save_file :: "('a, 'z) lib_scheme \<Rightarrow> 'c conf_lib \<Rightarrow> 'c flag_env \<Rightarrow> bool \<Rightarrow> string \<Rightarrow> flag
    \<Rightarrow> 'c flag_world \<Rightarrow> ('c flag_world, bool) res" where
  "save_file L C E switched filename f w =
     (if f_state f = STATE_UP then save_up L C E switched filename f w
      else Ret True (snd (remove_file E switched filename w)))"

definition config_or_default :: "'c conf_lib \<Rightarrow> 'c flag_env \<Rightarrow> string \<Rightarrow> string" where
  "config_or_default C E name =
     (let v = get_config_param C E name ''communicator'' in if v = [] then ''communicator'' else v)"

definition save :: "('a, 'z) lib_scheme \<Rightarrow> 'c conf_lib \<Rightarrow> 'c flag_env \<Rightarrow> flag \<Rightarrow> 'c flag_world
    \<Rightarrow> ('c flag_world, bool) res" where
  "save L C E f0 w0 =
     (let (filename, f, w) = get_filename C E f0 w0 in
      if filename = [] then Ret False w
      else
        let communicator_user = config_or_default C E ''user'';
            communicator_group = config_or_default C E ''group''
        in if e_euid E = 0 then save_file L C E False filename f w
           else
             let (removed, w1) = (if f_state f = STATE_DOWN then remove_file E False filename w else (False, w))
             in if removed then Ret True w1
                else
                  (case e_getpwuid E of
                     None \<Rightarrow> Ret False w1
                   | Some pw_name \<Rightarrow>
                       if pw_name = communicator_user then save_file L C E False filename f w1
                       else if f_from_raise_flag f then Ret False w1
                       else
                         (case as_root_user E communicator_user of
                            None \<Rightarrow> Ret False w1
                          | Some True \<Rightarrow> save_file L C E True filename f w1
                          | Some False \<Rightarrow>
                              let (r, w2) = run_raise_flag E
                                    (raise_flag_arguments communicator_user communicator_group f) w1
                              in Ret r w2)))"

text \<open>The text of a flag in the logs; printing the date is the library's.\<close>

definition flag_to_string :: "(int \<Rightarrow> string) \<Rightarrow> flag \<Rightarrow> string" where
  "flag_to_string show_date f =
     (let down = (f_state f = STATE_DOWN);
          no_message = (f_message f = [])
      in show_date (f_modified f) @ '': '' @ (if down then ''un'' else []) @ ''flag('' @ f_unit f @ ''/'' @
         f_section f @ ''/'' @ f_name f @ ''):'' @ f_source_file f @ '':'' @ f_function f @ '':'' @
         dec_string (uint (f_line f)) @ '': '' @
         (if down \<and> no_message then ''unflag error'' else f_message f) @
         '' (priority: '' @ dec_string (f_priority f) @ (if f_manual_down f then '', manual-down'' else []) @
         '', count: '' @ dec_string (to_int32 (f_count f + 1)) @ '')'')"

end
