(* ===== verification/Flag_Names.thy ===== *)
theory Flag_Names
  imports Flags
begin

text \<open>
  The names of flags: what \<open>valid_name\<close> accepts, and that different flags have different files.
\<close>

section \<open>The names that are accepted\<close>

text \<open>The parts of a name between its dashes.\<close>

fun dash_parts :: "string \<Rightarrow> string list" where
  "dash_parts [] = [[]]"
| "dash_parts (c # cs) =
     (if c = CHR ''-'' then [] # dash_parts cs
      else (c # hd (dash_parts cs)) # tl (dash_parts cs))"

definition alphanumeric :: "char \<Rightarrow> bool" where
  "alphanumeric c \<longleftrightarrow> is_lower c \<or> is_digit c"

text \<open>
  The names of the documentation: words of letters and digits with one dash between two words, and a
  letter first.
\<close>

definition flag_name :: "string \<Rightarrow> bool" where
  "flag_name n \<longleftrightarrow> n \<noteq> [] \<and> is_lower (hd n) \<and>
     list_all (\<lambda>w. w \<noteq> [] \<and> list_all alphanumeric w) (dash_parts n)"

definition to_lower :: "char \<Rightarrow> char" where
  "to_lower c = (if is_upper c then lower c else c)"

lemma lower_is_lower: "is_upper c \<Longrightarrow> is_lower (lower c)"
  by (auto simp: is_upper_def is_lower_def lower_def)

lemma char_classes:
  "is_upper c \<Longrightarrow> \<not> is_lower c \<and> \<not> is_digit c \<and> c \<noteq> CHR ''-''"
  "is_lower c \<Longrightarrow> \<not> is_digit c \<and> c \<noteq> CHR ''-''"
  "is_digit c \<Longrightarrow> c \<noteq> CHR ''-''"
  by (auto simp: is_upper_def is_lower_def is_digit_def)

lemma to_lower_classes:
  "to_lower c = CHR ''-'' \<longleftrightarrow> c = CHR ''-''"
  "is_digit (to_lower c) \<longleftrightarrow> is_digit c"
  "is_lower (to_lower c) \<longleftrightarrow> is_lower c \<or> is_upper c"
  "\<not> is_upper c \<Longrightarrow> to_lower c = c"
proof -
  have d: "\<not> is_upper (CHR ''-'')" by (simp add: is_upper_def)
  have u: "is_upper c \<Longrightarrow> to_lower c = lower c \<and> is_lower (lower c) \<and> \<not> is_digit (lower c) \<and> lower c \<noteq> CHR ''-'' \<and>
      \<not> is_lower c \<and> \<not> is_digit c \<and> c \<noteq> CHR ''-''"
    using char_classes(1) [of c] char_classes(2) [of "lower c"] lower_is_lower [of c] by (simp add: to_lower_def)
  show n: "\<not> is_upper c \<Longrightarrow> to_lower c = c" by (simp add: to_lower_def)
  show "to_lower c = CHR ''-'' \<longleftrightarrow> c = CHR ''-''" "is_digit (to_lower c) \<longleftrightarrow> is_digit c"
    "is_lower (to_lower c) \<longleftrightarrow> is_lower c \<or> is_upper c"
    using u n by (cases "is_upper c"; simp)+
qed

lemma to_lower_dash [simp]: "to_lower (CHR ''-'') = CHR ''-''"
  by (simp add: to_lower_def is_upper_def)

lemma dash_parts_nonempty [simp]: "dash_parts cs \<noteq> []"
  by (cases cs) auto

text \<open>What the loop accepts from a position on, when the character before it is not a dash or is one.\<close>

definition good_rest :: "bool \<Rightarrow> string \<Rightarrow> bool" where
  "good_rest after_dash cs \<longleftrightarrow>
     list_all (list_all alphanumeric) (dash_parts cs) \<and> list_all (\<lambda>w. w \<noteq> []) (tl (dash_parts cs)) \<and>
     (after_dash \<longrightarrow> hd (dash_parts cs) \<noteq> [])"

lemma good_rest_simps:
  "good_rest b [] \<longleftrightarrow> \<not> b"
  "good_rest b (CHR ''-'' # cs) \<longleftrightarrow> \<not> b \<and> good_rest True cs"
  "c \<noteq> CHR ''-'' \<Longrightarrow> good_rest b (c # cs) \<longleftrightarrow> alphanumeric c \<and> good_rest False cs"
proof -
  show "good_rest b [] \<longleftrightarrow> \<not> b" by (simp add: good_rest_def)
  obtain w ws where w: "dash_parts cs = w # ws" by (cases "dash_parts cs") auto
  show "good_rest b (CHR ''-'' # cs) \<longleftrightarrow> \<not> b \<and> good_rest True cs"
    "c \<noteq> CHR ''-'' \<Longrightarrow> good_rest b (c # cs) \<longleftrightarrow> alphanumeric c \<and> good_rest False cs"
    by (auto simp: good_rest_def w)
qed

lemma map_sum_Inr_iff: "map_sum f g x = Inr y \<longleftrightarrow> (\<exists>z. x = Inr z \<and> y = g z)"
  by (cases x) auto

lemma map_sum_Inl_iff: "map_sum f g x = Inl y \<longleftrightarrow> (\<exists>z. x = Inl z \<and> y = f z)"
  by (cases x) auto

lemma valid_name_loop_rest:
  "valid_name_loop False l cs = Inr n \<longleftrightarrow>
     n = map to_lower cs \<and> good_rest (l = CHR ''-'') (map to_lower cs)"
proof (induction cs arbitrary: l n)
  case Nil
  then show ?case by (auto simp: good_rest_simps)
next
  case (Cons c cs)
  consider "c = CHR ''-''" | "is_digit c" | "is_upper c" | "is_lower c"
    | "c \<noteq> CHR ''-''" "\<not> is_digit c" "\<not> is_upper c" "\<not> is_lower c" by blast
  then show ?case
  proof cases
    case 1
    then show ?thesis using Cons.IH by (auto simp: map_sum_Inr_iff good_rest_simps to_lower_classes)
  next
    case 2
    then show ?thesis using Cons.IH char_classes
      by (auto simp: map_sum_Inr_iff good_rest_simps to_lower_classes to_lower_def alphanumeric_def)
  next
    case 3
    then have "lower c \<noteq> CHR ''-''" using lower_is_lower char_classes by blast
    with 3 show ?thesis using Cons.IH char_classes lower_is_lower [of c]
      by (auto simp: map_sum_Inr_iff good_rest_simps to_lower_def alphanumeric_def)
  next
    case 4
    then show ?thesis using Cons.IH char_classes
      by (auto simp: map_sum_Inr_iff good_rest_simps to_lower_def alphanumeric_def)
  next
    case 5
    then show ?thesis by (simp add: good_rest_simps to_lower_classes alphanumeric_def)
  qed
qed

lemma flag_name_Cons: "flag_name (c # cs) \<longleftrightarrow> is_lower c \<and> good_rest False cs"
proof -
  obtain w ws where w: "dash_parts cs = w # ws" by (cases "dash_parts cs") auto
  show ?thesis using char_classes by (auto simp: flag_name_def good_rest_def w alphanumeric_def list_all_iff)
qed

lemma valid_name_form:
  "valid_name name =
     (if flag_name (map to_lower name) then Inr (map to_lower name) else Inl Invalid_name)"
proof -
  have err: "valid_name_loop first l cs = Inl e \<Longrightarrow> e = Invalid_name" for first l cs e
    by (induction first l cs arbitrary: e rule: valid_name_loop.induct) (auto simp: map_sum_Inl_iff split: if_splits)
  have "valid_name name = Inr n \<longleftrightarrow> n = map to_lower name \<and> flag_name (map to_lower name)" for n
  proof (cases name)
    case Nil
    then show ?thesis by (simp add: valid_name_def flag_name_def)
  next
    case (Cons c cs)
    consider "is_upper c" | "is_lower c" | "\<not> is_upper c" "\<not> is_lower c" by blast
    then show ?thesis
    proof cases
      case 1
      then have "lower c \<noteq> CHR ''-''" using lower_is_lower char_classes by blast
      with 1 Cons char_classes lower_is_lower show ?thesis
        by (auto simp: valid_name_def map_sum_Inr_iff valid_name_loop_rest flag_name_Cons to_lower_def)
    next
      case 2
      with Cons char_classes show ?thesis
        by (auto simp: valid_name_def map_sum_Inr_iff valid_name_loop_rest flag_name_Cons to_lower_def)
    next
      case 3
      with Cons show ?thesis
        by (auto simp: valid_name_def flag_name_Cons to_lower_classes)
    qed
  qed
  moreover have "valid_name name = Inl e \<Longrightarrow> e = Invalid_name" for e
    using err by (auto simp: valid_name_def split: if_splits)
  ultimately show ?thesis by (cases "valid_name name") auto
qed

text \<open>
  C28: \<open>valid_name\<close> accepts exactly the names that are, in lower case, words of letters and digits with
  single dashes between them and a letter first, and it returns the name in lower case; every other
  text is refused with the exception \<open>invalid_name\<close>.
\<close>

theorem valid_name_accepts:
  "valid_name name =
     (if flag_name (map to_lower name) then Inr (map to_lower name) else Inl Invalid_name)"
  by (rule valid_name_form)

text \<open>A name that was accepted is accepted again, as it is.\<close>

lemma flag_name_lower:
  assumes "flag_name n" shows "map to_lower n = n"
proof -
  have "good_rest b cs \<Longrightarrow> map to_lower cs = cs" for b cs
  proof (induction cs arbitrary: b)
    case (Cons c cs)
    then show ?case using char_classes(1) [of c]
      by (cases "c = CHR ''-''") (auto simp: good_rest_simps alphanumeric_def to_lower_def)
  qed simp
  with assms char_classes(1) show ?thesis by (cases n) (auto simp: flag_name_Cons to_lower_def)
qed

lemma valid_name_again: "flag_name n \<Longrightarrow> valid_name n = Inr n"
  by (simp add: valid_name_form flag_name_lower)

section \<open>Files\<close>

lemma flag_name_no_underscore:
  assumes "flag_name n" shows "CHR ''_'' \<notin> set n"
proof
  assume "CHR ''_'' \<in> set n"
  moreover have "CHR ''_'' \<in> set cs \<Longrightarrow> \<not> good_rest b cs" for b cs
  proof (induction cs arbitrary: b)
    case (Cons c cs)
    show ?case
    proof (cases "c = CHR ''-''")
      case True
      with Cons show ?thesis by (simp add: good_rest_simps)
    next
      case False
      have "\<not> alphanumeric (CHR ''_'')" by (simp add: alphanumeric_def is_lower_def is_digit_def)
      with Cons False show ?thesis by (auto simp: good_rest_simps)
    qed
  qed simp
  moreover obtain c cs where "n = c # cs" "is_lower c" "good_rest False cs"
    using assms by (cases n) (auto simp: flag_name_Cons, simp add: flag_name_def)
  moreover have "\<not> is_lower (CHR ''_'')" by (simp add: is_lower_def)
  ultimately show False by auto
qed

lemma split_at_separator:
  assumes "x \<notin> set xs" "x \<notin> set ys" "xs @ x # us = ys @ x # vs"
  shows "xs = ys \<and> us = vs"
  using assms
proof (induction xs arbitrary: ys)
  case Nil
  then show ?case by (cases ys) auto
next
  case (Cons a xs)
  then show ?case by (cases ys) auto
qed

text \<open>The file of a flag, given the directory and the unit, section and name.\<close>

type_synonym flag_key = "string \<times> string \<times> string"

definition flag_key :: "flag \<Rightarrow> flag_key" where
  "flag_key f = (f_unit f, f_section f, f_name f)"

fun key_ok :: "flag_key \<Rightarrow> bool" where
  "key_ok (u, s, n) \<longleftrightarrow> flag_name u \<and> flag_name s \<and> flag_name n"

fun flag_file :: "string \<Rightarrow> flag_key \<Rightarrow> string" where
  "flag_file path (u, s, n) = path @ ''/'' @ u @ ''_'' @ s @ ''_'' @ n @ ''.flag''"

lemma flag_file_inject:
  assumes "key_ok k" and "key_ok k'" and "flag_file path k = flag_file path k'"
  shows "k = k'"
proof -
  obtain u s n u' s' n' where k: "k = (u, s, n)" "k' = (u', s', n')" by (cases k, cases k') auto
  with assms have ok: "flag_name u" "flag_name u'" "flag_name s" "flag_name s'"
    and e: "u @ CHR ''_'' # s @ CHR ''_'' # n @ ''.flag'' = u' @ CHR ''_'' # s' @ CHR ''_'' # n' @ ''.flag''"
    by simp_all
  note a = split_at_separator [OF flag_name_no_underscore [OF ok(1)] flag_name_no_underscore [OF ok(2)] e]
  note b = split_at_separator [OF flag_name_no_underscore [OF ok(3)] flag_name_no_underscore [OF ok(4)]
      conjunct2 [OF a]]
  from a b k show ?thesis by simp
qed

lemma valid_name_flag_name: "valid_name name = Inr n \<Longrightarrow> flag_name n"
  by (simp add: valid_name_form split: if_splits)

text \<open>Flags have valid names from their construction on; the setters leave the names alone.\<close>

lemma new_flag_key_ok: "new_flag t u s n loc = Inr f \<Longrightarrow> key_ok (flag_key f) \<and> f_filename f = []"
  by (auto simp: new_flag_def flag_key_def default_flag_def dest: valid_name_flag_name split: sum.splits)

lemma get_filename_new:
  assumes "f_filename f = []" and "g_path_to_flag_files w \<noteq> []"
  shows "get_filename C E f w =
    (flag_file (g_path_to_flag_files w) (flag_key f),
     f\<lparr>f_filename := flag_file (g_path_to_flag_files w) (flag_key f)\<rparr>, w)"
  using assms by (simp add: get_filename_def get_path_to_flag_files_def flag_key_def Let_def)

end
