(* ===== verification/Flag_Store.thy ===== *)
theory Flag_Store
  imports Flag_Names Sample
begin

text \<open>
  What saving a flag does to the files: the parameters that are written and read back, and the
  directory of flag files as a registry that counts how often each flag was raised.
\<close>

section \<open>Configuration files as maps\<close>

definition conf_map :: "'c conf_lib \<Rightarrow> 'c \<Rightarrow> string \<Rightarrow> string option" where
  "conf_map C file k = (if conf_has C file k then Some (conf_get C file k) else None)"

text \<open>What advgetopt documents: a file has the parameters that were set last.\<close>

definition conf_laws :: "'c conf_lib \<Rightarrow> bool" where
  "conf_laws C \<longleftrightarrow>
     conf_map C (conf_open C None) = Map.empty \<and>
     (\<forall>file. conf_map C (conf_open C (Some file)) = conf_map C file) \<and>
     (\<forall>k v file. conf_map C (conf_set C k v file) = (conf_map C file)(k \<mapsto> v))"

lemma conf_has_map: "conf_has C file k \<longleftrightarrow> conf_map C file k \<noteq> None"
  by (simp add: conf_map_def)

lemma conf_get_map: "conf_map C file k = Some v \<Longrightarrow> conf_get C file k = v"
  by (simp add: conf_map_def split: if_splits)

text \<open>The parameters a flag that is up writes.\<close>

definition flag_fields :: "('a, 'z) lib_scheme \<Rightarrow> 'c flag_env \<Rightarrow> bool \<Rightarrow> flag \<Rightarrow> string \<Rightarrow> string option" where
  "flag_fields L E has_date f =
     [''unit'' \<mapsto> f_unit f, ''section'' \<mapsto> f_section f, ''name'' \<mapsto> f_name f, ''message'' \<mapsto> f_message f,
      ''priority'' \<mapsto> dec_string (f_priority f), ''manual_down'' \<mapsto> (if f_manual_down f then ''yes'' else ''no''),
      ''modified'' \<mapsto> dec_string (e_time E), ''hostname'' \<mapsto> e_hostname E, ''version'' \<mapsto> e_version E]
     ++ (if f_function f \<noteq> [] then [''function'' \<mapsto> f_function f] else Map.empty)
     ++ (if f_line f > 0 then [''line'' \<mapsto> dec_string (uint (f_line f))] else Map.empty)
     ++ (if f_source_file f \<noteq> [] then [''source_file'' \<mapsto> f_source_file f] else Map.empty)
     ++ (if \<not> has_date then [''date'' \<mapsto> dec_string (f_date f)] else Map.empty)
     ++ (if f_tags f \<noteq> {} then [''tags'' \<mapsto> join_strings L (f_tags f) '',''] else Map.empty)"

lemma set_optional_map:
  "conf_laws C \<Longrightarrow> conf_map C (set_optional C b k v file) =
     conf_map C file ++ (if b then [k \<mapsto> v] else Map.empty)"
  by (simp add: set_optional_def conf_laws_def)

lemma flag_parameters_map:
  assumes "conf_laws C"
  shows "conf_map C (flag_parameters L C E has_date f file) = conf_map C file ++ flag_fields L E has_date f"
proof -
  have s: "conf_map C (conf_set C k v c) = conf_map C c ++ [k \<mapsto> v]" for k v c
    using assms by (simp add: conf_laws_def)
  show ?thesis
    unfolding flag_parameters_def Let_def set_optional_map [OF assms] s flag_fields_def
    by (simp only: map_add_assoc [symmetric] map_add_upd fun_upd_apply) (simp add: map_add_upd)
qed

section \<open>Who saves\<close>

text \<open>Whether the process writes the file itself, and whether it switches to the other user to do so.\<close>

definition save_as :: "'c conf_lib \<Rightarrow> 'c flag_env \<Rightarrow> flag \<Rightarrow> bool option" where
  "save_as C E f =
     (if e_euid E = 0 then Some False
      else if e_getpwuid E = None then None
      else if e_getpwuid E = Some (config_or_default C E ''user'') then Some False
      else if f_from_raise_flag f then None
      else if as_root_user E (config_or_default C E ''user'') = Some True then Some True
      else None)"

lemma get_filename_fields:
  assumes "get_filename C E f w = (filename, f', w')"
  shows "f' = f\<lparr>f_filename := filename\<rparr>" "w_files w' = w_files w" "w_commands w' = w_commands w"
  using assms by (auto simp: get_filename_def get_path_to_flag_files_def Let_def split: if_splits prod.splits)

lemma save_up_local:
  assumes "f_state f = STATE_UP" and "get_filename C E f w = (filename, f', w')" and "filename \<noteq> []"
    and "save_as C E f = Some switched"
  shows "save L C E f w = save_up L C E switched filename (f\<lparr>f_filename := filename\<rparr>) w'"
  using assms get_filename_fields(1) [OF assms(2)]
  by (auto simp: save_def save_as_def save_file_def Let_def split: if_splits option.splits bool.splits)

text \<open>\<open>save_up\<close> reads the filename from its argument only.\<close>

lemma flag_parameters_filename [simp]:
  "flag_parameters L C E b (f\<lparr>f_filename := x\<rparr>) file = flag_parameters L C E b f file"
  by (simp add: flag_parameters_def)

lemma save_up_filename [simp]: "save_up L C E b fn (f\<lparr>f_filename := x\<rparr>) w = save_up L C E b fn f w"
  by (simp add: save_up_def)

section \<open>Reading back\<close>

lemma flag_fields_at:
  "flag_fields L E b f ''unit'' = Some (f_unit f)"
  "flag_fields L E b f ''section'' = Some (f_section f)"
  "flag_fields L E b f ''name'' = Some (f_name f)"
  "flag_fields L E b f ''message'' = Some (f_message f)"
  "flag_fields L E b f ''priority'' = Some (dec_string (f_priority f))"
  "flag_fields L E b f ''manual_down'' = Some (if f_manual_down f then ''yes'' else ''no'')"
  "flag_fields L E b f ''modified'' = Some (dec_string (e_time E))"
  "flag_fields L E b f ''hostname'' = Some (e_hostname E)"
  "flag_fields L E b f ''version'' = Some (e_version E)"
  "flag_fields L E b f ''function'' = (if f_function f \<noteq> [] then Some (f_function f) else None)"
  "flag_fields L E b f ''line'' = (if f_line f > 0 then Some (dec_string (uint (f_line f))) else None)"
  "flag_fields L E b f ''source_file'' = (if f_source_file f \<noteq> [] then Some (f_source_file f) else None)"
  "flag_fields L E b f ''date'' = (if b then None else Some (dec_string (f_date f)))"
  "flag_fields L E b f ''tags'' = (if f_tags f \<noteq> {} then Some (join_strings L (f_tags f) '','') else None)"
  "flag_fields L E b f ''count'' = None"
  by (simp_all add: flag_fields_def map_add_def)

lemma optional_string_map:
  "optional_string C c k g f = (case conf_map C c k of None \<Rightarrow> f | Some v \<Rightarrow> g v f)"
  by (simp add: optional_string_def conf_map_def)

lemma optional_long_map:
  "optional_long C c k g f = (case conf_map C c k of None \<Rightarrow> Inr f
     | Some v \<Rightarrow> (case stol v of None \<Rightarrow> Inl (Not_an_integer k) | Some i \<Rightarrow> Inr (g i f)))"
  by (simp add: optional_long_def conf_map_def get_long_def split: option.split)

text \<open>
  What is documented of the two functions of snapdev that write and read the tags:
  \<open>join_strings\<close> puts the separator between the words of the set, in their order, and
  \<open>tokenize_string\<close> splits at the separator, trims the parts and drops the empty ones.
\<close>

definition white_space :: string where
  "white_space = [CHR '' '', CHR 0x0A, CHR 0x0D, CHR 0x09]"

definition words_law :: "('a, 'z) lib_scheme \<Rightarrow> bool" where
  "words_law L \<longleftrightarrow>
     (\<forall>S. finite S \<longrightarrow> join_strings L S '','' = comma_join (sorted_list_of_set S)) \<and>
     (\<forall>s. tokens L {} s '','' True white_space =
        set (filter (\<lambda>t. t \<noteq> []) (map (trim_chars white_space) (split_chars '','' [] s))))"

text \<open>A tag that survives this: not empty, without a comma, and without white space at its ends.\<close>

definition tag_word :: "string \<Rightarrow> bool" where
  "tag_word t \<longleftrightarrow> t \<noteq> [] \<and> CHR '','' \<notin> set t \<and> hd t \<notin> set white_space \<and> last t \<notin> set white_space"

lemma tags_reload:
  assumes "words_law L" and "finite S" and "\<forall>t \<in> S. tag_word t" and "S \<noteq> {}"
  shows "load_tags L (join_strings L S '','') = S"
proof -
  let ?ts = "sorted_list_of_set S"
  have ts: "set ?ts = S" "?ts \<noteq> []" using assms(2,4) by auto
  have "split_chars '','' [] (comma_join ?ts) = ?ts"
    using ts assms(3) by (intro split_comma_join) (auto simp: tag_word_def)
  moreover have "map (trim_chars white_space) ?ts = ?ts"
    using ts assms(3) by (intro map_idI trim_chars_id) (auto simp: tag_word_def)
  moreover have "filter (\<lambda>t. t \<noteq> []) ?ts = ?ts"
    using ts assms(3) by (auto simp: filter_id_conv tag_word_def)
  moreover have "load_tags L (join_strings L S '','') =
      set (filter (\<lambda>t. t \<noteq> []) (map (trim_chars white_space) (split_chars '','' [] (comma_join ?ts))))"
    using assms(1,2) unfolding words_law_def load_tags_def white_space_def by metis
  ultimately show ?thesis by (simp only: ts(1))
qed

text \<open>The members of a flag that the file does not keep, or that \<open>save\<close> computes.\<close>

definition stored_flag :: "'c flag_env \<Rightarrow> string \<Rightarrow> int \<Rightarrow> int \<Rightarrow> flag \<Rightarrow> flag" where
  "stored_flag E filename date count f =
     f\<lparr>f_filename := filename, f_column := 0, f_from_raise_flag := False, f_date := date,
       f_modified := e_time E, f_hostname := e_hostname E, flag.f_count := count, f_version := e_version E\<rparr>"

lemma word_line_zero: "\<not> (0::32 word) < n \<Longrightarrow> n = 0"
  by (simp add: word_gt_0)

lemma load_flag_fields:
  assumes "conf_laws C" and "filename \<noteq> []" and "w_files w filename = Some c"
    and "conf_map C c = (flag_fields L E False f)(''count'' \<mapsto> dec_string n)"
    and "f_state f = STATE_UP"
    and "- (2 ^ 31) \<le> f_priority f" "f_priority f < 2 ^ 31" "- (2 ^ 63) \<le> f_date f" "f_date f < 2 ^ 63"
    and "- (2 ^ 63) \<le> e_time E" "e_time E < 2 ^ 63" "- (2 ^ 31) \<le> n" "n < 2 ^ 31"
    and "words_law L" "finite (f_tags f)" "\<forall>t \<in> f_tags f. tag_word t"
  shows "load_flag L C E' w filename = Inr (stored_flag E filename (f_date f) n f)"
proof -
  let ?c = "conf_open C (Some c)"
  have m: "conf_map C ?c = (flag_fields L E False f)(''count'' \<mapsto> dec_string n)"
    using assms(1,4) by (simp add: conf_laws_def)
  have at: "conf_map C ?c k = (if k = ''count'' then Some (dec_string n) else flag_fields L E False f k)" for k
    by (simp add: m)
  have get: "conf_get C ?c ''unit'' = f_unit f" "conf_get C ?c ''section'' = f_section f"
    "conf_get C ?c ''name'' = f_name f" "conf_get C ?c ''message'' = f_message f"
    by (rule conf_get_map, simp add: at flag_fields_at)+
  have line: "- (2 ^ 63) \<le> uint (f_line f)" "uint (f_line f) < 2 ^ 63"
    using uint_lt2p [of "f_line f"] by (simp_all add: order_trans [OF _ uint_ge_0])
  have num: "stol (dec_string (f_priority f)) = Some (f_priority f)"
    "stol (dec_string (f_date f)) = Some (f_date f)" "stol (dec_string (e_time E)) = Some (e_time E)"
    "stol (dec_string n) = Some n" "stol (dec_string (uint (f_line f))) = Some (uint (f_line f))"
    using assms line by (simp_all add: stol_dec_string)
  have i32: "to_int32 (f_priority f) = f_priority f" "to_int32 n = n"
    using assms by (simp_all add: to_int32_id)
  have yes: "(''no'' :: string) \<noteq> ''yes''" by simp
  show ?thesis
    using assms(2,3,5) tags_reload [OF assms(14-16)] word_line_zero [of "f_line f"]
    by (simp add: load_flag_def Let_def conf_has_map optional_string_map optional_long_map get at flag_fields_at num
        i32 stored_flag_def default_flag_def set_source_file_def set_function_def set_line_def set_manual_down_def)
qed

text \<open>
  C29: What a first raise keeps of a flag: when there is no file for it yet, the flag reads back from
  the file that \<open>save\<close> writes with its names, message, priority, manual down, tags, source file, function,
  line and date, with the count 1 and the time, the host and the version of the save. What the file does not
  keep is reset: the column reads back as 0, and the mark that raise-flag made the flag is off. The tags are words
  without commas that do not start or end with white space.
\<close>

theorem flag_save_load:
  assumes "conf_laws C" and "f_state f = STATE_UP"
    and "get_filename C E f w = (filename, f', w')" and "filename \<noteq> []" and "w_files w filename = None"
    and "save_as C E f = Some switched" and "can_save E switched filename"
    and "- (2 ^ 31) \<le> f_priority f" "f_priority f < 2 ^ 31" "- (2 ^ 63) \<le> f_date f" "f_date f < 2 ^ 63"
    and "- (2 ^ 63) \<le> e_time E" "e_time E < 2 ^ 63"
    and "words_law L" "finite (f_tags f)" "\<forall>t \<in> f_tags f. tag_word t"
  shows "\<exists>w2. save L C E f w = Ret True w2 \<and>
    load_flag L C E' w2 filename = Inr (f\<lparr>f_filename := filename, f_column := 0, f_from_raise_flag := False,
      f_modified := e_time E, f_hostname := e_hostname E, flag.f_count := 1, f_version := e_version E\<rparr>)"
proof -
  let ?c = "conf_set C ''count'' ''1'' (flag_parameters L C E False f (conf_open C None))"
  let ?w2 = "w'\<lparr>w_files := (w_files w')(filename := Some ?c)\<rparr>"
  have e: "(''1'' :: string) = dec_string 1" by code_simp
  have s: "save L C E f w = Ret True ?w2"
    using save_up_local [OF assms(2,3,4,6)] assms(5,7) get_filename_fields(2) [OF assms(3)]
    by (simp add: save_up_def Let_def)
  have m: "conf_map C ?c = (flag_fields L E False f)(''count'' \<mapsto> dec_string 1)"
    using assms(1) by (simp add: conf_laws_def flag_parameters_map [OF assms(1)] e)
  have "load_flag L C E' ?w2 filename = Inr (stored_flag E filename (f_date f) 1 f)"
    by (rule load_flag_fields [OF assms(1,4) _ m assms(2)]) (use assms in simp_all)
  with s show ?thesis by (simp add: stored_flag_def)
qed

section \<open>The registry of the flags\<close>

definition conf_number :: "'c conf_lib \<Rightarrow> 'c \<Rightarrow> string \<Rightarrow> int" where
  "conf_number C c k = (case conf_map C c k of None \<Rightarrow> 0 | Some v \<Rightarrow> (case stol v of None \<Rightarrow> 0 | Some i \<Rightarrow> i))"

text \<open>The abstract view: for each flag that is up, how often it was raised and the date it went up.\<close>

definition flag_registry :: "'c conf_lib \<Rightarrow> string \<Rightarrow> 'c flag_world \<Rightarrow> flag_key \<Rightarrow> (int \<times> int) option" where
  "flag_registry C path w k =
     (if key_ok k
      then map_option (\<lambda>c. (conf_number C c ''count'', conf_number C c ''date'')) (w_files w (flag_file path k))
      else None)"

definition raise_entry :: "int \<Rightarrow> (int \<times> int) option \<Rightarrow> int \<times> int" where
  "raise_entry t e = (case e of None \<Rightarrow> (1, t) | Some (n, t0) \<Rightarrow> (n + 1, t0))"

text \<open>A file that \<open>save\<close> wrote: it has a count and a date.\<close>

definition file_ok :: "'c conf_lib \<Rightarrow> 'c \<Rightarrow> bool" where
  "file_ok C c \<longleftrightarrow> (\<exists>n t. conf_map C c ''count'' = Some (dec_string n) \<and> conf_map C c ''date'' = Some (dec_string t) \<and>
     0 < n \<and> n < 2 ^ 63 \<and> - (2 ^ 63) \<le> t \<and> t < 2 ^ 63)"

definition files_ok :: "'c conf_lib \<Rightarrow> string \<Rightarrow> 'c flag_world \<Rightarrow> bool" where
  "files_ok C path w \<longleftrightarrow> (\<forall>k c. key_ok k \<longrightarrow> w_files w (flag_file path k) = Some c \<longrightarrow> file_ok C c)"

lemma file_ok_registry:
  assumes "conf_map C c ''count'' = Some (dec_string n)" "conf_map C c ''date'' = Some (dec_string t)"
    "- (2 ^ 63) \<le> n" "n < 2 ^ 63" "- (2 ^ 63) \<le> t" "t < 2 ^ 63"
  shows "conf_number C c ''count'' = n" "conf_number C c ''date'' = t"
  using assms by (simp_all add: conf_number_def stol_dec_string)

lemma file_okI:
  assumes "conf_map C c ''count'' = Some (dec_string n)" "conf_map C c ''date'' = Some (dec_string t)"
    and "0 < n" "n < 2 ^ 63" "- (2 ^ 63) \<le> t" "t < 2 ^ 63"
  shows "file_ok C c" "conf_number C c ''count'' = n" "conf_number C c ''date'' = t"
proof -
  show "file_ok C c" unfolding file_ok_def using assms by blast
  show "conf_number C c ''count'' = n" "conf_number C c ''date'' = t"
    using assms by (simp_all add: file_ok_registry)
qed

lemma to_int64_id: "- (2 ^ 63) \<le> i \<Longrightarrow> i < 2 ^ 63 \<Longrightarrow> to_int64 i = i"
  by (simp add: to_int64_def)

lemma files_okD: "\<lbrakk>files_ok C path w; key_ok k; w_files w (flag_file path k) = Some c\<rbrakk> \<Longrightarrow> file_ok C c"
  unfolding files_ok_def by blast

lemma files_ok_update:
  assumes "files_ok C path w" and "\<And>c. x = Some c \<Longrightarrow> file_ok C c"
  shows "files_ok C path (w\<lparr>w_files := (w_files w)(fn := x)\<rparr>)"
  using assms unfolding files_ok_def by simp

lemma registry_update:
  assumes "key_ok k"
  shows "flag_registry C path (w\<lparr>w_files := (w_files w)(flag_file path k := x)\<rparr>) =
    (flag_registry C path w)(k := map_option (\<lambda>c. (conf_number C c ''count'', conf_number C c ''date'')) x)"
proof
  fix k'
  show "flag_registry C path (w\<lparr>w_files := (w_files w)(flag_file path k := x)\<rparr>) k' =
    ((flag_registry C path w)(k := map_option (\<lambda>c. (conf_number C c ''count'', conf_number C c ''date'')) x)) k'"
    using assms flag_file_inject [OF _ assms, of k' path] by (cases "key_ok k'"; cases "k' = k") (auto simp: flag_registry_def)
qed

text \<open>The file after one more raise.\<close>

lemma raised_file:
  assumes laws: "conf_laws C" and old: "\<And>c. old = Some c \<Longrightarrow> file_ok C c \<and> conf_number C c ''count'' < 2 ^ 63 - 1"
    and date: "- (2 ^ 63) \<le> f_date f" "f_date f < 2 ^ 63"
    and w: "w_files w filename = old" and can: "can_save E switched filename"
  shows "\<exists>c. save_up L C E switched filename f w = Ret True (w\<lparr>w_files := (w_files w)(filename := Some c)\<rparr>) \<and>
    file_ok C c \<and> (conf_number C c ''count'', conf_number C c ''date'') =
      raise_entry (f_date f) (map_option (\<lambda>c. (conf_number C c ''count'', conf_number C c ''date'')) old)"
proof (cases old)
  case None
  let ?c = "conf_set C ''count'' ''1'' (flag_parameters L C E False f (conf_open C None))"
  have e: "(''1'' :: string) = dec_string 1" by code_simp
  have "conf_map C ?c ''count'' = Some (dec_string 1)" "conf_map C ?c ''date'' = Some (dec_string (f_date f))"
    using laws by (simp_all add: conf_laws_def flag_parameters_map [OF laws] flag_fields_at e)
  from file_okI [OF this _ _ date] None w can show ?thesis by (auto simp: save_up_def Let_def raise_entry_def)
next
  case (Some c0)
  with old obtain n t where c0: "conf_map C c0 ''count'' = Some (dec_string n)"
    "conf_map C c0 ''date'' = Some (dec_string t)" and b: "0 < n" "n < 2 ^ 63" "- (2 ^ 63) \<le> t" "t < 2 ^ 63"
    by (auto simp: file_ok_def)
  from file_okI(2,3) [OF c0] b have n0: "conf_number C c0 ''count'' = n" "conf_number C c0 ''date'' = t"
    by simp_all
  with old Some have n1: "n + 1 < 2 ^ 63" by fastforce
  let ?o = "conf_open C (Some c0)"
  let ?p = "flag_parameters L C E True f ?o"
  let ?c = "conf_set C ''count'' (dec_string (n + 1)) ?p"
  have o: "conf_map C ?o = conf_map C c0" using laws by (simp add: conf_laws_def)
  have p: "conf_map C ?p ''count'' = Some (dec_string n)" "conf_map C ?p ''date'' = Some (dec_string t)"
    using c0 by (simp_all add: flag_parameters_map [OF laws] o map_add_def flag_fields_at)
  have g: "get_long C ?p ''count'' = Inr n"
    using conf_get_map [OF p(1)] b by (simp add: get_long_def stol_dec_string)
  have "conf_map C ?c ''count'' = Some (dec_string (n + 1))" "conf_map C ?c ''date'' = Some (dec_string t)"
    using laws p by (simp_all add: conf_laws_def)
  then have "file_ok C ?c" "conf_number C ?c ''count'' = n + 1" "conf_number C ?c ''date'' = t"
    using file_okI [of C ?c "n + 1" t] b n1 by simp_all
  moreover have "save_up L C E switched filename f w = Ret True (w\<lparr>w_files := (w_files w)(filename := Some ?c)\<rparr>)"
    using Some w can c0 g b n1 by (simp add: save_up_def Let_def conf_has_map o to_int64_id)
  ultimately show ?thesis using Some n0 by (auto simp: raise_entry_def)
qed

text \<open>A flag that is down: its file is removed.\<close>

lemma save_down_local:
  assumes "f_state f = STATE_DOWN" and "f_filename f = []" and "g_path_to_flag_files w \<noteq> []"
    and "save_as C E f = Some switched"
    and "can_unlink E False (flag_file (g_path_to_flag_files w) (flag_key f)) \<or>
      switched \<and> can_unlink E True (flag_file (g_path_to_flag_files w) (flag_key f))"
  shows "save L C E f w = Ret True (w\<lparr>w_files := (w_files w)(flag_file (g_path_to_flag_files w) (flag_key f) := None)\<rparr>)"
proof -
  have ne: "flag_file (g_path_to_flag_files w) (flag_key f) \<noteq> []" by (simp add: flag_key_def)
  show ?thesis
    using assms(1,4,5) ne unfolding save_def get_filename_new [OF assms(2,3)]
    by (auto simp: save_as_def save_file_def remove_file_def Let_def split: if_splits option.splits bool.splits)
qed

text \<open>
  C22: The directory of flag files refines a registry of counters: raising a flag counts one more for
  that flag and keeps the date it first went up, lowering it removes its entry, and no other entry
  changes.
\<close>

theorem flag_store_refines:
  assumes "conf_laws C" and "key_ok (flag_key f)" and "f_filename f = []"
    and "g_path_to_flag_files w = path" and "path \<noteq> []" and "files_ok C path w"
    and "save_as C E f = Some switched"
    and "f_state f = STATE_UP \<longrightarrow> can_save E switched (flag_file path (flag_key f))"
    and "f_state f = STATE_DOWN \<longrightarrow> can_unlink E False (flag_file path (flag_key f))"
    and "- (2 ^ 63) \<le> f_date f" "f_date f < 2 ^ 63"
    and "\<forall>n t. flag_registry C path w (flag_key f) = Some (n, t) \<longrightarrow> n < 2 ^ 63 - 1"
  shows "\<exists>w'. save L C E f w = Ret True w' \<and> files_ok C path w' \<and>
    flag_registry C path w' = (flag_registry C path w)(flag_key f :=
      (if f_state f = STATE_UP then Some (raise_entry (f_date f) (flag_registry C path w (flag_key f))) else None))"
proof (cases "f_state f")
  case STATE_UP
  let ?fn = "flag_file path (flag_key f)"
  have ne: "?fn \<noteq> []" by (simp add: flag_key_def)
  have g: "get_filename C E f w = (?fn, f\<lparr>f_filename := ?fn\<rparr>, w)"
    using get_filename_new [of f w] assms(3-5) by simp
  have old: "file_ok C c \<and> conf_number C c ''count'' < 2 ^ 63 - 1" if "w_files w ?fn = Some c" for c
    using files_okD [OF assms(6,2) that] that assms(2,12) by (simp add: flag_registry_def)
  obtain c where c: "save_up L C E switched ?fn f w = Ret True (w\<lparr>w_files := (w_files w)(?fn := Some c)\<rparr>)"
    "file_ok C c" "(conf_number C c ''count'', conf_number C c ''date'') =
      raise_entry (f_date f) (flag_registry C path w (flag_key f))"
    using raised_file [OF assms(1) old assms(10,11) refl] assms(2,8) STATE_UP
    unfolding flag_registry_def by fastforce
  show ?thesis
    using save_up_local [OF STATE_UP g ne assms(7), of L] c(1) files_ok_update [OF assms(6), of "Some c"] c(2)
      registry_update [OF assms(2), of C path w "Some c"] c(3) STATE_UP
    by simp
next
  case STATE_DOWN
  then show ?thesis
    using save_down_local [OF STATE_DOWN assms(3) _ assms(7), of w L] assms(4,5,9)
      files_ok_update [OF assms(6), of None] registry_update [OF assms(2), of C path w None] by simp
qed

section \<open>An example\<close>

text \<open>A configuration file that is the map of its parameters, and root on a machine without flags.\<close>

type_synonym map_file = "string \<Rightarrow> string option"

definition sample_conf :: "map_file conf_lib" where
  "sample_conf = \<lparr>conf_open = (\<lambda>f. case f of None \<Rightarrow> Map.empty | Some m \<Rightarrow> m), conf_has = (\<lambda>m k. m k \<noteq> None),
     conf_get = (\<lambda>m k. case m k of None \<Rightarrow> [] | Some v \<Rightarrow> v), conf_set = (\<lambda>k v m. m(k \<mapsto> v))\<rparr>"

definition sample_env :: "map_file flag_env" where
  "sample_env = \<lparr>e_config = Map.empty, e_time = 1000, e_stat = (\<lambda>p. Stat_dir), e_mkdir_p = (\<lambda>p. True),
     e_stat_again = (\<lambda>p. Stat_dir), e_stack_is_dir = False, e_euid = 0, e_getpwuid = Some ''root'',
     as_root_user = (\<lambda>u. Some True), can_unlink = (\<lambda>b f. True), can_save = (\<lambda>b f. True),
     e_start = (\<lambda>a. 0), e_wait = (\<lambda>a. 0), e_loop_is_running = False, e_hostname = ''halk'',
     e_version = ''2.0.2'', e_glob = (\<lambda>p. [])\<rparr>"

definition sample_world :: "map_file flag_world" where
  "sample_world = \<lparr>w_files = (\<lambda>f. None), w_commands = [], g_path_to_flag_files = ''/flags''\<rparr>"

definition sample_location :: location where
  "sample_location = \<lparr>l_file = ''main.cpp'', l_function = ''main'', l_line = 12, l_column = 3\<rparr>"

definition sample_flag :: flag where
  "sample_flag = set_message ''disk full'' (default_flag\<lparr>f_unit := ''core'', f_section := ''disk'', f_name := ''full'',
     f_source_file := ''main.cpp'', f_function := ''main'', f_line := 12, f_column := 3, f_date := 900\<rparr>)"

lemma sample_conf_laws: "conf_laws sample_conf"
  by (auto simp: conf_laws_def conf_map_def sample_conf_def fun_eq_iff)

lemma sample_flag_key: "key_ok (flag_key sample_flag)" "f_filename sample_flag = []" "f_state sample_flag = STATE_UP"
  "f_tags sample_flag = {}" "f_date sample_flag = 900" "f_priority sample_flag = 5"
  "new_flag 900 ''core'' ''Disk'' ''full'' sample_location =
     Inr (sample_flag\<lparr>f_message := []\<rparr>)"
  by code_simp+

lemma sample_save_as: "save_as sample_conf sample_env f = Some False"
  by (simp add: save_as_def sample_env_def)

lemma sample_env_facts:
  "can_save sample_env b x" "can_unlink sample_env b x" "e_time sample_env = 1000"
  "g_path_to_flag_files sample_world = ''/flags''" "w_files sample_world x = None"
  by (simp_all add: sample_env_def sample_world_def)

theorem flag_store_refines_witness:
  "\<exists>w'. save sample_lib sample_conf sample_env sample_flag sample_world = Ret True w' \<and>
     flag_registry sample_conf ''/flags'' w' (flag_key sample_flag) = Some (1, 900)"
proof -
  have r: "flag_registry sample_conf ''/flags'' sample_world = Map.empty" "files_ok sample_conf ''/flags'' sample_world"
    by (auto simp: flag_registry_def files_ok_def sample_env_facts)
  obtain w' where "save sample_lib sample_conf sample_env sample_flag sample_world = Ret True w'"
    "flag_registry sample_conf ''/flags'' w' = (flag_registry sample_conf ''/flags'' sample_world)
      (flag_key sample_flag := Some (raise_entry 900 None))"
    using flag_store_refines [OF sample_conf_laws sample_flag_key(1,2) sample_env_facts(4) _ r(2) sample_save_as,
        where L = sample_lib] sample_flag_key(3,5) r(1) by (force simp: sample_env_facts)
  then show ?thesis by (simp add: raise_entry_def)
qed

text \<open>
  C31: Two flags have the same file only when they have the same unit, section and name: no flag
  overwrites or removes another one.
\<close>

theorem flag_filename_injective:
  assumes "new_flag t u s n loc = Inr f" and "new_flag t' u' s' n' loc' = Inr f'"
    and "g_path_to_flag_files w \<noteq> []"
    and "fst (get_filename C E f w) = fst (get_filename C E f' w)"
  shows "f_unit f = f_unit f' \<and> f_section f = f_section f' \<and> f_name f = f_name f'"
proof -
  note a = new_flag_key_ok [OF assms(1)] and b = new_flag_key_ok [OF assms(2)]
  from assms(4) have "flag_file (g_path_to_flag_files w) (flag_key f) = flag_file (g_path_to_flag_files w) (flag_key f')"
    using get_filename_new [OF conjunct2 [OF a] assms(3)] get_filename_new [OF conjunct2 [OF b] assms(3)] by simp
  from flag_file_inject [OF conjunct1 [OF a] conjunct1 [OF b] this] show ?thesis by (simp add: flag_key_def)
qed

theorem flag_filename_injective_witness:
  "\<exists>f f'. new_flag 900 ''core'' ''Disk'' ''full'' sample_location = Inr f \<and>
     new_flag 950 ''CORE'' ''disk'' ''full'' sample_location = Inr f' \<and> f_unit f = f_unit f' \<and> f_date f \<noteq> f_date f'"
proof -
  let ?f = "sample_flag\<lparr>f_message := []\<rparr>" and ?f' = "sample_flag\<lparr>f_message := [], f_date := 950\<rparr>"
  have g: "g_path_to_flag_files sample_world \<noteq> []" by (simp add: sample_env_facts)
  have n: "new_flag 950 ''CORE'' ''disk'' ''full'' sample_location = Inr ?f'" by code_simp
  have "fst (get_filename sample_conf sample_env ?f sample_world) = fst (get_filename sample_conf sample_env ?f' sample_world)"
    by code_simp
  from flag_filename_injective [OF sample_flag_key(7) n g this] sample_flag_key(5,7) n show ?thesis by simp
qed

lemma sample_lib_words: "words_law sample_lib"
  by (simp add: words_law_def sample_lib_def)

definition sample_net_flag :: flag where
  "sample_net_flag = add_tag ''net'' (add_tag ''hard disk'' sample_flag)"

lemma sample_net_flag_facts:
  "flag_key sample_net_flag = flag_key sample_flag" "f_filename sample_net_flag = []"
  "f_state sample_net_flag = STATE_UP" "f_tags sample_net_flag = {''net'', ''hard disk''}"
  "f_date sample_net_flag = 900" "f_priority sample_net_flag = 5" "f_message sample_net_flag = ''disk full''"
  by code_simp+

theorem flag_save_load_witness:
  "\<exists>w2. save sample_lib sample_conf sample_env sample_net_flag sample_world = Ret True w2 \<and>
     (\<exists>f2. load_flag sample_lib sample_conf sample_env w2 ''/flags/core_disk_full.flag'' = Inr f2 \<and>
       f_message f2 = ''disk full'' \<and> f_tags f2 = {''net'', ''hard disk''} \<and> flag.f_count f2 = 1 \<and>
       f_date f2 = 900 \<and> f_modified f2 = 1000)"
proof -
  note facts = sample_net_flag_facts
  have fn: "flag_file (g_path_to_flag_files sample_world) (flag_key sample_net_flag) = ''/flags/core_disk_full.flag''"
    unfolding facts(1) by code_simp
  have g: "g_path_to_flag_files sample_world \<noteq> []" by (simp add: sample_world_def)
  have ne: "flag_file (g_path_to_flag_files sample_world) (flag_key sample_net_flag) \<noteq> []" by (simp add: fn)
  obtain w2 f2 where "save sample_lib sample_conf sample_env sample_net_flag sample_world = Ret True w2"
    "load_flag sample_lib sample_conf sample_env w2 ''/flags/core_disk_full.flag'' = Inr f2"
    "f2 = sample_net_flag\<lparr>f_filename := ''/flags/core_disk_full.flag'', f_column := 0, f_from_raise_flag := False,
      f_modified := 1000, f_hostname := e_hostname sample_env, flag.f_count := 1, f_version := e_version sample_env\<rparr>"
    using flag_save_load [OF sample_conf_laws facts(3) get_filename_new [OF facts(2) g]
        ne sample_env_facts(5) sample_save_as sample_env_facts(1) _ _ _ _ _ _ sample_lib_words, where E' = sample_env,
        unfolded fn]
    by (auto simp: sample_env_facts facts tag_word_def white_space_def)
  then show ?thesis by (simp add: facts)
qed

end
