(* ===== verification/Raise_Flag.thy ===== *)
theory Raise_Flag
  imports Flag_Store
begin

text \<open>
  The tool tools/raise_flag.cpp: it raises, lowers, counts and lists flags as the user that owns them.
  A process without the rights to write a flag file runs it (\<open>flag::save\<close>).

  The command line is parsed by advgetopt; the record \<open>raise_opts\<close> holds what the tool asks it:
  \<open>is_defined\<close>, \<open>size\<close>, \<open>get_string\<close>, and \<open>get_long\<close> with the least and the largest value that is allowed
  (\<open>get_long\<close> reads a signed integer of 64 bits, the default for the largest value is its maximum).
\<close>

record raise_opts =
  o_defined :: "string \<Rightarrow> bool"
  o_size :: "string \<Rightarrow> nat"
  o_string :: "string \<Rightarrow> nat \<Rightarrow> string"
  o_long :: "string \<Rightarrow> int \<Rightarrow> int \<Rightarrow> int"

definition long_max :: int where
  "long_max = 9223372036854775807"

section \<open>Raising and lowering\<close>

text \<open>The member \<open>f_flag\<close> and the result of \<open>build_flag\<close>; \<open>loc\<close> is the place of the call in the tool.\<close>

definition build_flag :: "raise_opts \<Rightarrow> int \<Rightarrow> location \<Rightarrow> exn + int \<times> flag" where
  "build_flag opts t loc =
     (case new_flag t (o_string opts ''--'' 0) (o_string opts ''--'' 1) (o_string opts ''--'' 2) loc of
        Inl e \<Rightarrow> Inl e
      | Inr f0 \<Rightarrow>
          let f1 = set_from_raise_flag f0;
              f2 = (if o_size opts ''--'' = 4 then set_message (o_string opts ''--'' 3) f1 else f1);
              f3 = (if o_defined opts ''source-file'' then set_source_file (o_string opts ''source-file'' 0) f2 else f2);
              f4 = (if o_defined opts ''function'' then set_function (o_string opts ''function'' 0) f3 else f3);
              f5 = (if o_defined opts ''line'' then set_line (word_of_int (o_long opts ''line'' 1 long_max)) f4 else f4);
              f6 = (if o_defined opts ''priority'' then set_priority (to_int32 (o_long opts ''priority'' 0 100)) f5 else f5)
          in if o_defined opts ''manual'' \<and> o_defined opts ''automatic'' then Inr (1, f6)
             else
               let f7 = (if o_defined opts ''manual'' then set_manual_down True f6
                         else if o_defined opts ''automatic'' then set_manual_down False f6 else f6);
                   f8 = (if o_defined opts ''tags''
                         then foldl (\<lambda>f i. add_tag (o_string opts ''tags'' i) f) f7 [0..<o_size opts ''tags'']
                         else f7)
               in Inr (0, f8))"

definition flag_up_down :: "('a, 'z) lib_scheme \<Rightarrow> 'c conf_lib \<Rightarrow> 'c flag_env \<Rightarrow> raise_opts \<Rightarrow> location \<Rightarrow> state_t
    \<Rightarrow> 'c flag_world \<Rightarrow> ('c flag_world, int) res" where
  "flag_up_down L C E opts loc state w =
     (case build_flag opts (e_time E) loc of
        Inl e \<Rightarrow> Raise e w
      | Inr (_, f) \<Rightarrow> bind_res (save L C E (set_state state f) w) (\<lambda>_ w. Ret 0 w))"

definition raise_flag_down :: "('a, 'z) lib_scheme \<Rightarrow> 'c conf_lib \<Rightarrow> 'c flag_env \<Rightarrow> raise_opts \<Rightarrow> location
    \<Rightarrow> 'c flag_world \<Rightarrow> ('c flag_world, int) res" where
  "raise_flag_down L C E opts loc w =
     (if o_defined opts ''automatic'' \<or> o_defined opts ''manual'' \<or> o_defined opts ''priority'' \<or> o_defined opts ''tags''
      then Ret 1 w
      else if o_size opts ''--'' \<noteq> 3 \<and> o_size opts ''--'' \<noteq> 4 then Ret 1 w
      else flag_up_down L C E opts loc STATE_DOWN w)"

definition raise_flag_up :: "('a, 'z) lib_scheme \<Rightarrow> 'c conf_lib \<Rightarrow> 'c flag_env \<Rightarrow> raise_opts \<Rightarrow> location
    \<Rightarrow> 'c flag_world \<Rightarrow> ('c flag_world, int) res" where
  "raise_flag_up L C E opts loc w =
     (if o_size opts ''--'' \<noteq> 4 then Ret 1 w else flag_up_down L C E opts loc STATE_UP w)"

section \<open>Listing\<close>

definition setw_left :: "nat \<Rightarrow> string \<Rightarrow> string" where
  "setw_left n s = s @ replicate (n - length s) CHR '' ''"

definition setw_right :: "nat \<Rightarrow> string \<Rightarrow> string" where
  "setw_right n s = replicate (n - length s) CHR '' '' @ s"

text \<open>
  A column of the list: its title, the line under it, its least width, whether the flags can widen it,
  whether it is aligned to the right, and what it shows.
\<close>

record column =
  title :: string
  underline :: string
  min_width :: nat
  grows :: bool
  to_the_right :: bool
  cell :: "flag \<Rightarrow> string"

definition text_column :: "string \<Rightarrow> string \<Rightarrow> bool \<Rightarrow> (flag \<Rightarrow> string) \<Rightarrow> column" where
  "text_column t u r c = \<lparr>title = t, underline = u, min_width = length t, grows = True, to_the_right = r, cell = c\<rparr>"

definition date_column :: "string \<Rightarrow> string \<Rightarrow> (flag \<Rightarrow> string) \<Rightarrow> column" where
  "date_column t u c = \<lparr>title = t, underline = u, min_width = max (length t) 31, grows = False,
     to_the_right = False, cell = c\<rparr>"

definition columns :: "('a, 'z) lib_scheme \<Rightarrow> (int \<Rightarrow> string) \<Rightarrow> column list" where
  "columns L show_date =
     [text_column ''unit'' ''----'' False f_unit,
      text_column ''section'' ''-------'' False f_section,
      text_column ''name'' ''----'' False f_name,
      text_column ''count'' ''-----'' True (\<lambda>f. dec_string (flag.f_count f)),
      text_column ''source_file'' ''-----------'' False f_source_file,
      text_column ''function'' ''--------'' False f_function,
      text_column ''line'' ''----'' True (\<lambda>f. dec_string (uint (f_line f))),
      text_column ''message'' ''-------'' False f_message,
      text_column ''priority'' ''--------'' True (\<lambda>f. dec_string (f_priority f)),
      text_column ''manual'' ''------'' False (\<lambda>f. if f_manual_down f then ''yes'' else ''no''),
      date_column ''date'' ''----'' (\<lambda>f. show_date (f_date f)),
      date_column ''modified'' ''--------'' (\<lambda>f. show_date (f_modified f)),
      text_column ''hostname'' ''--------'' False f_hostname,
      text_column ''version'' ''-------'' False f_version,
      text_column ''tags'' ''----'' False (\<lambda>f. join_strings L (f_tags f) '', '')]"

definition column_width :: "flag list \<Rightarrow> column \<Rightarrow> nat" where
  "column_width flags c =
     foldl (\<lambda>w f. if grows c then max w (length (cell c f)) else w) (min_width c) flags"

text \<open>One line: two spaces between columns, none after the last.\<close>

fun line_of :: "(column \<Rightarrow> nat) \<Rightarrow> (column \<Rightarrow> string \<times> bool) \<Rightarrow> column list \<Rightarrow> string" where
  "line_of width g [] = []"
| "line_of width g [c] = (let (s, right) = g c in if right then setw_right (width c) s else setw_left (width c) s)"
| "line_of width g (c # d # cs) =
     (let (s, right) = g c in
      (if right then setw_right (width c) s @ ''  '' else setw_left (width c + 2) s) @ line_of width g (d # cs))"

definition list_lines :: "('a, 'z) lib_scheme \<Rightarrow> (int \<Rightarrow> string) \<Rightarrow> flag list \<Rightarrow> string list" where
  "list_lines L show_date flags =
     (let cs = columns L show_date; w = column_width flags
      in line_of w (\<lambda>c. (title c, False)) cs # line_of w (\<lambda>c. (underline c, False)) cs #
         map (\<lambda>f. line_of w (\<lambda>c. (cell c f, to_the_right c)) cs) flags)"

definition list_in_plain_text :: "('a, 'z) lib_scheme \<Rightarrow> (int \<Rightarrow> string) \<Rightarrow> flag list \<Rightarrow> string list" where
  "list_in_plain_text L show_date flags =
     list_lines L show_date flags @
     [''----------------------'',
      ''Found '' @ dec_nat (length flags) @ '' raised flag'' @ (if length flags = 1 then [] else ''s'')]"

text \<open>
  The list in JSON is built by assignments to references into a value of as2js, whose operator [] makes
  the member of a name, or one more element when its index is -1 (\<open>Json_new r n\<close> is the element number n
  that was made in \<open>r\<close>). as2js then writes the value: the argument \<open>write_json\<close> is the text it writes
  after these operations.
\<close>

datatype json_value = Json_string string | Json_int int | Json_bool bool

datatype json_ref = Json_root | Json_member json_ref string | Json_new json_ref nat

datatype json_op = Json_open json_ref | Json_set json_ref json_value

definition flag_in_json :: "json_ref \<Rightarrow> flag \<Rightarrow> json_op list" where
  "flag_in_json item f =
     [Json_open item,
      Json_set (Json_member item ''unit'') (Json_string (f_unit f)),
      Json_set (Json_member item ''section'') (Json_string (f_section f)),
      Json_set (Json_member item ''name'') (Json_string (f_name f)),
      Json_set (Json_member item ''source-file'') (Json_string (f_source_file f)),
      Json_set (Json_member item ''function'') (Json_string (f_function f)),
      Json_set (Json_member item ''line'') (Json_int (uint (f_line f))),
      Json_set (Json_member item ''message'') (Json_string (f_message f)),
      Json_set (Json_member item ''priority'') (Json_int (f_priority f)),
      Json_set (Json_member item ''manual'') (Json_bool (f_manual_down f))] @
     (if f_tags f = {} then []
      else let tag_list = Json_new (Json_member item ''tags'') 0
           in Json_open tag_list #
              map (\<lambda>t. Json_set (Json_member tag_list ''tag'') (Json_string t)) (sorted_list_of_set (f_tags f)))"

fun flags_in_json :: "nat \<Rightarrow> flag list \<Rightarrow> json_op list" where
  "flags_in_json n [] = []"
| "flags_in_json n (f # flags) = flag_in_json (Json_new (Json_member Json_root ''flag'') n) f @ flags_in_json (n + 1) flags"

definition list_in_json :: "(json_op list \<Rightarrow> string) \<Rightarrow> flag list \<Rightarrow> string list" where
  "list_in_json write_json flags = [write_json (Json_open (Json_member Json_root ''flags'') # flags_in_json 0 flags)]"

text \<open>
  Each tag is assigned to the same member, so an assignment replaces the one before and only the last
  tag in the order of strings is listed.
\<close>

definition last_tag :: "flag \<Rightarrow> flag" where
  "last_tag f = (if f_tags f = {} then f else f\<lparr>f_tags := {Max (f_tags f)}\<rparr>)"

lemma json_set_last:
  assumes "\<forall>xs r u v ys. write_json (xs @ Json_set r u # Json_set r v # ys) = write_json (xs @ Json_set r v # ys)"
  shows "write_json (xs @ map (\<lambda>t. Json_set r (g t)) (ts @ [t]) @ ys) = write_json (xs @ Json_set r (g t) # ys)"
proof (induction ts arbitrary: t rule: rev_induct)
  case (snoc u ts)
  have "write_json (xs @ map (\<lambda>t. Json_set r (g t)) ((ts @ [u]) @ [t]) @ ys) =
      write_json ((xs @ map (\<lambda>t. Json_set r (g t)) ts) @ Json_set r (g u) # Json_set r (g t) # ys)" by simp
  also have "\<dots> = write_json (xs @ map (\<lambda>t. Json_set r (g t)) (ts @ [t]) @ ys)"
    unfolding assms [rule_format] by simp
  finally show ?case by (simp only: snoc.IH)
qed simp

lemma sorted_list_of_set_Max:
  assumes "finite S" and "S \<noteq> {}"
  shows "\<exists>ts. sorted_list_of_set S = ts @ [Max S]"
proof (cases "sorted_list_of_set S" rule: rev_cases)
  case (snoc ts t)
  have "set (ts @ [t]) = S" "sorted (ts @ [t])" using snoc assms(1) by (metis set_sorted_list_of_set sorted_sorted_list_of_set)+
  then have "Max S = t" using assms(1) by (intro Max_eqI) (auto simp: sorted_append)
  with snoc show ?thesis by simp
qed (use assms in simp)

lemma last_tag_listed:
  assumes "\<forall>xs r u v ys. write_json (xs @ Json_set r u # Json_set r v # ys) = write_json (xs @ Json_set r v # ys)"
    and "\<forall>f \<in> set flags. finite (f_tags f)"
  shows "list_in_json write_json (map last_tag flags) = list_in_json write_json flags"
proof -
  let ?item = "\<lambda>n. Json_new (Json_member Json_root ''flag'') n"
  have one: "write_json (xs @ flag_in_json item (last_tag f) @ ys) = write_json (xs @ flag_in_json item f @ ys)"
    if fin: "finite (f_tags f)" for xs item f ys
  proof (cases "f_tags f = {}")
    case False
    let ?tag = "Json_member (Json_new (Json_member item ''tags'') 0) ''tag''"
    define start where "start = flag_in_json item (f\<lparr>f_tags := {}\<rparr>) @ [Json_open (Json_new (Json_member item ''tags'') 0)]"
    have "flag_in_json item f = start @ map (\<lambda>t. Json_set ?tag (Json_string t)) (sorted_list_of_set (f_tags f))"
      using False by (simp add: flag_in_json_def start_def Let_def)
    moreover have "flag_in_json item (last_tag f) = start @ [Json_set ?tag (Json_string (Max (f_tags f)))]"
      using False by (simp add: flag_in_json_def start_def last_tag_def Let_def)
    ultimately show ?thesis
      using json_set_last [OF assms(1), where r = ?tag and g = Json_string and xs = "xs @ start"]
        sorted_list_of_set_Max [OF fin False] by (metis append.assoc append_Cons append_Nil)
  qed (simp add: last_tag_def)
  have "write_json (xs @ flags_in_json n (map last_tag flags)) = write_json (xs @ flags_in_json n flags)" for xs n
    using assms(2)
  proof (induction flags arbitrary: xs n)
    case (Cons f flags)
    have "write_json (xs @ flags_in_json n (map last_tag (f # flags))) =
        write_json (xs @ flag_in_json (?item n) f @ flags_in_json (n + 1) (map last_tag flags))"
      using one [of f xs "?item n"] Cons.prems by simp
    also have "\<dots> = write_json (xs @ flags_in_json n (f # flags))"
      using Cons.IH [of "xs @ flag_in_json (?item n) f" "n + 1"] Cons.prems by simp
    finally show ?case .
  qed simp
  from this [of "[Json_open (Json_member Json_root ''flags'')]" 0] show ?thesis by (simp add: list_in_json_def)
qed

section \<open>The command\<close>

text \<open>What the tool prints and its exit code.\<close>

definition raise_flag_list :: "('a, 'z) lib_scheme \<Rightarrow> 'c conf_lib \<Rightarrow> 'c flag_env \<Rightarrow> location
    \<Rightarrow> (flag list \<Rightarrow> string list \<times> int) \<Rightarrow> 'c flag_world \<Rightarrow> ('c flag_world, string list \<times> int) res" where
  "raise_flag_list L C E loc show w =
     (let (r, w1) = load_flags L C E loc w in bind_res (of_sum r w1) (\<lambda>flags w. Ret (show flags) w))"

definition raise_flag_save :: "('a, 'z) lib_scheme \<Rightarrow> 'c conf_lib \<Rightarrow> 'c flag_env \<Rightarrow> (int \<Rightarrow> string)
    \<Rightarrow> (json_op list \<Rightarrow> string) \<Rightarrow> raise_opts \<Rightarrow> location \<Rightarrow> 'c flag_world
    \<Rightarrow> ('c flag_world, string list \<times> int) res" where
  "raise_flag_save L C E show_date write_json opts loc w =
     (let commands = filter (o_defined opts) [''down'', ''list'', ''count'', ''raised'', ''up'']
      in if length commands > 1 then Ret ([], 1) w
         else if o_defined opts ''count'' then
           raise_flag_list L C E loc (\<lambda>flags. ([dec_nat (length flags)], if flags = [] then 0 else 1)) w
         else if o_defined opts ''raised'' then
           raise_flag_list L C E loc (\<lambda>flags. ([], if flags = [] then 0 else 1)) w
         else if o_defined opts ''list'' then
           (if o_string opts ''list'' 0 = ''text'' then
              raise_flag_list L C E loc (\<lambda>flags. (list_in_plain_text L show_date flags, 0)) w
            else if o_string opts ''list'' 0 = ''json'' then
              raise_flag_list L C E loc (\<lambda>flags. (list_in_json write_json flags, 0)) w
            else Ret ([], 1) w)
         else if o_defined opts ''down'' then bind_res (raise_flag_down L C E opts loc w) (\<lambda>r w. Ret ([], r) w)
         else bind_res (raise_flag_up L C E opts loc w) (\<lambda>r w. Ret ([], r) w))"

text \<open>
  The start of the tool: \<open>parsed\<close> is what \<open>finish_parsing\<close> does, return or throw \<open>getopt_exit\<close> with an exit
  code; \<open>as_root\<close> tells whether the process could become the user and group given, \<open>logger_ok\<close> whether
  the options of the logger are right.
\<close>

definition switch_user :: "(string \<Rightarrow> string \<Rightarrow> bool) \<Rightarrow> raise_opts \<Rightarrow> int" where
  "switch_user as_root opts = (if \<not> as_root (o_string opts ''user'' 0) (o_string opts ''group'' 0) then 1 else 0)"

definition new_raise_flag :: "int + raise_opts \<Rightarrow> (string \<Rightarrow> string \<Rightarrow> bool) \<Rightarrow> bool \<Rightarrow> int + raise_opts" where
  "new_raise_flag parsed as_root logger_ok =
     (case parsed of
        Inl code \<Rightarrow> Inl code
      | Inr opts \<Rightarrow>
          if switch_user as_root opts \<noteq> 0 then Inl 1
          else if \<not> logger_ok then Inl 1 else Inr opts)"

text \<open>\<open>main\<close>: the exception \<open>getopt_exit\<close> carries the exit code, every other exception gives 1.\<close>

definition raise_flag_main :: "('a, 'z) lib_scheme \<Rightarrow> 'c conf_lib \<Rightarrow> 'c flag_env \<Rightarrow> (int \<Rightarrow> string)
    \<Rightarrow> (json_op list \<Rightarrow> string) \<Rightarrow> int + raise_opts \<Rightarrow> (string \<Rightarrow> string \<Rightarrow> bool) \<Rightarrow> bool \<Rightarrow> location
    \<Rightarrow> 'c flag_world \<Rightarrow> (string list \<times> int) \<times> 'c flag_world" where
  "raise_flag_main L C E show_date write_json parsed as_root logger_ok loc w =
     (case new_raise_flag parsed as_root logger_ok of
        Inl code \<Rightarrow> (([], code), w)
      | Inr opts \<Rightarrow>
          case raise_flag_save L C E show_date write_json opts loc w of
            Ret r w1 \<Rightarrow> (r, w1)
          | Raise e w1 \<Rightarrow> (([], 1), w1))"

section \<open>The list is aligned\<close>

lemma column_width_bounds:
  "min_width c \<le> column_width flags c"
  "f \<in> set flags \<Longrightarrow> grows c \<Longrightarrow> length (cell c f) \<le> column_width flags c"
proof -
  have g: "m \<le> foldl (\<lambda>w f. if grows c then max w (length (cell c f)) else w) m fs" for m fs
  proof (induction fs arbitrary: m)
    case (Cons f fs)
    show ?case using Cons [of "if grows c then max m (length (cell c f)) else m"] by (simp split: if_splits)
  qed simp
  show "min_width c \<le> column_width flags c" unfolding column_width_def by (rule g)
  show "length (cell c f) \<le> column_width flags c" if mem: "f \<in> set flags" and gr: "grows c"
  proof -
    obtain xs ys where f: "flags = xs @ f # ys" using split_list [OF mem] by blast
    let ?step = "\<lambda>w f. if grows c then max w (length (cell c f)) else w"
    have "length (cell c f) \<le> ?step (foldl ?step (min_width c) xs) f" using gr by simp
    also have "\<dots> \<le> foldl ?step (?step (foldl ?step (min_width c) xs) f) ys" by (rule g)
    finally show ?thesis by (simp add: column_width_def f)
  qed
qed

lemma length_line_of:
  assumes "\<forall>c \<in> set cs. length (fst (g c)) \<le> width c" and "cs \<noteq> []"
  shows "length (line_of width g cs) = sum_list (map (\<lambda>c. width c + 2) cs) - 2"
  using assms
proof (induction width g cs rule: line_of.induct)
  case (3 width g c d cs)
  obtain s r where g: "g c = (s, r)" by fastforce
  from 3 g have "length (line_of width g (d # cs)) + 2 = sum_list (map (\<lambda>c. width c + 2) (d # cs))" by simp
  with 3 g show ?case by (simp add: setw_left_def setw_right_def)
qed (auto simp: setw_left_def setw_right_def split: prod.split)

text \<open>
  The plain text list is a table: its two header lines and the lines of the flags have the same
  length when a date takes at most 31 characters, whatever the flags hold.
\<close>

theorem list_aligned:
  assumes "\<forall>t. length (show_date t) \<le> 31"
  shows "\<exists>n. map length (list_lines L show_date flags) = replicate (length flags + 2) n"
proof -
  let ?cs = "columns L show_date" and ?w = "column_width flags"
  define n where "n = sum_list (map (\<lambda>c. ?w c + 2) ?cs) - 2"
  have ne: "?cs \<noteq> []" by (simp add: columns_def)
  have m: "length (title c) \<le> min_width c \<and> length (underline c) \<le> min_width c \<and>
    (\<not> grows c \<longrightarrow> (\<forall>f. length (cell c f) \<le> min_width c))" if "c \<in> set ?cs" for c
    using that assms by (auto simp: columns_def text_column_def date_column_def)
  have "length (line_of ?w g ?cs) = n" if "\<forall>c \<in> set ?cs. length (fst (g c)) \<le> ?w c" for g
    using length_line_of [OF that ne] by (simp add: n_def)
  moreover have "length (title c) \<le> ?w c" "length (underline c) \<le> ?w c" if "c \<in> set ?cs" for c
    using m [OF that] column_width_bounds(1) order_trans by blast+
  moreover have "length (cell c f) \<le> ?w c" if "c \<in> set ?cs" "f \<in> set flags" for c f
    using m [OF that(1)] column_width_bounds(1) [of c flags] column_width_bounds(2) [of f flags c] that(2) order_trans by (cases "grows c") blast+
  ultimately have "map length (list_lines L show_date flags) = n # n # map (\<lambda>f. n) flags"
    by (simp add: list_lines_def Let_def)
  then show ?thesis by (auto simp: map_replicate_const intro: exI [of _ n])
qed

theorem list_aligned_witness:
  "\<exists>n. map length (list_lines sample_lib (\<lambda>t. ''today'') [sample_flag]) = replicate 3 n"
  using list_aligned [where show_date = "\<lambda>t. ''today''" and L = sample_lib and flags = "[sample_flag]"]
  by (simp add: numeral_3_eq_3)

end
