(* ===== verification/Flag_Delegation.thy ===== *)
theory Flag_Delegation
  imports Raise_Flag
begin

text \<open>
  A flag that a process without the rights raises: \<open>save\<close> runs the tool raise-flag with a command line that
  carries the flag, and the tool saves the flag it reads from there. The parser of command lines is
  advgetopt; what is documented of it is \<open>parser_law\<close>.
\<close>

section \<open>A flag that another process raises through the tool\<close>

text \<open>
  Command lines: an option without a value, or an option followed by its values. The names of the options
  are those of the table of raise_flag.cpp that \<open>save\<close> uses; a value that starts with a dash would be
  taken for an option.
\<close>

datatype arg_group = Flag_opt string | Valued string "string list"

fun render :: "arg_group \<Rightarrow> string list" where
  "render (Flag_opt n) = [''--'' @ n]"
| "render (Valued n vs) = (''--'' @ n) # vs"

fun group_name :: "arg_group \<Rightarrow> string" where
  "group_name (Flag_opt n) = n"
| "group_name (Valued n vs) = n"

fun group_values :: "arg_group \<Rightarrow> string list" where
  "group_values (Flag_opt n) = []"
| "group_values (Valued n vs) = vs"

definition plain :: "string \<Rightarrow> bool" where
  "plain v \<longleftrightarrow> take 1 v \<noteq> ''-''"

text \<open>
  A tag the parser leaves as it is: the values of the option \<open>tags\<close> are split at spaces and commas
  (\<open>g_tag_separators\<close>), where quotes protect a separator.
\<close>

definition tag_ok :: "string \<Rightarrow> bool" where
  "tag_ok t \<longleftrightarrow> t \<noteq> [] \<and> (\<forall>c \<in> set t. c \<notin> {CHR '' '', CHR '','', CHR 0x22, CHR 0x27})"

fun group_ok :: "arg_group \<Rightarrow> bool" where
  "group_ok (Flag_opt n) \<longleftrightarrow> n \<in> {''up'', ''down'', ''manual''}"
| "group_ok (Valued n vs) \<longleftrightarrow> list_all plain vs \<and>
     (if n = ''tags'' then vs \<noteq> [] \<and> list_all tag_ok vs
      else length vs = 1 \<and> n \<in> {''user'', ''group'', ''source-file'', ''function'', ''line'', ''priority''})"

text \<open>
  What advgetopt documents about the options after it parsed a command line: the options that are defined
  are those that were given, with their values (tags without separators: \<open>group_ok\<close>); a number that is
  within the bounds the tool asks for is returned; after an option without a value the rest are the
  arguments of the default option, which has the name "--". Nothing is said of a number out of bounds,
  nor of a tag with a separator in it.
\<close>

definition parser_law :: "(string list \<Rightarrow> raise_opts) \<Rightarrow> bool" where
  "parser_law parse \<longleftrightarrow> (\<forall>gs n args. distinct (map group_name (gs @ [Flag_opt n])) \<and> list_all group_ok (gs @ [Flag_opt n]) \<and>
       list_all plain args \<and> args \<noteq> [] \<longrightarrow>
     (let opts = parse (concat (map render (gs @ [Flag_opt n])) @ args) in
       (\<forall>m. m \<noteq> ''--'' \<longrightarrow> o_defined opts m = (m \<in> group_name ` set (gs @ [Flag_opt n]))) \<and>
       (\<forall>g \<in> set gs. o_size opts (group_name g) = length (group_values g) \<and>
          map (o_string opts (group_name g)) [0..<length (group_values g)] = group_values g) \<and>
       (\<forall>m v i lo hi. Valued m [v] \<in> set gs \<and> undec_string v = Some i \<and> lo \<le> i \<and> i \<le> hi \<longrightarrow>
          o_long opts m lo hi = i) \<and>
       o_size opts ''--'' = length args \<and> map (o_string opts ''--'') [0..<length args] = args))"

section \<open>The command line of a flag\<close>

definition raise_groups :: "string \<Rightarrow> string \<Rightarrow> flag \<Rightarrow> arg_group list" where
  "raise_groups user grp f =
     [Valued ''user'' [user], Valued ''group'' [grp], Valued ''source-file'' [f_source_file f],
      Valued ''function'' [f_function f], Valued ''line'' [dec_string (uint (f_line f))]] @
     (if f_priority f \<noteq> 5 then [Valued ''priority'' [dec_string (f_priority f)]] else []) @
     (if f_manual_down f then [Flag_opt ''manual''] else []) @
     (if f_tags f \<noteq> {} then [Valued ''tags'' (sorted_list_of_set (f_tags f))] else [])"

text \<open>
  A flag that is up, with a message and a source location, no text that looks like an option, and no tag that
  the parser would split.
\<close>

definition raisable :: "flag \<Rightarrow> bool" where
  "raisable f \<longleftrightarrow> f_state f = STATE_UP \<and> f_message f \<noteq> [] \<and> f_source_file f \<noteq> [] \<and> f_function f \<noteq> [] \<and>
     f_line f \<noteq> 0 \<and> list_all plain [f_message f, f_source_file f, f_function f] \<and> (\<forall>t \<in> f_tags f. plain t \<and> tag_ok t)"

lemma raise_flag_arguments_groups:
  "raisable f \<Longrightarrow> raise_flag_arguments user grp f =
     concat (map render (raise_groups user grp f @ [Flag_opt ''up''])) @ [f_unit f, f_section f, f_name f, f_message f]"
  by (simp add: raisable_def raise_flag_arguments_def raise_groups_def)

definition parsed_flag :: "raise_opts \<Rightarrow> flag \<Rightarrow> bool" where
  "parsed_flag opts f \<longleftrightarrow>
     o_defined opts ''up'' \<and> \<not> o_defined opts ''down'' \<and> \<not> o_defined opts ''list'' \<and>
     \<not> o_defined opts ''count'' \<and> \<not> o_defined opts ''raised'' \<and> \<not> o_defined opts ''automatic'' \<and>
     o_defined opts ''source-file'' \<and> o_string opts ''source-file'' 0 = f_source_file f \<and>
     o_defined opts ''function'' \<and> o_string opts ''function'' 0 = f_function f \<and>
     o_defined opts ''line'' \<and> o_long opts ''line'' 1 long_max = uint (f_line f) \<and>
     o_defined opts ''priority'' = (f_priority f \<noteq> 5) \<and> (f_priority f \<noteq> 5 \<longrightarrow> o_long opts ''priority'' 0 100 = f_priority f) \<and>
     o_defined opts ''manual'' = f_manual_down f \<and>
     o_defined opts ''tags'' = (f_tags f \<noteq> {}) \<and>
     (f_tags f \<noteq> {} \<longrightarrow> map (o_string opts ''tags'') [0..<o_size opts ''tags''] = sorted_list_of_set (f_tags f)) \<and>
     o_size opts ''--'' = 4 \<and> o_string opts ''--'' 0 = f_unit f \<and> o_string opts ''--'' 1 = f_section f \<and>
     o_string opts ''--'' 2 = f_name f \<and> o_string opts ''--'' 3 = f_message f"

lemma foldl_add_tag: "foldl (\<lambda>f i. add_tag (g i) f) f is = f\<lparr>f_tags := f_tags f \<union> g ` set is\<rparr>"
  by (induction "is" arbitrary: f) (simp_all add: add_tag_def)

text \<open>A flag with nothing but what its constructor and the setters of the tool set.\<close>

definition fresh_flag :: "flag \<Rightarrow> bool" where
  "fresh_flag f \<longleftrightarrow> key_ok (flag_key f) \<and> f_filename f = [] \<and> f_modified f = - 1 \<and> f_hostname f = [] \<and>
     flag.f_count f = 0 \<and> f_version f = [] \<and> 0 \<le> f_priority f \<and> f_priority f \<le> 100 \<and> finite (f_tags f)"

lemma plain_dec_string: "0 \<le> i \<Longrightarrow> plain (dec_string i)"
  using dec_nat_hd [of "nat i"] by (cases "dec_nat (nat i)") (auto simp: plain_def dec_string_def)

lemma plain_flag_name: "flag_name n \<Longrightarrow> plain n"
  using valid_name_again [of n] by (cases n) (auto simp: plain_def valid_name_def split: if_splits)

lemma raise_groups_ok:
  assumes "raisable f" and "fresh_flag f" and "plain user" and "plain grp"
  shows "distinct (map group_name (raise_groups user grp f @ [Flag_opt ''up'']))"
    "list_all group_ok (raise_groups user grp f @ [Flag_opt ''up''])"
    "list_all plain [f_unit f, f_section f, f_name f, f_message f]"
proof -
  have "plain (dec_string (uint (f_line f)))" "plain (dec_string (f_priority f))"
    using assms(2) by (simp_all add: plain_dec_string fresh_flag_def)
  then show "list_all group_ok (raise_groups user grp f @ [Flag_opt ''up''])"
    using assms by (auto simp: raise_groups_def raisable_def fresh_flag_def list_all_iff)
  show "list_all plain [f_unit f, f_section f, f_name f, f_message f]"
    using assms(1,2) by (auto simp: raisable_def fresh_flag_def flag_key_def plain_flag_name)
  show "distinct (map group_name (raise_groups user grp f @ [Flag_opt ''up'']))" by (simp add: raise_groups_def)
qed

text \<open>Every field of the flag comes back from the command line.\<close>

lemma arguments_parsed:
  assumes "parser_law parse" and "raisable f" and "fresh_flag f" and "plain user" and "plain grp"
  shows "parsed_flag (parse (raise_flag_arguments user grp f)) f"
proof -
  let ?gs = "raise_groups user grp f" and ?args = "[f_unit f, f_section f, f_name f, f_message f]"
  let ?o = "parse (raise_flag_arguments user grp f)"
  have "\<forall>m. m \<noteq> ''--'' \<longrightarrow> o_defined ?o m = (m \<in> group_name ` set (?gs @ [Flag_opt ''up'']))"
    and vals: "\<forall>g \<in> set ?gs. o_size ?o (group_name g) = length (group_values g) \<and>
        map (o_string ?o (group_name g)) [0..<length (group_values g)] = group_values g"
    and longs: "\<forall>m v i lo hi. Valued m [v] \<in> set ?gs \<and> undec_string v = Some i \<and> lo \<le> i \<and> i \<le> hi \<longrightarrow>
        o_long ?o m lo hi = i"
    and rest: "o_size ?o ''--'' = length ?args" "map (o_string ?o ''--'') [0..<length ?args] = ?args"
    using assms(1) raise_groups_ok [OF assms(2-5)] unfolding parser_law_def Let_def
      raise_flag_arguments_groups [OF assms(2)] by blast+
  then have defined: "o_defined ?o m = (m \<in> group_name ` set (?gs @ [Flag_opt ''up'']))" if "m \<noteq> ''--''" for m
    using that by blast
  have one: "o_string ?o m 0 = v" if "Valued m [v] \<in> set ?gs" for m v
    using vals that by fastforce
  have int: "o_long ?o m lo hi = i" if "Valued m [dec_string i] \<in> set ?gs" "lo \<le> i" "i \<le> hi" for m i lo hi
    using longs that undec_dec_string by blast
  have "uint (f_line f) < 4294967296" using uint_lt2p [of "f_line f"] by simp
  moreover have "uint (f_line f) \<noteq> 0" "0 \<le> uint (f_line f)" using assms(2) by (simp_all add: raisable_def uint_0_iff)
  ultimately have line: "1 \<le> uint (f_line f)" "uint (f_line f) \<le> long_max" unfolding long_max_def by linarith+
  have prio: "0 \<le> f_priority f" "f_priority f \<le> 100" using assms(3) by (simp_all add: fresh_flag_def)
  have m: "Valued ''source-file'' [f_source_file f] \<in> set ?gs" "Valued ''function'' [f_function f] \<in> set ?gs"
    "Valued ''line'' [dec_string (uint (f_line f))] \<in> set ?gs"
    "f_priority f \<noteq> 5 \<Longrightarrow> Valued ''priority'' [dec_string (f_priority f)] \<in> set ?gs"
    "f_tags f \<noteq> {} \<Longrightarrow> Valued ''tags'' (sorted_list_of_set (f_tags f)) \<in> set ?gs"
    by (simp_all add: raise_groups_def)
  have names: "group_name ` set (?gs @ [Flag_opt ''up'']) =
    {''user'', ''group'', ''source-file'', ''function'', ''line'', ''up''} \<union>
    (if f_priority f \<noteq> 5 then {''priority''} else {}) \<union> (if f_manual_down f then {''manual''} else {}) \<union>
    (if f_tags f \<noteq> {} then {''tags''} else {})"
    by (auto simp: raise_groups_def)
  have tags: "map (o_string ?o ''tags'') [0..<o_size ?o ''tags''] = sorted_list_of_set (f_tags f)" if "f_tags f \<noteq> {}"
    using vals m(5) [OF that] by fastforce
  have args: "o_string ?o ''--'' 0 = f_unit f" "o_string ?o ''--'' 1 = f_section f" "o_string ?o ''--'' 2 = f_name f"
    "o_string ?o ''--'' 3 = f_message f"
    using rest(2) by (simp_all add: upt_rec numeral_2_eq_2 numeral_3_eq_3)
  have defs: "o_defined ?o m = (m \<in> {''user'', ''group'', ''source-file'', ''function'', ''line'', ''up''} \<union>
    (if f_priority f \<noteq> 5 then {''priority''} else {}) \<union> (if f_manual_down f then {''manual''} else {}) \<union>
    (if f_tags f \<noteq> {} then {''tags''} else {}))" if "m \<noteq> ''--''" for m
    using defined [OF that] unfolding names .
  show ?thesis
    unfolding parsed_flag_def using one [OF m(1)] one [OF m(2)] int [OF m(3) line] int [OF m(4) prio] tags args rest(1)
    by (simp add: defs)
qed

lemma build_flag_parsed:
  assumes "parsed_flag opts f" and "fresh_flag f" and "f_date f = t"
  shows "build_flag opts t loc =
    Inr (0, f\<lparr>f_state := STATE_UP, f_column := l_column loc, f_from_raise_flag := True\<rparr>)"
proof -
  note p = assms(1) [unfolded parsed_flag_def]
  have n: "new_flag t (f_unit f) (f_section f) (f_name f) loc =
    Inr (default_flag\<lparr>f_unit := f_unit f, f_section := f_section f, f_name := f_name f, f_source_file := l_file loc,
      f_function := l_function loc, f_line := l_line loc, f_column := l_column loc, f_date := t\<rparr>)"
    using p assms(2) by (simp add: new_flag_def fresh_flag_def flag_key_def valid_name_again)
  have tags: "o_string opts ''tags'' ` {0..<o_size opts ''tags''} = f_tags f" if "f_tags f \<noteq> {}"
  proof -
    have "set (map (o_string opts ''tags'') [0..<o_size opts ''tags'']) = set (sorted_list_of_set (f_tags f))"
      using p that by simp
    then show ?thesis using assms(2) by (simp add: fresh_flag_def)
  qed
  show ?thesis
    using p assms(2,3) tags
    by (simp add: build_flag_def n Let_def set_from_raise_flag_def set_message_def set_source_file_def
        set_function_def set_line_def set_priority_def set_manual_down_def foldl_add_tag default_flag_def
        fresh_flag_def to_int32_id)
qed

text \<open>Who saves decides alone on what \<open>save\<close> does with a flag that is up; the column is not saved.\<close>

lemma save_from_raise_flag:
  assumes "f_state f = STATE_UP" and "f_filename f = []" and "save_as C E (set_from_raise_flag f) = Some switched"
  shows "save L C E (f\<lparr>f_column := n, f_from_raise_flag := True\<rparr>) w = save L C E f w"
proof -
  let ?f = "f\<lparr>f_column := n, f_from_raise_flag := True\<rparr>"
  have a: "save_as C E ?f = Some switched" "save_as C E f = Some switched"
    using assms(3) by (auto simp: save_as_def set_from_raise_flag_def split: if_splits)
  obtain fn f1 w1 where g: "get_filename C E f w = (fn, f1, w1)" by (cases "get_filename C E f w") auto
  then have g': "get_filename C E ?f w = (fn, f1\<lparr>f_column := n, f_from_raise_flag := True\<rparr>, w1)"
    using assms(2) by (auto simp: get_filename_def Let_def split: prod.splits if_splits)
  show ?thesis
  proof (cases "fn = []")
    case True
    then show ?thesis using g g' by (simp add: save_def)
  next
    case False
    have "save_up L C E switched fn ?f w1 = save_up L C E switched fn f w1"
      by (simp add: save_up_def flag_parameters_def)
    then show ?thesis
      using save_up_local [OF _ g' False a(1), of L] save_up_local [OF assms(1) g False a(2), of L] assms(1) by simp
  qed
qed

text \<open>
  C27: A process that may not write the flag files raises a flag with a message and a source
  location through the tool with the same effect
  as if it could: run with the command line that \<open>save\<close> builds, the tool exits with 0 and does to the
  files exactly what \<open>save\<close> does for a user with the rights.
\<close>

theorem delegated_raise:
  assumes "parser_law parse" and "raisable f" and "fresh_flag f" and "plain user" and "plain grp"
    and "f_date f = e_time E" and "save_as C E (set_from_raise_flag f) = Some switched"
  shows "raise_flag_save L C E show_date write_json (parse (raise_flag_arguments user grp f)) loc w =
    bind_res (save L C E f w) (\<lambda>_ w. Ret ([], 0) w)"
proof -
  let ?o = "parse (raise_flag_arguments user grp f)"
  have parsed: "parsed_flag ?o f" using assms(1-5) by (rule arguments_parsed)
  note p = parsed [unfolded parsed_flag_def]
  have st: "f_state f = STATE_UP" using assms(2) by (simp add: raisable_def)
  have up: "f\<lparr>f_column := l_column loc, f_from_raise_flag := True, f_state := STATE_UP\<rparr> =
    f\<lparr>f_column := l_column loc, f_from_raise_flag := True\<rparr>" using st by (cases f) simp
  have u: "raise_flag_save L C E show_date write_json ?o loc w =
    bind_res (raise_flag_up L C E ?o loc w) (\<lambda>r w. Ret ([], r) w)"
    using p by (simp add: raise_flag_save_def Let_def)
  have "raise_flag_up L C E ?o loc w =
    bind_res (save L C E (f\<lparr>f_column := l_column loc, f_from_raise_flag := True\<rparr>) w) (\<lambda>_ w. Ret 0 w)"
    using p up build_flag_parsed [OF parsed assms(3,6), of loc]
    by (simp add: raise_flag_up_def flag_up_down_def set_state_def)
  also have "\<dots> = bind_res (save L C E f w) (\<lambda>_ w. Ret 0 w)"
    using save_from_raise_flag [OF st _ assms(7), where L = L] assms(3) by (simp add: fresh_flag_def)
  finally show ?thesis unfolding u by (cases "save L C E f w") simp_all
qed

section \<open>A parser that follows the law\<close>

fun sample_parse :: "string \<Rightarrow> (string \<Rightarrow> string list option) \<Rightarrow> string list \<Rightarrow> string \<Rightarrow> string list option" where
  "sample_parse cur m [] = m"
| "sample_parse cur m (a # as) =
     (if take 2 a = ''--''
      then sample_parse (if a \<in> {''--up'', ''--down'', ''--manual''} then ''--'' else drop 2 a) (m(drop 2 a \<mapsto> [])) as
      else sample_parse cur (m(cur \<mapsto> (case m cur of None \<Rightarrow> [a] | Some vs \<Rightarrow> vs @ [a]))) as)"

text \<open>The values of the option \<open>tags\<close>: what is between the separators.\<close>

fun tag_values :: "string \<Rightarrow> string \<Rightarrow> string list" where
  "tag_values cur [] = (if cur = [] then [] else [cur])"
| "tag_values cur (c # cs) =
     (if c \<in> {CHR '' '', CHR '',''} then (if cur = [] then [] else [cur]) @ tag_values [] cs
      else tag_values (cur @ [c]) cs)"

definition option_values :: "string \<Rightarrow> string list \<Rightarrow> string list" where
  "option_values n vs = (if n = ''tags'' then concat (map (tag_values []) vs) else vs)"

definition sample_opts :: "string list \<Rightarrow> raise_opts" where
  "sample_opts args = (let m = sample_parse ''--'' Map.empty args in
     \<lparr>o_defined = (\<lambda>n. m n \<noteq> None),
      o_size = (\<lambda>n. case m n of None \<Rightarrow> 0 | Some vs \<Rightarrow> length (option_values n vs)),
      o_string = (\<lambda>n i. case m n of None \<Rightarrow> []
        | Some vs \<Rightarrow> if i < length (option_values n vs) then option_values n vs ! i else []),
      o_long = (\<lambda>n lo hi. case m n of
          Some [v] \<Rightarrow> (case undec_string v of None \<Rightarrow> - 1 | Some i \<Rightarrow> if lo \<le> i \<and> i \<le> hi then i else - 1)
        | _ \<Rightarrow> - 1)\<rparr>)"

lemma tag_values_ok: "list_all (\<lambda>c. c \<notin> {CHR '' '', CHR '',''}) t \<Longrightarrow> cur @ t \<noteq> [] \<Longrightarrow> tag_values cur t = [cur @ t]"
  by (induction t arbitrary: cur) simp_all

lemma option_values_ok: "(n = ''tags'' \<Longrightarrow> list_all tag_ok vs) \<Longrightarrow> option_values n vs = vs"
proof (cases "n = ''tags''")
  case True
  assume "n = ''tags'' \<Longrightarrow> list_all tag_ok vs"
  with True have "list_all tag_ok vs" by blast
  then have "concat (map (tag_values []) vs) = vs"
  proof (induction vs)
    case (Cons t ts)
    then have "tag_values [] t = [t]" using tag_values_ok [of t "[]"] by (simp add: tag_ok_def list_all_iff)
    with Cons show ?case by simp
  qed simp
  with True show ?thesis by (simp add: option_values_def)
qed (simp add: option_values_def)

lemma group_values_ok: "group_ok g \<Longrightarrow> option_values (group_name g) (group_values g) = group_values g"
  by (cases g) (auto intro: option_values_ok split: if_splits)

lemma plain_no_option: "plain a \<Longrightarrow> take 2 a \<noteq> ''--''"
  by (cases a) (auto simp: plain_def)

lemma sample_parse_values:
  "list_all plain vs \<Longrightarrow> sample_parse n (m(n \<mapsto> us)) (vs @ rest) = sample_parse n (m(n \<mapsto> us @ vs)) rest"
  by (induction vs arbitrary: us) (simp_all add: plain_no_option)

lemma sample_parse_arguments:
  "list_all plain vs \<Longrightarrow> vs \<noteq> [] \<Longrightarrow> m n = None \<Longrightarrow> sample_parse n m vs = m(n \<mapsto> vs)"
  using sample_parse_values [of "tl vs" n m "[hd vs]" "[]"] by (cases vs) (simp_all add: plain_no_option)

definition group_map :: "arg_group list \<Rightarrow> string \<Rightarrow> string list option" where
  "group_map gs = map_of (map (\<lambda>g. (group_name g, group_values g)) gs)"

lemma sample_parse_group:
  assumes "group_ok g"
  shows "\<exists>cur'. sample_parse cur m (render g @ rest) = sample_parse cur' (m(group_name g \<mapsto> group_values g)) rest"
proof (cases g)
  case (Flag_opt n)
  with assms show ?thesis by auto
next
  case (Valued n vs)
  then have "list_all plain vs" "n \<notin> {''up'', ''down'', ''manual''}" using assms by (auto split: if_splits)
  with Valued show ?thesis using sample_parse_values [of vs n m "[]" rest] by auto
qed

lemma sample_parse_groups:
  assumes "list_all group_ok gs"
  shows "\<exists>cur'. sample_parse cur m (concat (map render gs) @ rest) = sample_parse cur' (m ++ group_map (rev gs)) rest"
  using assms
proof (induction gs arbitrary: cur m)
  case Nil
  then show ?case by (auto simp: group_map_def)
next
  case (Cons g gs)
  obtain c where "sample_parse cur m (render g @ concat (map render gs) @ rest) =
      sample_parse c (m(group_name g \<mapsto> group_values g)) (concat (map render gs) @ rest)"
    using sample_parse_group Cons.prems by fastforce
  moreover have "\<exists>cur'. sample_parse c (m(group_name g \<mapsto> group_values g)) (concat (map render gs) @ rest) =
      sample_parse cur' (m(group_name g \<mapsto> group_values g) ++ group_map (rev gs)) rest"
    using Cons.IH Cons.prems by simp
  moreover have "m ++ group_map (rev (g # gs)) = m(group_name g \<mapsto> group_values g) ++ group_map (rev gs)"
    by (simp add: group_map_def)
  ultimately show ?case by simp
qed

lemma sample_parse_line:
  assumes "list_all group_ok (gs @ [Flag_opt n])" and "list_all plain args" and "args \<noteq> []"
  shows "sample_parse ''--'' Map.empty (concat (map render (gs @ [Flag_opt n])) @ args) =
    ((group_map (rev gs))(n \<mapsto> []))(''--'' \<mapsto> args)"
proof -
  obtain c where c: "sample_parse ''--'' Map.empty (concat (map render gs) @ (render (Flag_opt n) @ args)) =
      sample_parse c (Map.empty ++ group_map (rev gs)) (render (Flag_opt n) @ args)"
    using sample_parse_groups [of gs "''--''" Map.empty "render (Flag_opt n) @ args"] assms(1) by auto
  have "\<forall>g \<in> set gs. group_name g \<noteq> ''--''"
  proof
    fix g assume "g \<in> set gs"
    then have "group_ok g" using assms(1) by (auto simp: list_all_iff)
    then show "group_name g \<noteq> ''--''" by (cases g) (auto split: if_splits)
  qed
  then have "group_map (rev gs) ''--'' = None" by (auto simp: group_map_def map_of_eq_None_iff)
  moreover have "n \<in> {''up'', ''down'', ''manual''}" using assms(1) by simp
  ultimately show ?thesis using c sample_parse_arguments [OF assms(2,3), of _ "''--''"] by auto
qed

lemma sample_opts_law: "parser_law sample_opts"
proof -
  have "let opts = sample_opts (concat (map render (gs @ [Flag_opt n])) @ args) in
       (\<forall>m. m \<noteq> ''--'' \<longrightarrow> o_defined opts m = (m \<in> group_name ` set (gs @ [Flag_opt n]))) \<and>
       (\<forall>g \<in> set gs. o_size opts (group_name g) = length (group_values g) \<and>
          map (o_string opts (group_name g)) [0..<length (group_values g)] = group_values g) \<and>
       (\<forall>m v i lo hi. Valued m [v] \<in> set gs \<and> undec_string v = Some i \<and> lo \<le> i \<and> i \<le> hi \<longrightarrow>
          o_long opts m lo hi = i) \<and>
       o_size opts ''--'' = length args \<and> map (o_string opts ''--'') [0..<length args] = args"
    if a: "distinct (map group_name (gs @ [Flag_opt n]))" "list_all group_ok (gs @ [Flag_opt n])"
      "list_all plain args" "args \<noteq> []" for gs n args
  proof -
    let ?m = "((group_map (rev gs))(n \<mapsto> []))(''--'' \<mapsto> args)"
    have p: "sample_parse ''--'' Map.empty (concat (map render (gs @ [Flag_opt n])) @ args) = ?m"
      using a(2-4) by (rule sample_parse_line)
    have g: "group_name g \<noteq> ''--''" "group_name g \<noteq> n" "?m (group_name g) = Some (group_values g)"
      "option_values (group_name g) (group_values g) = group_values g" if "g \<in> set gs" for g
    proof -
      have "group_ok g" using that a(2) by (auto simp: list_all_iff)
      then show 1: "group_name g \<noteq> ''--''" by (cases g) (auto split: if_splits)
      show 2: "group_name g \<noteq> n" using that a(1) by force
      have "group_map (rev gs) (group_name g) = Some (group_values g)"
        unfolding group_map_def using a(1) that by (intro map_of_is_SomeI) (auto simp: rev_map [symmetric] comp_def)
      with 1 2 show "?m (group_name g) = Some (group_values g)" by simp
      show "option_values (group_name g) (group_values g) = group_values g" using \<open>group_ok g\<close> by (rule group_values_ok)
    qed
    have "dom (group_map (rev gs)) = group_name ` set gs"
      by (simp add: group_map_def dom_map_of_conv_image_fst image_image)
    then have k: "group_map (rev gs) m \<noteq> None \<longleftrightarrow> m \<in> group_name ` set gs" for m by blast
    have d: "?m m \<noteq> None \<longleftrightarrow> m \<in> group_name ` set (gs @ [Flag_opt n])" if "m \<noteq> ''--''" for m
      using that k [of m] by auto
    have v: "?m m = Some [v]" "option_values m [v] = [v]" if "Valued m [v] \<in> set gs" for m v
      using g(3,4) [OF that] by simp_all
    have n: "map (\<lambda>i. if i < length vs then vs ! i else []) [0..<length vs] = vs" for vs :: "string list"
      by (rule nth_equalityI) simp_all
    let ?opts = "sample_opts (concat (map render (gs @ [Flag_opt n])) @ args)"
    have o_values: "o_size ?opts k = length vs" "map (o_string ?opts k) [0..<length vs] = vs"
      "vs = [w] \<Longrightarrow> undec_string w = Some i \<Longrightarrow> lo \<le> i \<Longrightarrow> i \<le> hi \<Longrightarrow> o_long ?opts k lo hi = i"
      if "?m k = Some vs" "option_values k vs = vs" for k vs w i lo hi
      unfolding sample_opts_def Let_def p using that n [of vs] by (simp_all cong: if_cong)
    have o_def: "o_defined ?opts k = (?m k \<noteq> None)" for k unfolding sample_opts_def Let_def p by simp
    show ?thesis
      unfolding Let_def
    proof (intro conjI allI ballI impI)
      show "o_defined ?opts m = (m \<in> group_name ` set (gs @ [Flag_opt n]))" if "m \<noteq> ''--''" for m
        using o_def d [OF that] by blast
      show "o_size ?opts (group_name g) = length (group_values g)"
        "map (o_string ?opts (group_name g)) [0..<length (group_values g)] = group_values g" if "g \<in> set gs" for g
        using o_values [OF g(3) [OF that] g(4) [OF that]] by blast+
      show "o_long ?opts m lo hi = i" if "Valued m [v] \<in> set gs \<and> undec_string v = Some i \<and> lo \<le> i \<and> i \<le> hi"
        for m v i lo hi
        using that v [of m v] o_values(3) [of m "[v]" v i lo hi] by blast
      have "?m ''--'' = Some args" "option_values ''--'' args = args" by (simp_all add: option_values_def)
      then show "o_size ?opts ''--'' = length args" "map (o_string ?opts ''--'') [0..<length args] = args"
        by (rule o_values)+
    qed
  qed
  then show ?thesis unfolding parser_law_def by blast
qed

definition sample_tagged :: flag where
  "sample_tagged = set_priority 20 (add_tag ''net'' (add_tag ''disk'' sample_flag))"

theorem delegated_raise_witness:
  "raise_flag_save sample_lib sample_conf (sample_env\<lparr>e_time := 900\<rparr>) (\<lambda>t. []) (\<lambda>ops. [])
       (sample_opts (raise_flag_arguments ''communicator'' ''communicator'' sample_tagged)) sample_location sample_world =
     bind_res (save sample_lib sample_conf (sample_env\<lparr>e_time := 900\<rparr>) sample_tagged sample_world) (\<lambda>_ w. Ret ([], 0) w)"
proof -
  have "f_modified sample_tagged = - 1" "f_hostname sample_tagged = []" "flag.f_count sample_tagged = 0"
    "f_version sample_tagged = []" "f_priority sample_tagged = 20" "f_tags sample_tagged = {''net'', ''disk''}"
    "f_filename sample_tagged = []" "f_date sample_tagged = 900"
    by code_simp+
  moreover have "flag_key sample_tagged = flag_key sample_flag"
    by (simp add: sample_tagged_def set_priority_def add_tag_def flag_key_def)
  ultimately have f: "fresh_flag sample_tagged" "f_date sample_tagged = 900"
    by (simp_all add: fresh_flag_def sample_flag_key)
  have "raisable sample_tagged"
    by (simp add: raisable_def sample_tagged_def set_priority_def add_tag_def sample_flag_def set_message_def
        default_flag_def plain_def tag_ok_def)
  moreover have "save_as sample_conf (sample_env\<lparr>e_time := 900\<rparr>) (set_from_raise_flag sample_tagged) = Some False"
    by (simp add: save_as_def sample_env_def)
  ultimately show ?thesis
    using f by (intro delegated_raise [where switched = False] sample_opts_law) (simp_all add: plain_def)
qed

text \<open>
  A flag that is lowered with another priority than the default one cannot be lowered through the tool:
  the command line has an option that the tool refuses together with \<open>--down\<close>.
\<close>

lemma delegated_lower_refused:
  assumes "f_priority f \<noteq> 5"
  shows "''--priority'' \<in> set (raise_flag_arguments user grp f)"
    and "o_defined opts ''priority'' \<Longrightarrow> raise_flag_down L C E opts loc w = Ret 1 w"
  using assms by (simp_all add: raise_flag_arguments_def raise_flag_down_def)

end
