(* ===== verification/Cluster_Tool.thy ===== *)
theory Cluster_Tool
  imports Handlers
begin

text \<open>
  The tool tools/cluster_status.cpp: it registers with the daemon, asks for the status of the cluster,
  waits for both halves of the answer and prints them with the number of computers and the quorum.

  \<open>t_sent\<close> are the messages it sent, \<open>t_printed\<close> the lines it printed (the status, the completeness, the
  number of computers and the quorum). \<open>f_neighbors_count\<close> is a \<open>std::size_t\<close>.
\<close>

record cluster_tool =
  t_cluster_status :: string
  t_cluster_complete :: string
  f_neighbors_count :: int
  f_messenger :: bool
  t_sent :: "message list"
  t_printed :: "(string \<times> string \<times> int \<times> int) list"

definition new_cluster_tool :: cluster_tool where
  "new_cluster_tool = \<lparr>t_cluster_status = [], t_cluster_complete = [], f_neighbors_count = 0,
     f_messenger = False, t_sent = [], t_printed = []\<rparr>"

definition tool_send_message :: "message \<Rightarrow> cluster_tool \<Rightarrow> cluster_tool" where
  "tool_send_message msg t = t\<lparr>t_sent := t_sent t @ [msg]\<rparr>"

definition tool_run :: "('a, 'z) lib_scheme \<Rightarrow> cluster_tool \<Rightarrow> cluster_tool" where
  "tool_run L t =
     tool_send_message (add_version L (add_parameter ''service'' ''cluster'' (new_message\<lparr>m_command := ''REGISTER''\<rparr>)))
       (t\<lparr>f_messenger := True\<rparr>)"

definition tool_ready :: "cluster_tool \<Rightarrow> cluster_tool" where
  "tool_ready t = tool_send_message (new_message\<lparr>m_command := ''CLUSTER_STATUS'', m_service := ''communicatord''\<rparr>) t"

definition tool_stop :: "cluster_tool \<Rightarrow> cluster_tool" where
  "tool_stop t = t\<lparr>f_messenger := False\<rparr>"

definition to_size_t :: "int \<Rightarrow> int" where
  "to_size_t i = i mod 2 ^ 64"

definition tool_done :: "('a, 'z) lib_scheme \<Rightarrow> message \<Rightarrow> cluster_tool \<Rightarrow> (cluster_tool, unit) res" where
  "tool_done L msg t =
     (if t_cluster_status t = [] \<or> t_cluster_complete t = [] then ok t
      else bind_res (of_sum (get_integer L msg ''neighbors_count'') t) (\<lambda>n t.
        let t1 = t\<lparr>f_neighbors_count := to_size_t n\<rparr> in
        ok (tool_stop (t1\<lparr>t_printed := t_printed t1 @
          [(t_cluster_status t1, t_cluster_complete t1, f_neighbors_count t1, f_neighbors_count t1 div 2 + 1)]\<rparr>))))"

definition tool_msg_cluster_status :: "('a, 'z) lib_scheme \<Rightarrow> message \<Rightarrow> cluster_tool \<Rightarrow> (cluster_tool, unit) res" where
  "tool_msg_cluster_status L msg t = tool_done L msg (t\<lparr>t_cluster_status := m_command msg\<rparr>)"

definition tool_msg_cluster_complete :: "('a, 'z) lib_scheme \<Rightarrow> message \<Rightarrow> cluster_tool \<Rightarrow> (cluster_tool, unit) res" where
  "tool_msg_cluster_complete L msg t = tool_done L msg (t\<lparr>t_cluster_complete := m_command msg\<rparr>)"

text \<open>The matches of the tool's dispatcher; the other messages are handled by the library.\<close>

definition tool_dispatch :: "('a, 'z) lib_scheme \<Rightarrow> message \<Rightarrow> cluster_tool \<Rightarrow> (cluster_tool, unit) res" where
  "tool_dispatch L msg t =
     (if m_command msg \<in> {''CLUSTER_UP'', ''CLUSTER_DOWN''} then tool_msg_cluster_status L msg t
      else if m_command msg \<in> {''CLUSTER_COMPLETE'', ''CLUSTER_INCOMPLETE''} then tool_msg_cluster_complete L msg t
      else ok t)"

text \<open>
  The constructor: \<open>parsed\<close> is what parsing the command line does, which throws \<open>getopt_exit\<close> with an exit code
  or returns; \<open>local_listen\<close> is the parameter of that name in the configuration file of the daemon that the
  options name. It gives the address of the daemon, or an exception of the parser of addresses.
\<close>

definition new_cluster :: "('a, 'z) lib_scheme \<Rightarrow> int + string \<Rightarrow> (string \<Rightarrow> string) \<Rightarrow> int + exn + 'a" where
  "new_cluster L parsed local_listen =
     (case parsed of
        Inl code \<Rightarrow> Inl code
      | Inr config \<Rightarrow>
          case string_to_addr L (local_listen config) ''localhost'' 4040 of
            None \<Rightarrow> Inr (Inl (Invalid_address (local_listen config)))
          | Some a \<Rightarrow> Inr (Inr a))"

text \<open>
  \<open>main\<close>: \<open>event_loop a\<close> is what the loop does with the tool connected to the daemon at \<open>a\<close>. The exit code
  and the tool when it ends.
\<close>

definition cluster_main :: "('a, 'z) lib_scheme \<Rightarrow> int + string \<Rightarrow> (string \<Rightarrow> string)
    \<Rightarrow> ('a \<Rightarrow> cluster_tool \<Rightarrow> (cluster_tool, unit) res) \<Rightarrow> int \<times> cluster_tool" where
  "cluster_main L parsed local_listen event_loop =
     (case new_cluster L parsed local_listen of
        Inl code \<Rightarrow> (code, new_cluster_tool)
      | Inr (Inl e) \<Rightarrow> (1, new_cluster_tool)
      | Inr (Inr a) \<Rightarrow>
          case event_loop a (tool_run L new_cluster_tool) of
            Ret _ t \<Rightarrow> (0, t)
          | Raise e t \<Rightarrow> (1, t))"

section \<open>The tool and the daemon\<close>

text \<open>What the tool does with the messages the daemon sent to its connection.\<close>

fun tool_receive :: "('a, 'z) lib_scheme \<Rightarrow> cid \<Rightarrow> 'a event list \<Rightarrow> cluster_tool \<Rightarrow> (cluster_tool, unit) res" where
  "tool_receive L i [] t = ok t"
| "tool_receive L i (Sent j m # es) t =
     (if j = i then seq (tool_dispatch L m t) (tool_receive L i es) else tool_receive L i es t)"
| "tool_receive L i (_ # es) t = tool_receive L i es t"

text \<open>What the daemon answers to a connection that understands the four messages.\<close>

definition understands_status :: "'a conn \<Rightarrow> bool" where
  "understands_status c \<longleftrightarrow> (\<forall>cmd \<in> {''CLUSTER_UP'', ''CLUSTER_DOWN'', ''CLUSTER_COMPLETE'', ''CLUSTER_INCOMPLETE''}.
     understand_command c cmd)"

lemma cluster_status_answer:
  assumes "c_kind (obj d i) = Service_conn" and "understands_status (obj d i)"
  shows "cluster_status L (Some i) d = d\<lparr>out := out d @
    [Sent i (cluster_message d (cluster_up_down (count_live_connections d + 1) (total_count_of d)) (total_count_of d)),
     Sent i (cluster_message d (cluster_complete_incomplete (count_live_connections d + 1) (total_count_of d))
       (total_count_of d))]\<rparr>"
proof -
  have u: "understand_command (obj d i) (cluster_up_down n t)"
    "understand_command (obj d i) (cluster_complete_incomplete n t)" for n t
    using assms(2) by (simp_all add: understands_status_def cluster_up_down_def cluster_complete_incomplete_def)
  have m: "m_command (cluster_message d c n) = c" for c n by (simp add: cluster_message_def)
  show ?thesis
    using assms(1) u by (simp add: cluster_status_def cluster_status_up_def cluster_status_complete_def Let_def m
        send_message_to_connection_def send_message_def emit_def cluster_message_def)
qed

lemma get_integer_cluster_message:
  "integer_roundtrip L \<Longrightarrow> get_integer L (cluster_message d c n) ''neighbors_count'' = Inr (int n)"
  by (simp add: cluster_message_def get_integer_add_integer)

lemma tool_dispatch_status:
  assumes "m_command msg \<in> {''CLUSTER_UP'', ''CLUSTER_DOWN''}" and "t_cluster_complete t = []"
  shows "tool_dispatch L msg t = ok (t\<lparr>t_cluster_status := m_command msg\<rparr>)"
  using assms by (simp add: tool_dispatch_def tool_msg_cluster_status_def tool_done_def)

lemma tool_dispatch_complete:
  assumes "m_command msg \<in> {''CLUSTER_COMPLETE'', ''CLUSTER_INCOMPLETE''}" and "t_cluster_status t \<noteq> []"
    and "get_integer L msg ''neighbors_count'' = Inr n"
  shows "tool_dispatch L msg t = ok (t\<lparr>t_cluster_complete := m_command msg, f_neighbors_count := to_size_t n,
    t_printed := t_printed t @ [(t_cluster_status t, m_command msg, to_size_t n, to_size_t n div 2 + 1)],
    f_messenger := False\<rparr>)"
proof -
  have "m_command msg \<noteq> []" and "m_command msg \<notin> {''CLUSTER_UP'', ''CLUSTER_DOWN''}" using assms(1) by auto
  with assms show ?thesis
    by (simp add: tool_dispatch_def tool_msg_cluster_complete_def tool_done_def tool_stop_def)
qed

text \<open>
  C26: The tool shows what the daemon finds: asked by the tool's connection, the daemon answers with two
  messages from which the tool prints whether the cluster is up and complete, the number of computers
  and a quorum, and it ends. The cluster is shown up exactly when the computers that are connected,
  the daemon's included, reach the quorum that is shown.
\<close>

theorem cluster_tool_shows:
  assumes "integer_roundtrip L" and "m_user_data msg = Some i"
    and "c_kind (obj d i) = Service_conn" and "understands_status (obj d i)" and "\<not> f_is_udp (obj d i)"
    and "total_count_of d < 2 ^ 64" and "t_cluster_status t = []" and "t_cluster_complete t = []"
  shows "\<exists>d' es t' status complete quorum. msg_cluster_status L msg d = ok d' \<and> out d' = out d @ es \<and>
    tool_receive L i es t = ok t' \<and> \<not> f_messenger t' \<and>
    t_printed t' = t_printed t @ [(status, complete, int (total_count_of d), quorum)] \<and>
    quorum = int (total_count_of d) div 2 + 1 \<and>
    (status = ''CLUSTER_UP'' \<longleftrightarrow> quorum \<le> int (count_live_connections d + 1)) \<and>
    (complete = ''CLUSTER_COMPLETE'' \<longleftrightarrow> count_live_connections d + 1 = total_count_of d)"
proof -
  let ?n = "count_live_connections d + 1" and ?t = "total_count_of d"
  let ?up = "cluster_up_down ?n ?t" and ?c = "cluster_complete_incomplete ?n ?t"
  let ?m1 = "cluster_message d ?up ?t" and ?m2 = "cluster_message d ?c ?t"
  have m: "m_command (cluster_message d c n) = c" for c n by (simp add: cluster_message_def)
  have up: "?up \<in> {''CLUSTER_UP'', ''CLUSTER_DOWN''}" and upn: "?up \<noteq> []"
    by (simp_all add: cluster_up_down_def)
  have c: "?c \<in> {''CLUSTER_COMPLETE'', ''CLUSTER_INCOMPLETE''}" by (simp add: cluster_complete_incomplete_def)
  have t: "to_size_t (int ?t) = int ?t" using assms(6) by (simp add: to_size_t_def)
  let ?t1 = "t\<lparr>t_cluster_status := ?up\<rparr>"
  let ?t2 = "?t1\<lparr>t_cluster_complete := ?c, f_neighbors_count := int ?t,
    t_printed := t_printed t @ [(?up, ?c, int ?t, int ?t div 2 + 1)], f_messenger := False\<rparr>"
  have "tool_dispatch L ?m1 t = ok ?t1" using tool_dispatch_status [of ?m1 t L] up assms(8) by (simp add: m)
  moreover have "tool_dispatch L ?m2 ?t1 = ok ?t2"
    using tool_dispatch_complete [of ?m2 ?t1 L "int ?t"] c upn get_integer_cluster_message [OF assms(1), of d ?c ?t]
    by (simp add: m t)
  ultimately have r: "tool_receive L i [Sent i ?m1, Sent i ?m2] t = ok ?t2" by simp
  have q: "?up = ''CLUSTER_UP'' \<longleftrightarrow> int ?t div 2 + 1 \<le> int ?n"
  proof -
    have "x < 2 * (y + 1) \<longleftrightarrow> int x div 2 + 1 \<le> int (y + 1)" for x y :: nat by arith
    then show ?thesis unfolding cluster_up_down_iff .
  qed
  have k: "?c = ''CLUSTER_COMPLETE'' \<longleftrightarrow> ?n = ?t"
    by (auto simp: cluster_complete_incomplete_def total_count_of_def)
  have "msg_cluster_status L msg d = ok (d\<lparr>out := out d @ [Sent i ?m1, Sent i ?m2]\<rparr>)"
    using assms(2,5) cluster_status_answer [OF assms(3,4)] by (simp add: msg_cluster_status_def tcp_handler_Some)
  with r q k show ?thesis
    by (intro exI [of _ "d\<lparr>out := out d @ [Sent i ?m1, Sent i ?m2]\<rparr>"] exI [of _ "[Sent i ?m1, Sent i ?m2]"]
        exI [of _ ?t2] exI [of _ ?up] exI [of _ ?c] exI [of _ "int ?t div 2 + 1"]) simp
qed

definition sample_cluster_user :: "int daemon" where
  "sample_cluster_user = sample_daemon [sample_conn Service_conn ''cluster'' 0
     {''CLUSTER_UP'', ''CLUSTER_DOWN'', ''CLUSTER_COMPLETE'', ''CLUSTER_INCOMPLETE''}]"

theorem cluster_tool_shows_witness:
  "\<exists>d' es t'. msg_cluster_status sample_lib (new_message\<lparr>m_user_data := Some 0\<rparr>) sample_cluster_user = ok d' \<and>
     out d' = es \<and> tool_receive sample_lib 0 es new_cluster_tool = ok t' \<and>
     t_printed t' = [(''CLUSTER_UP'', ''CLUSTER_COMPLETE'', 1, 1)]"
proof -
  have f: "c_kind (obj sample_cluster_user 0) = Service_conn" "understands_status (obj sample_cluster_user 0)"
    "\<not> f_is_udp (obj sample_cluster_user 0)" "total_count_of sample_cluster_user = 1"
    "count_live_connections sample_cluster_user = 0" "out sample_cluster_user = []"
    "t_cluster_status new_cluster_tool = []" "t_cluster_complete new_cluster_tool = []"
    "t_printed new_cluster_tool = []"
    by code_simp+
  have "\<exists>d' es t' status complete quorum. msg_cluster_status sample_lib (new_message\<lparr>m_user_data := Some 0\<rparr>) sample_cluster_user = ok d' \<and>
      out d' = out sample_cluster_user @ es \<and> tool_receive sample_lib 0 es new_cluster_tool = ok t' \<and> \<not> f_messenger t' \<and>
      t_printed t' = t_printed new_cluster_tool @ [(status, complete, int (total_count_of sample_cluster_user), quorum)] \<and>
      quorum = int (total_count_of sample_cluster_user) div 2 + 1 \<and>
      (status = ''CLUSTER_UP'' \<longleftrightarrow> quorum \<le> int (count_live_connections sample_cluster_user + 1)) \<and>
      (complete = ''CLUSTER_COMPLETE'' \<longleftrightarrow>
        count_live_connections sample_cluster_user + 1 = total_count_of sample_cluster_user)"
    by (rule cluster_tool_shows [OF sample_lib_integers]) (simp_all add: f)
  then show ?thesis by (auto simp: f)
qed

end
