(* ===== verification/Client.thy ===== *)
theory Client
  imports Forward Sample
begin

text \<open>
  The client of the daemon, communicator/communicator_connection.cpp: a service derives from it, gives it
  the address of the daemon as a URI, and talks to the other services through it.

  The parsed URI (edhttp), what \<open>is_lan\<close> answers (libaddr) and whether the event loop takes the
  connection are inputs. A connection object is one of three classes of the file; each registers the
  service when it is connected, through \<open>register_service\<close> of the library, which is the event
  \<open>Registered\<close> here.
\<close>

record 'a client_range =
  r_has_from :: bool
  r_has_to :: bool
  r_from :: 'a
  r_to :: 'a
  r_size :: nat

record 'a uri =
  u_is_unix :: bool
  u_scheme :: string
  u_path :: string
  u_ranges :: "'a client_range list"

datatype 'a stream =
    Local_stream string
  | Tcp_stream "'a client_range list" bool
  | Udp_dgram 'a 'a

record 'a client =
  f_service_name :: string
  f_communicator_connection :: "'a stream option"
  c_in_loop :: bool
  c_link_up :: bool
  c_can_send :: "message \<Rightarrow> bool"
  c_sent :: "message list"
  c_registered :: nat
  c_unregistered :: nat
  c_statuses :: "(string \<times> string) list"

section \<open>Opening the connection\<close>

definition new_client :: "(message \<Rightarrow> bool) \<Rightarrow> string \<Rightarrow> exn + 'a client" where
  "new_client can_send service_name =
     (if service_name = [] then Inl Invalid_name
      else Inr \<lparr>f_service_name = service_name, f_communicator_connection = None, c_in_loop = False,
             c_link_up = False, c_can_send = can_send, c_sent = [], c_registered = 0, c_unregistered = 0,
             c_statuses = []\<rparr>)"

text \<open>A range that a plain connection must not use.\<close>

definition outside_lan :: "('a \<Rightarrow> bool) \<Rightarrow> 'a client_range \<Rightarrow> bool" where
  "outside_lan is_lan r \<longleftrightarrow> r_has_from r \<and> \<not> is_lan (r_from r) \<or> r_has_to r \<and> \<not> is_lan (r_to r)"

text \<open>The connection for a URI; \<open>simulate_connected\<close> of the UDP connection registers at once.\<close>

definition open_stream :: "('a, 'z) lib_scheme \<Rightarrow> ('a \<Rightarrow> bool) \<Rightarrow> 'a uri \<Rightarrow> exn + 'a stream" where
  "open_stream L is_lan u =
     (if u_is_unix u then
        if u_scheme u \<noteq> ''cd'' then Inl Connection_unavailable
        else Inr (Local_stream (CHR ''/'' # u_path u))
      else if u_ranges u = [] then Inl Connection_unavailable
      else if u_scheme u = ''cd'' then
        if list_ex (outside_lan is_lan) (u_ranges u) then Inl Security_issue
        else Inr (Tcp_stream (u_ranges u) False)
      else if u_scheme u = ''cds'' then Inr (Tcp_stream (u_ranges u) True)
      else if u_scheme u = ''cdu'' then
        if length (u_ranges u) \<noteq> 1 \<or> r_size (hd (u_ranges u)) \<noteq> 1 \<or> \<not> r_has_from (hd (u_ranges u))
        then Inl Connection_unavailable
        else
          let server = set_port L (r_from (hd (u_ranges u))) 0 in
          if \<not> is_lan server then Inl Security_issue
          else Inr (Udp_dgram server (r_from (hd (u_ranges u))))
      else Inl Connection_unavailable)"

definition register_service :: "'a client \<Rightarrow> 'a client" where
  "register_service c = c\<lparr>c_registered := Suc (c_registered c)\<rparr>"

definition process_communicator_options :: "('a, 'z) lib_scheme \<Rightarrow> ('a \<Rightarrow> bool) \<Rightarrow> bool \<Rightarrow> 'a uri \<Rightarrow> 'a client
    \<Rightarrow> ('a client, unit) res" where
  "process_communicator_options L is_lan added u c =
     (if f_communicator_connection c \<noteq> None then Raise Logic_error c
      else case open_stream L is_lan u of
             Inl e \<Rightarrow> Raise e c
           | Inr s \<Rightarrow>
               let c1 = (case s of Udp_dgram _ _ \<Rightarrow> register_service c | _ \<Rightarrow> c);
                   c2 = c1\<lparr>f_communicator_connection := Some s\<rparr>
               in if added then ok (c2\<lparr>c_in_loop := True\<rparr>)
                  else Raise Connection_unavailable (c2\<lparr>f_communicator_connection := None\<rparr>))"

section \<open>Using it\<close>

text \<open>The library connected or lost the stream; the two permanent connections register when connected.\<close>

definition stream_process_connected :: "'a client \<Rightarrow> 'a client" where
  "stream_process_connected c = register_service (c\<lparr>c_link_up := True\<rparr>)"

definition client_is_connected :: "'a client \<Rightarrow> bool" where
  "client_is_connected c =
     (case f_communicator_connection c of
        None \<Rightarrow> False
      | Some (Udp_dgram _ _) \<Rightarrow> True
      | Some _ \<Rightarrow> c_link_up c)"

text \<open>The message is changed in place, so the sender sees the service name too.\<close>

definition client_send_message :: "message \<Rightarrow> 'a client \<Rightarrow> bool \<times> message \<times> 'a client" where
  "client_send_message msg c =
     (case f_communicator_connection c of
        None \<Rightarrow> (False, msg, c)
      | Some _ \<Rightarrow>
          let msg1 = (if m_from_service msg = [] then msg\<lparr>m_from_service := f_service_name c\<rparr> else msg) in
          if c_can_send c msg1 then (True, msg1, c\<lparr>c_sent := c_sent c @ [msg1]\<rparr>)
          else (False, msg1, c))"

definition client_msg_status :: "message \<Rightarrow> 'a client \<Rightarrow> 'a client" where
  "client_msg_status msg c =
     (if \<not> has_parameter msg ''service'' \<or> \<not> has_parameter msg ''status'' then c
      else c\<lparr>c_statuses := c_statuses c @ [(param msg ''service'', param msg ''status'')]\<rparr>)"

definition unregister_communicator :: "bool \<Rightarrow> 'a client \<Rightarrow> 'a client" where
  "unregister_communicator quitting c =
     (if f_communicator_connection c = None then c
      else if quitting then c\<lparr>c_in_loop := False, f_communicator_connection := None\<rparr>
      else c\<lparr>c_unregistered := Suc (c_unregistered c)\<rparr>)"

definition request_failure :: "message \<Rightarrow> message" where
  "request_failure msg = add_parameter ''transmission_report'' ''failure'' msg"

section \<open>Where a client connects\<close>

text \<open>
  A stream that is encrypted, or stays on this computer, or whose addresses are in the local network: both ends of
  every range of a TCP stream; with UDP the address to listen on, which is the one to send to but for the port.
\<close>

fun stream_safe :: "('a, 'z) lib_scheme \<Rightarrow> ('a \<Rightarrow> bool) \<Rightarrow> 'a stream \<Rightarrow> bool" where
  "stream_safe L is_lan (Local_stream path) = True"
| "stream_safe L is_lan (Tcp_stream ranges secure) = (secure \<or>
     list_all (\<lambda>r. (r_has_from r \<longrightarrow> is_lan (r_from r)) \<and> (r_has_to r \<longrightarrow> is_lan (r_to r))) ranges)"
| "stream_safe L is_lan (Udp_dgram server address) = (is_lan server \<and> server = set_port L address 0)"

lemma open_stream_safe: "open_stream L is_lan u = Inr s \<Longrightarrow> stream_safe L is_lan s"
  by (auto simp: open_stream_def outside_lan_def list_ex_iff list_all_iff Let_def split: if_splits)

lemma open_stream_error: "open_stream L is_lan u = Inl e \<Longrightarrow> e \<in> {Connection_unavailable, Security_issue}"
  by (auto simp: open_stream_def Let_def split: if_splits)

text \<open>
  C24: A client talks in the clear only to the local network, as far as the addresses it was given go. When the
  options are accepted, it has a connection registered with the event loop that is encrypted, or a local socket,
  or whose addresses - the two ends of each range, the address of the UDP socket and the one its messages are
  sent to but for its port - are in the local network; when they are not, the call throws and there is no
  connection. The plain scheme with an end of a range outside the network is refused as a security issue. The
  addresses between the two ends of a range are not looked at (\<open>range_between_accepted\<close>).
\<close>

theorem client_stays_in_lan:
  assumes "f_communicator_connection c = None"
  shows "(case process_communicator_options L is_lan added u c of
      Ret _ c' \<Rightarrow> c_in_loop c' \<and> (\<exists>s. f_communicator_connection c' = Some s \<and> stream_safe L is_lan s)
    | Raise e c' \<Rightarrow> f_communicator_connection c' = None \<and> c_in_loop c' = c_in_loop c \<and>
        e \<in> {Connection_unavailable, Security_issue}) \<and>
    (\<not> u_is_unix u \<and> u_scheme u = ''cd'' \<and> list_ex (outside_lan is_lan) (u_ranges u) \<longrightarrow>
      process_communicator_options L is_lan added u c = Raise Security_issue c)"
proof
  show "case process_communicator_options L is_lan added u c of
      Ret _ c' \<Rightarrow> c_in_loop c' \<and> (\<exists>s. f_communicator_connection c' = Some s \<and> stream_safe L is_lan s)
    | Raise e c' \<Rightarrow> f_communicator_connection c' = None \<and> c_in_loop c' = c_in_loop c \<and>
        e \<in> {Connection_unavailable, Security_issue}"
    using assms
    by (cases "open_stream L is_lan u")
      (auto simp: process_communicator_options_def register_service_def Let_def ok_def
        dest: open_stream_safe open_stream_error split: stream.split)
  show "\<not> u_is_unix u \<and> u_scheme u = ''cd'' \<and> list_ex (outside_lan is_lan) (u_ranges u) \<longrightarrow>
      process_communicator_options L is_lan added u c = Raise Security_issue c"
    using assms by (cases "u_ranges u") (auto simp: process_communicator_options_def open_stream_def)
qed

definition sample_uri :: "string \<Rightarrow> int \<Rightarrow> int uri" where
  "sample_uri scheme a = \<lparr>u_is_unix = False, u_scheme = scheme, u_path = [],
     u_ranges = [\<lparr>r_has_from = True, r_has_to = False, r_from = a, r_to = 0, r_size = 1\<rparr>]\<rparr>"

definition sample_client :: "int client" where
  "sample_client = (case new_client (\<lambda>m. True) ''lock'' of Inr c \<Rightarrow> c)"

text \<open>A range with both ends in the local network is accepted, also when it goes through the public network.\<close>

lemma range_between_accepted:
  assumes "is_lan (r_from r)" and "is_lan (r_to r)"
  shows "open_stream L is_lan \<lparr>u_is_unix = False, u_scheme = ''cd'', u_path = p, u_ranges = [r]\<rparr> = Inr (Tcp_stream [r] False)"
  using assms by (simp add: open_stream_def outside_lan_def)

theorem client_stays_in_lan_witness:
  "process_communicator_options sample_lib (\<lambda>a. a < 100) True (sample_uri ''cd'' 200) sample_client =
     Raise Security_issue sample_client"
proof -
  have "f_communicator_connection sample_client = None"
    by (simp add: sample_client_def new_client_def)
  from client_stays_in_lan [OF this, where L = sample_lib and is_lan = "\<lambda>a. a < 100" and added = True
      and u = "sample_uri ''cd'' 200"]
  show ?thesis by (simp add: sample_uri_def outside_lan_def)
qed

section \<open>A message that cannot be delivered\<close>

text \<open>
  C32: A client that asks to be told about a failure is told, when the message names the daemon's own
  computer and a service that is neither connected nor known there: the daemon answers to the client's
  connection, and only to it, with one TRANSMISSION_REPORT that says the command failed. (Of a message for
  another computer that the daemon can pass to nobody no report is sent: \<open>failure_not_reported_elsewhere\<close>.)
\<close>

theorem failure_reported:
  assumes "client_send_message (request_failure msg) c = (True, msg', c')" and "f_service_name c \<noteq> []"
    and "servers_named d" and "\<not> is_broadcast_service (m_service msg)"
    and "forward_server_name d msg = f_server_name d" and "m_service msg \<notin> f_local_services_list d"
    and "\<forall>j \<in> set (connections d). \<not> is_destination d msg j"
  shows "last (c_sent c') = msg' \<and> m_from_service msg' \<noteq> [] \<and>
    (\<exists>report. forward_message L (msg'\<lparr>m_user_data := Some i\<rparr>) d = Ret False (d\<lparr>out := out d @ [Sent i report]\<rparr>) \<and>
      m_command report = ''TRANSMISSION_REPORT'' \<and> m_params report ''status'' = Some ''failed'' \<and>
      m_params report ''command'' = Some (m_command msg))"
proof -
  let ?m = "msg'\<lparr>m_user_data := Some i\<rparr>"
  have c: "c_sent c' = c_sent c @ [msg']" "m_from_service msg' \<noteq> []" "m_server msg' = m_server msg"
    "m_service msg' = m_service msg" "m_command msg' = m_command msg"
    "m_params msg' = (m_params msg)(''transmission_report'' \<mapsto> ''failure'')"
    using assms(1,2) by (auto simp: client_send_message_def request_failure_def Let_def split: option.splits if_splits)
  have "forward_server_name d ?m = forward_server_name d msg" using c by (simp add: forward_server_name_def)
  with assms(5) have n: "forward_server_name d ?m = f_server_name d" by simp
  have nd: "\<not> is_destination d ?m j" if "j \<in> set (connections d)" for j
    using assms(7) that c n assms(5) by (simp add: is_destination_def)
  then have f: "find (is_destination d ?m) (connections d) = None" by (simp add: find_None_iff)
  have scan: "forward_scan (f_server_name d) ?m (connections d) [] d =
      Ret (Some (filter (may_know d ?m) (connections d))) d"
    using forward_scan_spec [of "connections d" d ?m "[]"] servers_named_missing [OF assms(3)] f n by simp
  have "forward_elsewhere L ?m acc d = Ret False (transmission_report ?m False d)" for acc
    using n c assms(6) by (simp add: forward_elsewhere_def Let_def)
  then have "forward_message L ?m d = Ret False (transmission_report ?m False d)"
    using assms(4) c n scan by (simp add: forward_message_def)
  also have "transmission_report ?m False d = d\<lparr>out := out d @ [Sent i
      (add_parameter ''status'' ''failed'' (add_parameter ''command'' (m_command msg)
        (daemon_message (f_server_name d) ''TRANSMISSION_REPORT'')))]\<rparr>"
    using c by (simp add: transmission_report_def has_parameter_def param_def send_to_eq)
  finally show ?thesis using c(1,2) by auto
qed

text \<open>
  No report for another computer: with no connection that may know the service the message is dropped, whatever
  report it asks for, and \<open>forward_message\<close> returns true.
\<close>

lemma failure_not_reported_elsewhere:
  assumes "servers_named d" and "\<not> is_broadcast_service (m_service msg)"
    and "forward_server_name d msg \<notin> {[], ''*'', ''?'', f_server_name d}"
    and "\<forall>j \<in> set (connections d). \<not> is_destination d msg j \<and> \<not> may_know d msg j"
  shows "forward_message L msg d = Ret True d"
proof -
  have "find (is_destination d msg) (connections d) = None" "filter (may_know d msg) (connections d) = []"
    using assms(4) by (auto simp: find_None_iff filter_empty_conv)
  then have "forward_scan (forward_server_name d msg) msg (connections d) [] d = Ret (Some []) d"
    using forward_scan_spec [of "connections d" d msg "[]"] servers_named_missing [OF assms(1)] by simp
  then show ?thesis using assms(2,3) by (simp add: forward_message_def forward_elsewhere_def Let_def)
qed

definition sample_lock_request :: message where
  "sample_lock_request = new_message\<lparr>m_command := ''LOCK'', m_server := ''alpha'', m_service := ''locker''\<rparr>"

lemma failure_not_reported_sample:
  "forward_message sample_lib ((request_failure sample_lock_request)\<lparr>m_server := ''beta'', m_user_data := Some 3\<rparr>)
     (sample_daemon []) = Ret True (sample_daemon [])"
  by (rule failure_not_reported_elsewhere)
    (simp_all add: servers_named_def sample_lock_request_def request_failure_def new_message_def
      is_broadcast_service_def forward_server_name_def sample_daemon_def)

theorem failure_reported_witness:
  "\<exists>msg' c'. client_send_message (request_failure sample_lock_request)
       (sample_client\<lparr>f_communicator_connection := Some (Local_stream [])\<rparr>) = (True, msg', c') \<and>
     m_from_service msg' = ''lock'' \<and>
     (\<exists>report. forward_message sample_lib (msg'\<lparr>m_user_data := Some 3\<rparr>) (sample_daemon []) =
        Ret False ((sample_daemon [])\<lparr>out := [Sent 3 report]\<rparr>) \<and> m_params report ''status'' = Some ''failed'')"
proof -
  let ?c = "sample_client\<lparr>f_communicator_connection := Some (Local_stream [])\<rparr>"
  let ?msg = "(request_failure sample_lock_request)\<lparr>m_from_service := ''lock''\<rparr>"
  have s: "client_send_message (request_failure sample_lock_request) ?c = (True, ?msg, ?c\<lparr>c_sent := [?msg]\<rparr>)"
    by (simp add: client_send_message_def sample_client_def new_client_def request_failure_def sample_lock_request_def
        new_message_def Let_def)
  have d: "f_service_name ?c \<noteq> []" "servers_named (sample_daemon [])" "\<not> is_broadcast_service (m_service sample_lock_request)"
    "forward_server_name (sample_daemon []) sample_lock_request = f_server_name (sample_daemon [])"
    "m_service sample_lock_request \<notin> f_local_services_list (sample_daemon [])" "connections (sample_daemon []) = []"
    "out (sample_daemon []) = []"
    by (simp_all add: sample_client_def new_client_def servers_named_def sample_lock_request_def new_message_def
        is_broadcast_service_def forward_server_name_def sample_daemon_def)
  from failure_reported [OF s d(1-5), of sample_lib 3] d(6,7) s show ?thesis by auto
qed

end
