(* ===== verification/Init.thy ===== *)
theory Init
  imports System
begin

text \<open>
  The start of the daemon: the functions \<open>init_...\<close> of communicatord.cpp, which read the options, open the
  sockets and connect to the neighbors, and \<open>run\<close>.

  The options (advgetopt), the parsed URI of the secure listener (edhttp), the host and the system's users
  are the record \<open>start_options\<close>; \<open>i_socket_fails\<close> says which sockets, by the name the code gives them, the
  library cannot open, when their constructor throws. The members of the class that only the start uses, the
  parameters of the listening sockets, and the user and the group that the process was made to run as, are the
  record \<open>boot\<close> around the state of the daemon.
\<close>

record 'a secure_uri =
  s_scheme :: string
  s_username :: string
  s_password :: string
  s_ranges :: "(nat \<times> 'a option) list"

record 'a start_options =
  i_logger_ok :: bool
  i_debug_all_messages :: bool
  i_server_name :: "string option"
  i_hostname :: string
  i_valid_name :: "string \<Rightarrow> bool"
  i_user_name :: string
  i_group_name :: string
  i_max_connections :: int
  i_max_pending_connections :: int
  i_max_gossip_timeout :: "string option"
  i_service_names :: "string set option"
  i_local_listen :: string
  i_unix_listen :: "string option"
  i_remote_listen :: "string option"
  i_certificate :: string
  i_private_key :: string
  i_secure_listen :: "'a secure_uri option option"
  i_signal :: string
  i_my_address :: string
  i_neighbors :: "string option"
  i_loadavg_plugin :: bool
  i_find_interface :: "'a \<Rightarrow> bool"
  i_get_port :: "'a \<Rightarrow> nat"
  i_socket_fails :: "string \<Rightarrow> bool"
  i_is_root :: bool
  i_group_known :: "string \<Rightarrow> bool"
  i_setegid :: bool
  i_user_known :: "string \<Rightarrow> bool"
  i_seteuid :: bool

text \<open>A listening TCP socket: the listener object, its address, and whether it is encrypted.\<close>

record 'a tcp_listener =
  t_listener :: listener_t
  t_address :: 'a
  t_secure :: bool

record 'a boot =
  b_daemon :: "'a daemon"
  f_user_name :: string
  f_group_name :: string
  f_max_pending_connections :: nat
  f_default_remote_port :: nat
  b_tcp_listeners :: "cid \<Rightarrow> 'a tcp_listener option"
  p_egroup :: "string option"
  p_euser :: "string option"

definition on_daemon :: "('a daemon \<Rightarrow> 'a daemon) \<Rightarrow> 'a boot \<Rightarrow> 'a boot" where
  "on_daemon f b = b\<lparr>b_daemon := f (b_daemon b)\<rparr>"

definition size_t :: "int \<Rightarrow> nat" where
  "size_t i = nat (i mod 2 ^ 64)"

section \<open>Names and limits\<close>

text \<open>\<open>i_hostname\<close> is the name of the host with its dashes and periods replaced.\<close>

definition init_server_name :: "'a start_options \<Rightarrow> 'a boot \<Rightarrow> 'a boot" where
  "init_server_name opts b =
     (let name = (case i_server_name opts of None \<Rightarrow> f_server_name (b_daemon b) | Some n \<Rightarrow> n);
          name = (if name = [] then i_hostname opts else name);
          name = (if i_valid_name opts name then name else ''communicatord'')
      in on_daemon (f_server_name_update (\<lambda>_. name)) b)"

definition init_server_ownership :: "'a start_options \<Rightarrow> 'a boot \<Rightarrow> 'a boot" where
  "init_server_ownership opts b = b\<lparr>f_user_name := i_user_name opts, f_group_name := i_group_name opts\<rparr>"

definition init_max_connections :: "'a start_options \<Rightarrow> 'a boot \<Rightarrow> ('a boot, bool) res" where
  "init_max_connections opts b =
     Ret True (on_daemon (f_max_connections_update (\<lambda>_. size_t (i_max_connections opts)))
       (b\<lparr>f_max_pending_connections := size_t (i_max_pending_connections opts)\<rparr>))"

definition init_max_gossip_timeout :: "('a, 'z) lib_scheme \<Rightarrow> 'a start_options \<Rightarrow> 'a boot \<Rightarrow> 'a boot" where
  "init_max_gossip_timeout L opts b =
     (case i_max_gossip_timeout opts of
        None \<Rightarrow> b
      | Some s \<Rightarrow>
          (case convert_duration L s of
             None \<Rightarrow> b
           | Some timeout \<Rightarrow> on_daemon (set_max_gossip_timeout
               (if timeout < 0 then \<lceil>timeout * 1000000\<rceil> else \<lfloor>timeout * 1000000\<rfloor>)) b))"

definition load_list_of_local_services :: "('a, 'z) lib_scheme \<Rightarrow> 'a start_options \<Rightarrow> 'a boot \<Rightarrow> 'a boot" where
  "load_list_of_local_services L opts =
     on_daemon (\<lambda>d.
       let services = (case i_service_names opts of None \<Rightarrow> f_local_services_list d
                       | Some names \<Rightarrow> f_local_services_list d \<union> names)
       in d\<lparr>f_local_services_list := services, f_local_services := join_strings L services '',''\<rparr>)"

section \<open>Sockets\<close>

text \<open>A new object of the daemon's own, registered with the event loop.\<close>

definition add_own :: "'a conn \<Rightarrow> 'a daemon \<Rightarrow> bool \<times> cid \<times> 'a daemon" where
  "add_own c d =
     (let (i, d1) = new_object c d; (added, d2) = add_connection i d1 in (added, i, d2))"

definition init_interrupt :: "('a, 'z) lib_scheme \<Rightarrow> 'a boot \<Rightarrow> 'a boot" where
  "init_interrupt L =
     on_daemon (\<lambda>d.
       let (added, i, d1) = add_own ((blank_conn L Other_conn)\<lparr>c_name := ''communicator_interrupt''\<rparr>) d
       in d1\<lparr>f_interrupt := Some i\<rparr>)"

text \<open>
  A TCP listener: it is secure when it has a certificate and a key. The result is whether the event loop took
  it, and the object; the constructor throws when the socket cannot be opened.
\<close>

definition new_listener :: "('a, 'z) lib_scheme \<Rightarrow> 'a start_options \<Rightarrow> string \<Rightarrow> 'a \<Rightarrow> string \<Rightarrow> string \<Rightarrow> listener_t
    \<Rightarrow> 'a boot \<Rightarrow> ('a boot, bool \<times> cid) res" where
  "new_listener L opts name address certificate private_key l b =
     (if i_socket_fails opts name then Raise Socket_error b
      else
        let (added, i, d) = add_own ((blank_conn L Other_conn)\<lparr>c_name := name\<rparr>) (b_daemon b)
        in Ret (added, i) (b\<lparr>b_daemon := d, b_tcp_listeners := (b_tcp_listeners b)
             (i \<mapsto> \<lparr>t_listener = l, t_address = address, t_secure = certificate \<noteq> [] \<and> private_key \<noteq> []\<rparr>)\<rparr>))"

definition init_local_tcp_listener :: "('a, 'z) lib_scheme \<Rightarrow> 'a start_options \<Rightarrow> 'a boot \<Rightarrow> ('a boot, bool) res" where
  "init_local_tcp_listener L opts b =
     (case string_to_addr L (i_local_listen opts) ''127.0.0.1'' 4040 of
        None \<Rightarrow> Raise (Invalid_address (i_local_listen opts)) b
      | Some local_listen \<Rightarrow>
          if net_type L local_listen \<noteq> Loopback then Ret False b
          else
            bind_res (new_listener L opts ''communicator_local_listener'' local_listen [] []
                \<lparr>l_local = True, l_server_name = f_server_name (b_daemon b), l_username = [], l_password = []\<rparr> b)
              (\<lambda>(added, i) b1.
                if \<not> added then Ret False b1
                else Ret True (on_daemon (f_local_listener_update (\<lambda>_. Some i)) b1)))"

definition init_unix_listener :: "('a, 'z) lib_scheme \<Rightarrow> 'a start_options \<Rightarrow> 'a boot \<Rightarrow> ('a boot, bool) res" where
  "init_unix_listener L opts b =
     (case i_unix_listen opts of
        None \<Rightarrow> Ret True b
      | Some path \<Rightarrow>
          if i_socket_fails opts ''communicator_unix_listener'' then Raise Socket_error b
          else
            let (added, i, d) = add_own ((blank_conn L Other_conn)\<lparr>c_name := ''communicator_unix_listener''\<rparr>) (b_daemon b);
                b1 = b\<lparr>b_daemon := d\<lparr>f_unix_listener := Some i\<rparr>\<rparr>
            in Ret added b1)"

definition init_plain_remote_listener :: "('a, 'z) lib_scheme \<Rightarrow> 'a start_options \<Rightarrow> 'a boot \<Rightarrow> ('a boot, bool) res" where
  "init_plain_remote_listener L opts b =
     (case i_remote_listen opts of
        None \<Rightarrow> Ret True b
      | Some listen_str \<Rightarrow>
          (case string_to_addr L listen_str ''0.0.0.0'' 4042 of
             None \<Rightarrow> Raise (Invalid_address listen_str) b
           | Some listen_addr \<Rightarrow>
               if is_default_addr L listen_addr then Ret False b
               else if net_type L listen_addr = Loopback then Ret True b
               else if net_type L listen_addr \<noteq> Private then Ret False b
               else
                 bind_res (new_listener L opts ''communicator_remote_listener'' listen_addr [] []
                     \<lparr>l_local = False, l_server_name = f_server_name (b_daemon b), l_username = [], l_password = []\<rparr> b)
                   (\<lambda>(added, i) b1.
                     if \<not> added then Ret False b1
                     else Ret True ((on_daemon (\<lambda>d. d\<lparr>f_remote_listener := Some i,
                            f_public_ip := ip_port_string L listen_addr\<rparr>) b1)
                          \<lparr>f_default_remote_port := i_get_port opts listen_addr\<rparr>))))"

definition init_secure_remote_listener :: "('a, 'z) lib_scheme \<Rightarrow> 'a start_options \<Rightarrow> 'a boot \<Rightarrow> ('a boot, bool) res" where
  "init_secure_remote_listener L opts b =
     (if i_certificate opts = [] then Ret True b
      else if i_private_key opts = [] then Ret True b
      else case i_secure_listen opts of
        None \<Rightarrow> Ret True b
      | Some None \<Rightarrow> Ret False b
      | Some (Some u) \<Rightarrow>
          if s_username u = [] then Ret False b
          else if s_password u = [] then Ret False b
          else case s_ranges u of
            [(n, Some a)] \<Rightarrow>
              if n \<noteq> 1 then Ret False b
              else if net_type L a \<notin> {Public, Private, Any_network} then Ret True b
              else
                bind_res (new_listener L opts ''communicator_secure_listener'' a (i_certificate opts) (i_private_key opts)
                    \<lparr>l_local = False, l_server_name = f_server_name (b_daemon b), l_username = s_username u,
                     l_password = s_password u\<rparr> b)
                  (\<lambda>(added, i) b1.
                    if \<not> added then Ret False b1
                    else
                      let b2 = on_daemon (\<lambda>d. d\<lparr>f_secure_listener := Some i, f_secure_ip := ip_port_string L a\<rparr>) b1
                      in Ret True (if f_remote_listener (b_daemon b2) = None
                                   then b2\<lparr>f_default_remote_port := i_get_port opts a\<rparr> else b2))
          | _ \<Rightarrow> Ret False b)"

definition init_ping_listener :: "('a, 'z) lib_scheme \<Rightarrow> 'a start_options \<Rightarrow> 'a boot \<Rightarrow> ('a boot, unit) res" where
  "init_ping_listener L opts b =
     (case string_to_addr L (i_signal opts) ''127.0.0.1'' 4041 of
        None \<Rightarrow> Raise (Invalid_address (i_signal opts)) b
      | Some signal_address \<Rightarrow>
          if i_socket_fails opts ''communicator_messenger_udp'' then Raise Socket_error b
          else
            let (added, i, d) = add_own ((blank_conn L Ping_conn)\<lparr>c_name := ''communicator_messenger_udp''\<rparr>) (b_daemon b)
            in ok (b\<lparr>b_daemon := (if added then d\<lparr>f_ping := Some i\<rparr> else d)\<rparr>))"

section \<open>The network\<close>

definition init_connection_address :: "('a, 'z) lib_scheme \<Rightarrow> 'a start_options \<Rightarrow> 'a boot \<Rightarrow> ('a boot, bool) res" where
  "init_connection_address L opts b =
     (case string_to_addr L (i_my_address opts) [] (f_default_remote_port b) of
        None \<Rightarrow> Raise (Invalid_address (i_my_address opts)) b
      | Some a \<Rightarrow> Ret (i_find_interface opts a) (on_daemon (f_connection_address_update (\<lambda>_. a)) b))"

text \<open>A function of the daemon that may throw, in the state of the start.\<close>

definition lift_daemon :: "('a daemon \<Rightarrow> ('a daemon, 'r) res) \<Rightarrow> 'a boot \<Rightarrow> ('a boot, 'r) res" where
  "lift_daemon f b = (case f (b_daemon b) of
      Ret r d \<Rightarrow> Ret r (b\<lparr>b_daemon := d\<rparr>)
    | Raise e d \<Rightarrow> Raise e (b\<lparr>b_daemon := d\<rparr>))"

text \<open>The object \<open>remote_communicators\<close> is new: its maps are empty.\<close>

definition new_remote_communicators :: "'a daemon \<Rightarrow> 'a daemon" where
  "new_remote_communicators d = d\<lparr>f_last_start_date := 0, f_all_ips := {}, f_smaller_ips := [], f_gossip_ips := []\<rparr>"

definition init_neighbors :: "('a::linorder, 'z) lib_scheme \<Rightarrow> 'a start_options \<Rightarrow> 'a daemon \<Rightarrow> ('a daemon, unit) res" where
  "init_neighbors L opts d =
     (let d1 = new_remote_communicators d;
          a = f_connection_address d1
      in seq (if net_type L a \<noteq> Loopback \<and> \<not> is_default_addr L a then add_neighbors L (ip_port_string L a) d1 else ok d1)
           (\<lambda>d2. case i_neighbors opts of
              None \<Rightarrow> ok d2
            | Some neighbors \<Rightarrow>
                let explicit = canonicalize_neighbors L neighbors
                in add_neighbors L explicit (d2\<lparr>f_explicit_neighbors := explicit\<rparr>)))"

definition load_plugins :: "'a start_options \<Rightarrow> 'a daemon \<Rightarrow> 'a daemon" where
  "load_plugins opts d = d\<lparr>p_loadavg := i_loadavg_plugin opts\<rparr>"

section \<open>The start\<close>

text \<open>A function that fails makes \<open>init\<close> return 1.\<close>

definition or_fail :: "('s, bool) res \<Rightarrow> ('s \<Rightarrow> ('s, int) res) \<Rightarrow> ('s, int) res" where
  "or_fail m f = bind_res m (\<lambda>b s. if b then f s else Ret 1 s)"

definition init_daemon :: "('a::linorder, 'z) lib_scheme \<Rightarrow> 'a start_options \<Rightarrow> 'a boot \<Rightarrow> ('a boot, int) res" where
  "init_daemon L opts b0 =
     or_fail (init_max_connections opts (init_server_ownership opts (init_server_name opts b0))) (\<lambda>b.
     or_fail (init_local_tcp_listener L opts
       (init_interrupt L (load_list_of_local_services L opts (init_max_gossip_timeout L opts b)))) (\<lambda>b.
     or_fail (init_unix_listener L opts b) (\<lambda>b.
     or_fail (init_plain_remote_listener L opts b) (\<lambda>b.
     or_fail (init_secure_remote_listener L opts b) (\<lambda>b.
     seq (init_ping_listener L opts b) (\<lambda>b.
     or_fail (init_connection_address L opts b) (\<lambda>b.
     seq (lift_daemon (init_neighbors L opts) b) (\<lambda>b.
     Ret 0 (on_daemon (\<lambda>d. cluster_status L None (load_plugins opts d)) b)))))))))"





section \<open>The daemon that starts\<close>

text \<open>The state before the start: no object, no connection, nothing known.\<close>

definition fresh_daemon :: "'a daemon \<Rightarrow> bool" where
  "fresh_daemon d \<longleftrightarrow> connections d = [] \<and> own_connections d = {None} \<and> f_all_ips d = {} \<and> f_smaller_ips d = [] \<and>
     f_gossip_ips d = [] \<and> f_all_neighbors d = {||} \<and> f_received_broadcast_messages d = [] \<and> g_blocked_ips d = []"

lemma fresh_initial: "fresh_daemon d \<Longrightarrow> initial_daemon d"
  by (auto simp: fresh_daemon_def initial_daemon_def own_ok_def)

text \<open>An own object keeps the daemon an initial one, and may be one of its sockets.\<close>

lemma initial_keep:
  assumes "initial_daemon d" and "connections d' = connections d" "next_id d' = next_id d" "obj d' = obj d"
    and "f_all_ips d' = f_all_ips d" "f_smaller_ips d' = f_smaller_ips d" "f_gossip_ips d' = f_gossip_ips d"
    and "f_all_neighbors d' = f_all_neighbors d" "g_blocked_ips d' = g_blocked_ips d"
    and "f_received_broadcast_messages d' = f_received_broadcast_messages d"
    and "own_connections d' \<subseteq> own_connections d \<union> own"
    and "\<And>i. Some i \<in> own \<Longrightarrow> i < next_id d \<and> c_kind (obj d i) \<in> {Other_conn, Ping_conn}"
  shows "initial_daemon d'"
proof -
  have "own_ok d'" using assms unfolding own_ok_def initial_daemon_def by (metis UnE subsetD)
  with assms show ?thesis unfolding initial_daemon_def by simp
qed

lemma initial_own:
  assumes "initial_daemon d" and "i < next_id d" and "c_kind (obj d i) \<in> {Other_conn, Ping_conn}"
  shows "initial_daemon (d\<lparr>f_interrupt := Some i\<rparr>)" "initial_daemon (d\<lparr>f_local_listener := Some i\<rparr>)"
    "initial_daemon (d\<lparr>f_unix_listener := Some i\<rparr>)"
    "initial_daemon (d\<lparr>f_remote_listener := Some i, f_public_ip := s\<rparr>)"
    "initial_daemon (d\<lparr>f_secure_listener := Some i, f_secure_ip := s\<rparr>)" "initial_daemon (d\<lparr>f_ping := Some i\<rparr>)"
  by (rule initial_keep [OF assms(1), where own = "{Some i}"]; use assms(2,3) in \<open>auto simp: own_connections_def\<close>)+

lemma initial_fields:
  assumes "initial_daemon d"
  shows "initial_daemon (d\<lparr>f_server_name := s\<rparr>)" "initial_daemon (d\<lparr>f_max_connections := n\<rparr>)"
    "initial_daemon (d\<lparr>g_max_gossip_timeout := t\<rparr>)"
    "initial_daemon (d\<lparr>f_local_services_list := S, f_local_services := s\<rparr>)"
    "initial_daemon (d\<lparr>f_connection_address := a\<rparr>)"
  by (rule initial_keep [OF assms, where own = "{}"]; simp add: own_connections_def)+

lemma add_own_initial:
  assumes "add_own c d = (added, i, d')" and "initial_daemon d" and "c_kind c \<in> {Other_conn, Ping_conn}"
  shows "initial_daemon d'" "added" "i < next_id d'" "c_kind (obj d' i) \<in> {Other_conn, Ping_conn}"
proof -
  let ?n = "next_id d"
  have n: "?n \<notin> set (connections d)" using assms(2) by (auto simp: initial_daemon_def)
  with assms(1) have d': "added" "i = ?n"
    "d' = d\<lparr>obj := (obj d)(?n := c), next_id := Suc ?n, connections := connections d @ [?n]\<rparr>"
    by (auto simp: add_own_def new_object_def add_connection_def Let_def)
  have own: "own_connections d' = own_connections d" by (simp add: d' own_connections_def)
  have lt: "j < ?n" if "j \<in> set (connections d) \<or> Some j \<in> own_connections d" for j
    using that assms(2) unfolding initial_daemon_def own_ok_def by blast
  have "own_ok d'"
    using assms(2) lt unfolding own_ok_def own initial_daemon_def by (auto simp: d' less_Suc_eq)
  then show "initial_daemon d'"
    using assms(2,3) n lt unfolding initial_daemon_def by (auto simp: d' less_Suc_eq)
  show "added" "i < next_id d'" "c_kind (obj d' i) \<in> {Other_conn, Ping_conn}"
    using assms(3) by (simp_all add: d')
qed

section \<open>What is kept while the sockets are opened\<close>

text \<open>
  A listener that outsiders can use safely: the one for local services is on the loopback, the one in the
  clear on a private address that is not the default one, and the encrypted one asks for credentials.
\<close>

definition listener_safe :: "('a, 'z) lib_scheme \<Rightarrow> 'a tcp_listener \<Rightarrow> bool" where
  "listener_safe L l \<longleftrightarrow>
     (if l_local (t_listener l) then net_type L (t_address l) = Loopback
      else if t_secure l then l_username (t_listener l) \<noteq> [] \<and> l_password (t_listener l) \<noteq> []
      else net_type L (t_address l) = Private \<and> \<not> is_default_addr L (t_address l))"

definition listeners_ok :: "('a, 'z) lib_scheme \<Rightarrow> 'a boot \<Rightarrow> bool" where
  "listeners_ok L b \<longleftrightarrow> (\<forall>i l. b_tcp_listeners b i = Some l \<longrightarrow> listener_safe L l)"

definition boot_ok :: "('a::linorder, 'z) lib_scheme \<Rightarrow> 'a boot \<Rightarrow> bool" where
  "boot_ok L b \<longleftrightarrow> initial_daemon (b_daemon b) \<and> listeners_ok L b"

lemma boot_ok_on_daemon:
  assumes "boot_ok L b" and "initial_daemon (b_daemon b) \<Longrightarrow> initial_daemon (f (b_daemon b))"
  shows "boot_ok L (on_daemon f b)"
  using assms by (simp add: boot_ok_def listeners_ok_def on_daemon_def)

lemma boot_ok_fields [simp]:
  "boot_ok L (b\<lparr>f_user_name := u, f_group_name := g\<rparr>) = boot_ok L b"
  "boot_ok L (b\<lparr>f_max_pending_connections := n\<rparr>) = boot_ok L b"
  "boot_ok L (b\<lparr>f_default_remote_port := n\<rparr>) = boot_ok L b"
  by (simp_all add: boot_ok_def listeners_ok_def)

lemma init_names_ok:
  assumes "boot_ok L b"
  shows "boot_ok L (init_server_name opts b)" "boot_ok L (init_server_ownership opts b)"
    "boot_ok L (init_max_gossip_timeout L opts b)" "boot_ok L (load_list_of_local_services L opts b)"
    "boot_ok L (res_state (init_max_connections opts b))"
  using assms
  by (auto simp: init_server_name_def init_server_ownership_def init_max_gossip_timeout_def
      load_list_of_local_services_def init_max_connections_def set_max_gossip_timeout_def Let_def
      intro!: boot_ok_on_daemon initial_fields split: option.split)

lemma init_interrupt_ok: "boot_ok L b \<Longrightarrow> boot_ok L (init_interrupt L b)"
  unfolding init_interrupt_def
proof (rule boot_ok_on_daemon, assumption)
  let ?c = "(blank_conn L Other_conn)\<lparr>c_name := ''communicator_interrupt''\<rparr>"
  assume "initial_daemon (b_daemon b)"
  moreover obtain added i d1 where a: "add_own ?c (b_daemon b) = (added, i, d1)" by (cases "add_own ?c (b_daemon b)") auto
  ultimately show "initial_daemon (let (added, i, d1) = add_own ?c (b_daemon b) in d1\<lparr>f_interrupt := Some i\<rparr>)"
    using add_own_initial [OF a] initial_own(1) by (simp add: blank_conn_def)
qed

text \<open>A new TCP listener; the daemon gets it as one of its sockets with the update \<open>f\<close>.\<close>

lemma new_listener_ok:
  assumes "new_listener L opts name a cert key l b = Ret (added, i) b1" and "boot_ok L b"
    and "listener_safe L \<lparr>t_listener = l, t_address = a, t_secure = (cert \<noteq> [] \<and> key \<noteq> [])\<rparr>"
  shows "boot_ok L b1" "added" "i < next_id (b_daemon b1)" "c_kind (obj (b_daemon b1) i) \<in> {Other_conn, Ping_conn}"
proof -
  let ?c = "(blank_conn L Other_conn)\<lparr>c_name := name\<rparr>"
  obtain d where a: "add_own ?c (b_daemon b) = (added, i, d)" and b1: "b1 = b\<lparr>b_daemon := d, b_tcp_listeners :=
      (b_tcp_listeners b)(i \<mapsto> \<lparr>t_listener = l, t_address = a, t_secure = (cert \<noteq> [] \<and> key \<noteq> [])\<rparr>)\<rparr>"
    using assms(1) by (auto simp: new_listener_def Let_def split: prod.splits if_splits)
  have "initial_daemon (b_daemon b)" using assms(2) by (simp add: boot_ok_def)
  note o = add_own_initial [OF a this]
  show "boot_ok L b1" using o(1) assms(2,3) by (simp add: boot_ok_def listeners_ok_def b1 blank_conn_def)
  show "added" "i < next_id (b_daemon b1)" "c_kind (obj (b_daemon b1) i) \<in> {Other_conn, Ping_conn}"
    using o(2-4) by (simp_all add: b1 blank_conn_def)
qed

lemma new_listener_Raise: "new_listener L opts name a cert key l b = Raise e b1 \<Longrightarrow> b1 = b"
  by (auto simp: new_listener_def Let_def split: prod.splits if_splits)

lemma bind_listener:
  assumes "\<And>e b1. m = Raise e b1 \<Longrightarrow> boot_ok L b1"
    and "\<And>added i b1. m = Ret (added, i) b1 \<Longrightarrow> boot_ok L (res_state (f (added, i) b1))"
  shows "boot_ok L (res_state (bind_res m f))"
  using assms by (cases m) auto

lemma init_local_tcp_listener_ok:
  assumes "boot_ok L b" shows "boot_ok L (res_state (init_local_tcp_listener L opts b))"
proof -
  have "boot_ok L b1" "boot_ok L (on_daemon (f_local_listener_update (\<lambda>_. Some i)) b1)"
    if "new_listener L opts ''communicator_local_listener'' a [] []
      \<lparr>l_local = True, l_server_name = f_server_name (b_daemon b), l_username = [], l_password = []\<rparr> b = Ret (added, i) b1"
      "net_type L a = Loopback" for added i b1 a
    using new_listener_ok [OF that(1) assms] that(2)
    by (auto simp: listener_safe_def intro!: boot_ok_on_daemon initial_own)
  with assms show ?thesis
    by (auto simp: init_local_tcp_listener_def split: option.split dest: new_listener_Raise intro!: bind_listener)
qed

lemma init_unix_listener_ok:
  assumes "boot_ok L b" shows "boot_ok L (res_state (init_unix_listener L opts b))"
proof -
  let ?c = "(blank_conn L Other_conn)\<lparr>c_name := ''communicator_unix_listener''\<rparr>"
  obtain added i d where a: "add_own ?c (b_daemon b) = (added, i, d)" by (cases "add_own ?c (b_daemon b)") auto
  have "initial_daemon (d\<lparr>f_unix_listener := Some i\<rparr>)"
    using add_own_initial [OF a] assms initial_own(3) by (simp add: boot_ok_def blank_conn_def)
  with assms a show ?thesis
    by (simp add: init_unix_listener_def boot_ok_def listeners_ok_def split: option.split)
qed

lemma init_plain_remote_listener_ok:
  assumes "boot_ok L b" shows "boot_ok L (res_state (init_plain_remote_listener L opts b))"
proof -
  have "boot_ok L b1" "boot_ok L (on_daemon (\<lambda>d. d\<lparr>f_remote_listener := Some i, f_public_ip := s\<rparr>) b1)"
    if "new_listener L opts ''communicator_remote_listener'' a [] []
      \<lparr>l_local = False, l_server_name = f_server_name (b_daemon b), l_username = [], l_password = []\<rparr> b = Ret (added, i) b1"
      "net_type L a = Private" "\<not> is_default_addr L a" for added i b1 a s
    using new_listener_ok [OF that(1) assms] that(2,3)
    by (auto simp: listener_safe_def intro!: boot_ok_on_daemon initial_own)
  with assms show ?thesis
    by (auto simp: init_plain_remote_listener_def split: option.split dest: new_listener_Raise intro!: bind_listener)
qed

lemma init_secure_remote_listener_ok:
  assumes "boot_ok L b" shows "boot_ok L (res_state (init_secure_remote_listener L opts b))"
proof -
  have "boot_ok L b1" "boot_ok L (on_daemon (\<lambda>d. d\<lparr>f_secure_listener := Some i, f_secure_ip := s\<rparr>) b1)"
    if "new_listener L opts ''communicator_secure_listener'' a (i_certificate opts) (i_private_key opts)
      \<lparr>l_local = False, l_server_name = f_server_name (b_daemon b), l_username = u, l_password = p\<rparr> b = Ret (added, i) b1"
      "i_certificate opts \<noteq> []" "i_private_key opts \<noteq> []" "u \<noteq> []" "p \<noteq> []" for added i b1 a s u p
    using new_listener_ok [OF that(1) assms] that(2-5)
    by (auto simp: listener_safe_def intro!: boot_ok_on_daemon initial_own)
  with assms show ?thesis
    by (auto simp: init_secure_remote_listener_def Let_def split: option.split list.split dest: new_listener_Raise
        intro!: bind_listener)
qed

lemma init_ping_listener_ok:
  assumes "boot_ok L b" shows "boot_ok L (res_state (init_ping_listener L opts b))"
proof -
  let ?c = "(blank_conn L Ping_conn)\<lparr>c_name := ''communicator_messenger_udp''\<rparr>"
  obtain added i d where a: "add_own ?c (b_daemon b) = (added, i, d)" by (cases "add_own ?c (b_daemon b)") auto
  have "initial_daemon d" "initial_daemon (d\<lparr>f_ping := Some i\<rparr>)"
    using add_own_initial [OF a] assms initial_own(6) by (simp_all add: boot_ok_def blank_conn_def)
  with assms a show ?thesis
    by (simp add: init_ping_listener_def boot_ok_def listeners_ok_def split: option.split)
qed

lemma init_connection_address_ok:
  "boot_ok L b \<Longrightarrow> boot_ok L (res_state (init_connection_address L opts b))"
  by (auto simp: init_connection_address_def intro!: boot_ok_on_daemon initial_fields split: option.split)

section \<open>The start as a whole\<close>

text \<open>What holds at the end of a sequence of functions that can fail, wherever it ends.\<close>

lemma or_fail_keeps:
  assumes "P (res_state m)" and "\<And>b. P b \<Longrightarrow> Q b" and "\<And>b. P b \<Longrightarrow> Q (res_state (f b))"
  shows "Q (res_state (or_fail m f))"
  using assms by (cases m) (auto simp: or_fail_def)

lemma seq_keeps:
  assumes "P (res_state m)" and "\<And>b. P b \<Longrightarrow> Q b" and "\<And>b. P b \<Longrightarrow> Q (res_state (f b))"
  shows "Q (res_state (seq m f))"
  using assms by (cases m) auto



definition started :: "('a::linorder, 'z) lib_scheme \<Rightarrow> 'a dispatcher \<Rightarrow> 'a boot \<Rightarrow> bool" where
  "started L other b \<longleftrightarrow> listeners_ok L b \<and> reachable L other (b_daemon b)"

lemma boot_ok_started: "boot_ok L b \<Longrightarrow> started L other b"
  by (simp add: boot_ok_def started_def reachable.start)

lemma init_neighbors_reachable:
  assumes "initial_daemon d" shows "reachable L other (res_state (init_neighbors L opts d))"
proof -
  let ?d = "new_remote_communicators d"
  have "initial_daemon ?d"
    by (rule initial_keep [OF assms, where own = "{}"])
      (use assms in \<open>simp_all add: new_remote_communicators_def initial_daemon_def own_connections_def\<close>)
  then have r: "reachable L other ?d" by (rule reachable.start)
  show ?thesis
    unfolding init_neighbors_def Let_def
    by (rule seq_keeps [where P = "reachable L other"])
      (use r in \<open>auto intro!: reachable.neighbors reachable.options split: option.split\<close>)
qed

lemma init_neighbors_started:
  assumes "boot_ok L b" shows "started L other (res_state (lift_daemon (init_neighbors L opts) b))"
proof -
  have "reachable L other (res_state (init_neighbors L opts (b_daemon b)))"
    using assms by (auto simp: boot_ok_def intro: init_neighbors_reachable)
  with assms show ?thesis
    by (auto simp: lift_daemon_def started_def boot_ok_def listeners_ok_def split: res.split)
qed

lemma load_plugins_started:
  "started L other b \<Longrightarrow> started L other (on_daemon (\<lambda>d. cluster_status L None (load_plugins opts d)) b)"
  by (auto simp: started_def on_daemon_def load_plugins_def listeners_ok_def
      intro!: reachable.announce reachable.plugins)

lemma init_daemon_started:
  assumes "boot_ok L b" shows "started L other (res_state (init_daemon L opts b))"
proof -
  note keep = boot_ok_started
  show ?thesis
    unfolding init_daemon_def
    apply (rule or_fail_keeps [where P = "boot_ok L", OF _ keep], simp add: assms init_names_ok, assumption)
    apply (rule or_fail_keeps [where P = "boot_ok L", OF _ keep])
      apply (simp add: init_names_ok init_interrupt_ok init_local_tcp_listener_ok, assumption)
    apply (rule or_fail_keeps [where P = "boot_ok L", OF init_unix_listener_ok keep], assumption, assumption)
    apply (rule or_fail_keeps [where P = "boot_ok L", OF init_plain_remote_listener_ok keep], assumption, assumption)
    apply (rule or_fail_keeps [where P = "boot_ok L", OF init_secure_remote_listener_ok keep], assumption, assumption)
    apply (rule seq_keeps [where P = "boot_ok L", OF init_ping_listener_ok keep], assumption, assumption)
    apply (rule or_fail_keeps [where P = "boot_ok L", OF init_connection_address_ok keep], assumption, assumption)
    apply (rule seq_keeps [where P = "started L other", OF init_neighbors_started], assumption, assumption)
    by (simp add: load_plugins_started)
qed

text \<open>
  C25: The listeners that the start of the daemon opens, whatever the options and wherever it fails: one for
  local services is on the loopback, one for other daemons that is not encrypted has a private address other
  than the default address, and an encrypted one has a user name and a password to ask for.
\<close>

theorem init_listeners_safe:
  assumes "fresh_daemon (b_daemon b)" and "b_tcp_listeners b = (\<lambda>i. None)"
    and "b_tcp_listeners (res_state (init_daemon L opts b)) i = Some l"
  shows "(l_local (t_listener l) \<longrightarrow> net_type L (t_address l) = Loopback) \<and>
    (\<not> l_local (t_listener l) \<and> \<not> t_secure l \<longrightarrow>
       net_type L (t_address l) = Private \<and> \<not> is_default_addr L (t_address l)) \<and>
    (\<not> l_local (t_listener l) \<and> t_secure l \<longrightarrow> l_username (t_listener l) \<noteq> [] \<and> l_password (t_listener l) \<noteq> [])"
proof -
  have "boot_ok L b" using assms(1,2) by (simp add: boot_ok_def fresh_initial listeners_ok_def)
  from init_daemon_started [OF this, of no_other] assms(3) have "listener_safe L l"
    by (auto simp: started_def listeners_ok_def)
  then show ?thesis by (auto simp: listener_safe_def split: if_splits)
qed

text \<open>What the start leaves alone: the user and the group to run as, and those the process runs as.\<close>

definition names :: "'a boot \<Rightarrow> string \<times> string \<times> string option \<times> string option" where
  "names b = (f_user_name b, f_group_name b, p_euser b, p_egroup b)"



lemma names_on_daemon [simp]: "names (on_daemon f b) = names b" "names (b\<lparr>b_daemon := d\<rparr>) = names b"
  "names (b\<lparr>f_default_remote_port := p\<rparr>) = names b" "names (b\<lparr>f_max_pending_connections := n\<rparr>) = names b"
  by (simp_all add: names_def on_daemon_def)

lemma names_bind_listener:
  assumes "\<And>added i b1. names b1 = names b \<Longrightarrow> names (res_state (f (added, i) b1)) = names b"
  shows "names (res_state (bind_res (new_listener L opts name a cert key l b) f)) = names b"
  using assms by (auto simp: new_listener_def names_def Let_def split: prod.split)

lemma names_init [simp]:
  "names (res_state (init_local_tcp_listener L opts b)) = names b"
  "names (res_state (init_unix_listener L opts b)) = names b"
  "names (res_state (init_plain_remote_listener L opts b)) = names b"
  "names (res_state (init_secure_remote_listener L opts b)) = names b"
  "names (res_state (init_ping_listener L opts b)) = names b"
  "names (res_state (init_connection_address L opts b)) = names b"
  "names (res_state (lift_daemon g b)) = names b" "names (init_interrupt L b) = names b"
  "names (load_list_of_local_services L opts b) = names b" "names (init_max_gossip_timeout L opts b) = names b"
  by (auto simp: init_local_tcp_listener_def init_unix_listener_def init_plain_remote_listener_def
      init_secure_remote_listener_def init_ping_listener_def init_connection_address_def lift_daemon_def
      init_interrupt_def load_list_of_local_services_def init_max_gossip_timeout_def Let_def ok_def
      intro!: names_bind_listener split: option.split prod.split list.split res.split)








definition sample_options :: "int start_options" where
  "sample_options =
     \<lparr>i_logger_ok = True, i_debug_all_messages = False, i_server_name = Some ''alpha'', i_hostname = ''host'', i_valid_name = (\<lambda>s. True), i_user_name = ''user'',
      i_group_name = ''group'', i_max_connections = 100, i_max_pending_connections = 25,
      i_max_gossip_timeout = None, i_service_names = None, i_local_listen = ''0'', i_unix_listen = Some ''/run/sock'',
      i_remote_listen = Some ''10'', i_certificate = [], i_private_key = ''key'',
      i_secure_listen = Some (Some \<lparr>s_scheme = ''cds'', s_username = ''me'', s_password = ''secret'', s_ranges = [(1, Some 200)]\<rparr>),
      i_signal = ''0'', i_my_address = ''10'', i_neighbors = Some ''5'', i_loadavg_plugin = True,
      i_find_interface = (\<lambda>a. True), i_get_port = (\<lambda>a. 4042), i_socket_fails = (\<lambda>s. False), i_is_root = True, i_group_known = (\<lambda>g. True),
      i_setegid = True, i_user_known = (\<lambda>u. True), i_seteuid = True\<rparr>"

definition sample_boot :: "int boot" where
  "sample_boot =
     \<lparr>b_daemon = sample_daemon [], f_user_name = [], f_group_name = [], f_max_pending_connections = 5,
      f_default_remote_port = 4042, b_tcp_listeners = (\<lambda>i. None), p_egroup = None, p_euser = None\<rparr>"

lemma sample_boot_fresh: "fresh_daemon (b_daemon sample_boot)" "b_tcp_listeners sample_boot = (\<lambda>i. None)"
  by (auto simp: sample_boot_def fresh_daemon_def sample_daemon_def own_connections_def)

primrec success :: "('s, bool) res \<Rightarrow> bool" where
  "success (Ret r s) = r"
| "success (Raise e s) = False"

lemma or_fail_success: "success m \<Longrightarrow> or_fail m f = f (res_state m)"
  by (cases m) (simp_all add: or_fail_def)

lemma sample_lib_simps:
  "string_to_addr sample_lib s dflt port = undec_string s"
  "net_type sample_lib a = (if a = 0 then Loopback else if a < 100 then Private else Public)"
  "is_default_addr sample_lib a = (a = - 1)"
  by (simp_all add: sample_lib_def)

lemma sample_addresses: "undec_string ''0'' = Some 0" "undec_string ''10'' = Some 10"
  by (simp_all add: undec_string_def)

lemma sample_steps:
  assumes "boot_ok sample_lib b"
  shows "success (init_local_tcp_listener sample_lib sample_options b)"
    "success (init_unix_listener sample_lib sample_options b)"
    "success (init_plain_remote_listener sample_lib sample_options b)"
    "success (init_secure_remote_listener sample_lib sample_options b)"
    "seq (init_ping_listener sample_lib sample_options b) f = f (res_state (init_ping_listener sample_lib sample_options b))"
    "success (init_connection_address sample_lib sample_options b)"
proof -
  have own: "added" if "add_own c (b_daemon b) = (added, i, d)" "c_kind c \<in> {Other_conn, Ping_conn}" for c added i d
    using add_own_initial(2) [OF that(1) _ that(2)] assms by (simp add: boot_ok_def)
  note defs = sample_lib_simps sample_options_def sample_addresses new_listener_def Let_def blank_conn_def
  show "success (init_local_tcp_listener sample_lib sample_options b)"
    by (auto simp: init_local_tcp_listener_def defs dest!: own split: prod.split)
  show "success (init_unix_listener sample_lib sample_options b)"
    by (auto simp: init_unix_listener_def defs dest!: own split: prod.split)
  show "success (init_plain_remote_listener sample_lib sample_options b)"
    by (auto simp: init_plain_remote_listener_def defs dest!: own split: prod.split)
  show "success (init_secure_remote_listener sample_lib sample_options b)"
    by (simp add: init_secure_remote_listener_def sample_options_def)
  show "seq (init_ping_listener sample_lib sample_options b) f = f (res_state (init_ping_listener sample_lib sample_options b))"
    by (simp add: init_ping_listener_def defs ok_def split: prod.split)
  show "success (init_connection_address sample_lib sample_options b)"
    by (simp add: init_connection_address_def defs)
qed

lemma init_neighbors_returns: "\<exists>d'. init_neighbors L opts d = ok d'"
proof -
  let ?d = "new_remote_communicators d"
  obtain d2 where "(if net_type L (f_connection_address ?d) \<noteq> Loopback \<and> \<not> is_default_addr L (f_connection_address ?d)
      then add_neighbors L (ip_port_string L (f_connection_address ?d)) ?d else ok ?d) = ok d2"
    using add_neighbors_returns [of L "ip_port_string L (f_connection_address ?d)" ?d] by fastforce
  then show ?thesis
    using add_neighbors_returns [of L] by (simp add: init_neighbors_def Let_def ok_def split: option.split)
qed

text \<open>The start of the sample, one function at a time.\<close>

definition sample_listening :: "int boot" where
  "sample_listening = res_state (init_unix_listener sample_lib sample_options
     (res_state (init_local_tcp_listener sample_lib sample_options (init_interrupt sample_lib
     (load_list_of_local_services sample_lib sample_options (init_max_gossip_timeout sample_lib sample_options
     (res_state (init_max_connections sample_options (init_server_ownership sample_options
       (init_server_name sample_options sample_boot))))))))))"

definition sample_remote :: "int boot" where
  "sample_remote = res_state (init_plain_remote_listener sample_lib sample_options sample_listening)"

definition sample_networked :: "int boot" where
  "sample_networked = res_state (init_connection_address sample_lib sample_options (res_state
     (init_ping_listener sample_lib sample_options (res_state
     (init_secure_remote_listener sample_lib sample_options sample_remote)))))"

lemma sample_boot_ok: "boot_ok sample_lib sample_boot"
  using sample_boot_fresh by (simp add: boot_ok_def fresh_initial listeners_ok_def)

lemma sample_boots_ok: "boot_ok sample_lib sample_listening" "boot_ok sample_lib sample_remote" "boot_ok sample_lib sample_networked"
proof -
  from sample_boot_ok show l: "boot_ok sample_lib sample_listening"
    by (simp add: sample_listening_def init_names_ok init_interrupt_ok init_local_tcp_listener_ok init_unix_listener_ok)
  then show r: "boot_ok sample_lib sample_remote" by (simp add: sample_remote_def init_plain_remote_listener_ok)
  then show "boot_ok sample_lib sample_networked"
    by (simp add: sample_networked_def init_secure_remote_listener_ok init_ping_listener_ok init_connection_address_ok)
qed

lemma sample_starts:
  "init_daemon sample_lib sample_options sample_boot =
   Ret 0 (on_daemon (\<lambda>d. cluster_status sample_lib None (load_plugins sample_options d))
     (res_state (lift_daemon (init_neighbors sample_lib sample_options) sample_networked)))"
proof -
  let ?b = "init_interrupt sample_lib (load_list_of_local_services sample_lib sample_options
    (init_max_gossip_timeout sample_lib sample_options (res_state (init_max_connections sample_options
    (init_server_ownership sample_options (init_server_name sample_options sample_boot))))))"
  have b: "boot_ok sample_lib ?b"
    by (simp add: sample_boot_ok init_names_ok init_interrupt_ok)
  have n: "seq (lift_daemon (init_neighbors sample_lib sample_options) b) f =
      f (res_state (lift_daemon (init_neighbors sample_lib sample_options) b))"
    for b and f :: "int boot \<Rightarrow> (int boot, int) res"
    using init_neighbors_returns [of sample_lib sample_options "b_daemon b"] by (auto simp: lift_daemon_def ok_def)
  have m: "success (init_max_connections sample_options b)" for b by (simp add: init_max_connections_def)
  show ?thesis
    unfolding init_daemon_def
    using b sample_boots_ok
    by (simp add: or_fail_success sample_steps m n init_local_tcp_listener_ok init_unix_listener_ok
        init_plain_remote_listener_ok init_secure_remote_listener_ok init_ping_listener_ok
        sample_networked_def sample_remote_def sample_listening_def)
qed

theorem init_listeners_safe_witness:
  "\<exists>i l. b_tcp_listeners (res_state (init_daemon sample_lib sample_options sample_boot)) i = Some l \<and>
     net_type sample_lib (t_address l) = Private"
proof -
  let ?b = "init_daemon sample_lib sample_options sample_boot"
  obtain added i d where a: "add_own ((blank_conn sample_lib Other_conn)\<lparr>c_name := ''communicator_remote_listener''\<rparr>)
      (b_daemon sample_listening) = (added, i, d)"
    by (rule prod_cases3)
  have "success (init_plain_remote_listener sample_lib sample_options sample_listening)"
    by (simp add: sample_steps sample_boots_ok)
  moreover have "i_remote_listen sample_options = Some ''10''" by (simp add: sample_options_def)
  ultimately have "b_tcp_listeners sample_remote i = Some \<lparr>t_listener = \<lparr>l_local = False,
      l_server_name = f_server_name (b_daemon sample_listening), l_username = [], l_password = []\<rparr>,
      t_address = 10, t_secure = False\<rparr>"
    using a by (simp add: sample_remote_def init_plain_remote_listener_def sample_lib_simps
        sample_addresses new_listener_def on_daemon_def Let_def split: if_splits)
  then obtain l where l: "b_tcp_listeners sample_remote i = Some l" "\<not> l_local (t_listener l)" "\<not> t_secure l" by simp
  have "b_tcp_listeners sample_networked = b_tcp_listeners sample_remote"
    by (simp add: sample_networked_def init_connection_address_def init_ping_listener_def on_daemon_def
        init_secure_remote_listener_def sample_options_def ok_def split: option.split prod.split)
  then have "b_tcp_listeners (res_state ?b) i = Some l"
    using l(1) by (simp add: sample_starts on_daemon_def lift_daemon_def split: res.split)
  from init_listeners_safe [OF sample_boot_fresh this] this l(2,3) show ?thesis by blast
qed


end
