(* ===== verification/Console.thy ===== *)
theory Console
  imports Sample
begin

text \<open>
  The tool tools/message.cpp, with which messages are typed or sent from a script: the class
  \<open>network_connection\<close>, the commands of \<open>console_connection\<close> and the class \<open>message\<close>.

  What the URI parser, the message parser, the constructors of the library's connections and its event
  loop answer are the record \<open>console_env\<close>. The terminal (ncurses, readline) is not modelled: the console
  is the lines it is given and those it shows. \<open>n_loop\<close> are the connections the event loop runs and
  \<open>n_sent\<close> the messages that were sent, each with the place it went to.
\<close>

datatype connection_t = NONE | TCP | REMOTE_TCP | SECURE_TCP | UDP | BROADCAST_UDP | LOCAL_STREAM | LOCAL_DGRAM

datatype 'a endpoint = Tcp_end 'a bool | Udp_end 'a | Stream_end string | Dgram_end string

record 'a network_connection =
  n_ip_address :: 'a
  n_unix_address :: string
  n_selected :: connection_t
  n_type :: connection_t
  n_prompt :: string
  n_tcp :: "'a endpoint option"
  n_unix :: "'a endpoint option"
  n_loop :: "'a endpoint list"
  n_sent :: "('a endpoint \<times> message) list"

record 'a console_env =
  set_uri :: "string \<Rightarrow> (string \<times> string) option"
  is_broadcast_address :: "'a \<Rightarrow> bool"
  create_fails :: "'a endpoint \<Rightarrow> bool"
  loop_takes :: "'a endpoint \<Rightarrow> bool"
  from_message :: "string \<Rightarrow> message option"

section \<open>The network\<close>

definition new_network :: "('a, 'z) lib_scheme \<Rightarrow> 'a network_connection" where
  "new_network L = \<lparr>n_ip_address = default_addr L, n_unix_address = [], n_selected = UDP, n_type = NONE,
     n_prompt = [], n_tcp = None, n_unix = None, n_loop = [], n_sent = []\<rparr>"

definition leave_loop :: "'a endpoint option \<Rightarrow> 'a endpoint list \<Rightarrow> 'a endpoint list" where
  "leave_loop e es = (case e of None \<Rightarrow> es | Some x \<Rightarrow> remove1 x es)"

text \<open>\<open>f_unix_connection\<close> is taken out of the loop and kept.\<close>

definition network_disconnect :: "'a network_connection \<Rightarrow> 'a network_connection" where
  "network_disconnect c = c\<lparr>n_loop := leave_loop (n_unix c) (leave_loop (n_tcp c) (n_loop c)),
     n_tcp := None, n_type := NONE, n_prompt := []\<rparr>"

definition select_ip :: "'a \<Rightarrow> string \<Rightarrow> connection_t \<Rightarrow> 'a network_connection \<Rightarrow> 'a network_connection" where
  "select_ip a prompt t c = c\<lparr>n_ip_address := a, n_prompt := prompt, n_selected := t\<rparr>"

definition select_unix :: "string \<Rightarrow> string \<Rightarrow> connection_t \<Rightarrow> 'a network_connection \<Rightarrow> 'a network_connection" where
  "select_unix path prompt t c = c\<lparr>n_unix_address := path, n_prompt := prompt, n_selected := t\<rparr>"

text \<open>
  \<open>set_address\<close>, one definition per scheme. With \<open>cd\<close> the domain is parsed as an address, with the other
  schemes the whole URI; \<open>cdb\<close> tests the address of the previous connection.
\<close>

definition set_address_cd :: "('a, 'z) lib_scheme \<Rightarrow> string \<Rightarrow> string \<Rightarrow> 'a network_connection
    \<Rightarrow> ('a network_connection, bool) res" where
  "set_address_cd L address domain c =
     (if domain = [] then Ret True (select_unix address ''local/stream> '' LOCAL_STREAM c)
      else case string_to_addr L domain ''127.0.0.1'' 4040 of
        None \<Rightarrow> Raise (Invalid_address domain) c
      | Some a \<Rightarrow>
          if net_type L a = Loopback then Ret True (select_ip a ''tcp/ip> '' TCP c)
          else if net_type L a \<in> {Public, Private} then Ret True (select_ip a ''tcp/ip> '' REMOTE_TCP c)
          else Ret False c)"

definition set_address_cds :: "('a, 'z) lib_scheme \<Rightarrow> string \<Rightarrow> string \<Rightarrow> 'a network_connection
    \<Rightarrow> ('a network_connection, bool) res" where
  "set_address_cds L address domain c =
     (if domain = [] then Ret False c
      else case string_to_addr L address ''127.0.0.1'' 4043 of
        None \<Rightarrow> Raise (Invalid_address address) c
      | Some a \<Rightarrow>
          if net_type L a \<in> {Public, Private} then Ret True (select_ip a ''tcp/ip(tls)> '' SECURE_TCP c)
          else Ret False c)"

definition set_address_cdu :: "('a, 'z) lib_scheme \<Rightarrow> string \<Rightarrow> string \<Rightarrow> 'a network_connection
    \<Rightarrow> ('a network_connection, bool) res" where
  "set_address_cdu L address domain c =
     (if domain = [] then Ret True (select_unix address ''local/dgram> '' LOCAL_DGRAM c)
      else case string_to_addr L address ''127.0.0.1'' 4041 of
        None \<Rightarrow> Raise (Invalid_address address) c
      | Some a \<Rightarrow>
          if net_type L a \<in> {Public, Loopback, Private} then Ret True (select_ip a ''udp/ip> '' UDP c)
          else Ret False c)"

definition set_address_cdb :: "('a, 'z) lib_scheme \<Rightarrow> 'a console_env \<Rightarrow> string \<Rightarrow> string \<Rightarrow> 'a network_connection
    \<Rightarrow> ('a network_connection, bool) res" where
  "set_address_cdb L E address domain c =
     (if domain = [] then Ret False c
      else case string_to_addr L address ''127.0.0.1'' 4041 of
        None \<Rightarrow> Raise (Invalid_address address) c
      | Some a \<Rightarrow>
          if net_type L a \<in> {Public, Loopback, Private} then
            (if is_broadcast_address E (n_ip_address c) then Ret True (select_ip a ''udp/ip(broadcast)> '' UDP c)
             else Ret False c)
          else if net_type L a = Multicast then Ret True (select_ip a ''udp/ip(broadcast)> '' UDP c)
          else Ret False c)"

definition set_address :: "('a, 'z) lib_scheme \<Rightarrow> 'a console_env \<Rightarrow> string \<Rightarrow> 'a network_connection
    \<Rightarrow> ('a network_connection, bool) res" where
  "set_address L E address c0 =
     (let c = network_disconnect c0 in
      case set_uri E address of
        None \<Rightarrow> Ret False c
      | Some (scheme, domain) \<Rightarrow>
          if scheme = ''cd'' then set_address_cd L address domain c
          else if scheme = ''cds'' then set_address_cds L address domain c
          else if scheme = ''cdu'' then set_address_cdu L address domain c
          else if scheme = ''cdb'' then set_address_cdb L E address domain c
          else Ret False c)"

definition create_tcp_connection :: "'a console_env \<Rightarrow> 'a network_connection \<Rightarrow> 'a network_connection" where
  "create_tcp_connection E c =
     (let e = Tcp_end (n_ip_address c) (n_selected c = SECURE_TCP) in
      if create_fails E e then c
      else if loop_takes E e then c\<lparr>n_tcp := Some e, n_loop := n_loop c @ [e], n_type := n_selected c\<rparr>
      else c\<lparr>n_tcp := None\<rparr>)"

definition create_udp_connection :: "'a network_connection \<Rightarrow> 'a network_connection" where
  "create_udp_connection c = c\<lparr>n_type := n_selected c\<rparr>"

definition create_local_stream_connection :: "'a console_env \<Rightarrow> 'a network_connection \<Rightarrow> 'a network_connection" where
  "create_local_stream_connection E c0 =
     (let c = network_disconnect c0; e = Stream_end (n_unix_address c) in
      if create_fails E e then c
      else if loop_takes E e then c\<lparr>n_unix := Some e, n_loop := n_loop c @ [e], n_type := n_selected c\<rparr>
      else c\<lparr>n_unix := None\<rparr>)"

definition create_connection :: "'a console_env \<Rightarrow> 'a network_connection \<Rightarrow> 'a network_connection" where
  "create_connection E c =
     (case n_selected c of
        TCP \<Rightarrow> create_tcp_connection E c
      | REMOTE_TCP \<Rightarrow> create_tcp_connection E c
      | SECURE_TCP \<Rightarrow> create_tcp_connection E c
      | UDP \<Rightarrow> create_udp_connection c
      | BROADCAST_UDP \<Rightarrow> create_udp_connection c
      | LOCAL_STREAM \<Rightarrow> create_local_stream_connection E c
      | LOCAL_DGRAM \<Rightarrow> c
      | NONE \<Rightarrow> c)"

definition network_connect :: "'a console_env \<Rightarrow> 'a network_connection \<Rightarrow> bool \<times> 'a network_connection" where
  "network_connect E c =
     (if n_type c \<noteq> n_selected c then
        let c1 = create_connection E c in
        if n_type c1 = NONE then (False, c1\<lparr>n_prompt := []\<rparr>) else (True, c1)
      else (True, c))"

definition network_send :: "'a endpoint option \<Rightarrow> message \<Rightarrow> 'a network_connection \<Rightarrow> ('a network_connection, bool) res" where
  "network_send e msg c = (case e of
      None \<Rightarrow> Raise Null_dereference c
    | Some x \<Rightarrow> Ret True (c\<lparr>n_sent := n_sent c @ [(x, msg)]\<rparr>))"

definition network_send_message :: "'a console_env \<Rightarrow> string \<Rightarrow> 'a network_connection \<Rightarrow> ('a network_connection, bool) res" where
  "network_send_message E entry c =
     (let (connected, c1) = network_connect E c in
      if \<not> connected then Ret False c1
      else case from_message E entry of
        None \<Rightarrow> Ret False c1
      | Some msg \<Rightarrow>
          (case n_type c1 of
             NONE \<Rightarrow> Ret False c1
           | TCP \<Rightarrow> network_send (n_tcp c1) msg c1
           | REMOTE_TCP \<Rightarrow> network_send (n_tcp c1) msg c1
           | SECURE_TCP \<Rightarrow> network_send (n_tcp c1) msg c1
           | UDP \<Rightarrow> network_send (Some (Udp_end (n_ip_address c1))) msg c1
           | BROADCAST_UDP \<Rightarrow> network_send (Some (Udp_end (n_ip_address c1))) msg c1
           | LOCAL_STREAM \<Rightarrow> network_send (n_unix c1) msg c1
           | LOCAL_DGRAM \<Rightarrow> network_send (Some (Dgram_end (n_unix_address c1))) msg c1))"

definition set_selected_connection_type :: "connection_t \<Rightarrow> 'a network_connection \<Rightarrow> 'a network_connection" where
  "set_selected_connection_type t c =
     (if n_selected c \<noteq> t then (network_disconnect c)\<lparr>n_selected := t\<rparr> else c)"

text \<open>The callbacks \<open>process_error\<close>, \<open>process_hup\<close> and \<open>process_invalid\<close> of both connections.\<close>

definition lost_connection :: "'a network_connection \<Rightarrow> 'a network_connection" where
  "lost_connection c = network_disconnect c"

definition has_prompt :: "'a network_connection \<Rightarrow> bool" where
  "has_prompt c \<longleftrightarrow> n_prompt c \<noteq> []"

definition define_prompt :: "'a network_connection \<Rightarrow> string" where
  "define_prompt c = (if n_prompt c = [] then ''not connected> '' else n_prompt c)"

section \<open>The console\<close>

datatype console_output = Help_text | Help_message_text | Line string

record 'a console =
  k_network :: "'a network_connection"
  k_locked :: bool
  k_prompt :: string
  k_output :: "console_output list"
  k_running :: bool

definition show_output :: "console_output \<Rightarrow> 'a console \<Rightarrow> 'a console" where
  "show_output x k = k\<lparr>k_output := k_output k @ [x]\<rparr>"

definition reset_prompt :: "'a console \<Rightarrow> 'a console" where
  "reset_prompt k = (if k_locked k then k\<lparr>k_prompt := define_prompt (k_network k)\<rparr> else k)"

definition process_quit :: "'a console \<Rightarrow> 'a console" where
  "process_quit k =
     (if k_locked k then k\<lparr>k_network := network_disconnect (k_network k), k_locked := False\<rparr> else k)\<lparr>k_running := False\<rparr>"

text \<open>A function of the network in the state of the console.\<close>

definition on_network :: "'a console \<Rightarrow> ('a network_connection, 'r) res \<Rightarrow> ('a console, 'r) res" where
  "on_network k r = (case r of
      Ret x c \<Rightarrow> Ret x (k\<lparr>k_network := c\<rparr>)
    | Raise e c \<Rightarrow> Raise e (k\<lparr>k_network := c\<rparr>))"

definition execute_command :: "('a, 'z) lib_scheme \<Rightarrow> 'a console_env \<Rightarrow> string \<Rightarrow> 'a console \<Rightarrow> ('a console, bool) res" where
  "execute_command L E command k =
     (if command = ''/quit'' then Ret False (process_quit k)
      else if command \<in> {''/help'', ''/?'', ''?''} then Ret False (show_output Help_text k)
      else if command = ''/msg_help'' then Ret False (show_output Help_message_text k)
      else if \<not> k_locked k then
        Ret False (show_output (Line ''You are disconnected. Most commands will not work anymore.'') k)
      else if take 9 command = ''/connect '' then
        bind_res (on_network k (set_address L E (drop 9 command) (k_network k))) (\<lambda>b k.
          Ret True (if b then k\<lparr>k_network := snd (network_connect E (k_network k))\<rparr> else k))
      else if command = ''/disconnect'' then Ret True (k\<lparr>k_network := network_disconnect (k_network k)\<rparr>)
      else if take 1 command = ''/'' then
        Ret False (show_output (Line (''error: unknown command: \"'' @ command @ ''\".'')) k)
      else if \<not> has_prompt (k_network k) then
        Ret False (show_output (Line ''error: message not sent, we are not connected.'') k)
      else bind_res (on_network k (network_send_message E command (k_network k))) (\<lambda>b k. Ret False k))"

definition process_command :: "('a, 'z) lib_scheme \<Rightarrow> 'a console_env \<Rightarrow> string \<Rightarrow> 'a console \<Rightarrow> ('a console, unit) res" where
  "process_command L E command k =
     bind_res (execute_command L E command k) (\<lambda>b k. ok (if b then reset_prompt k else k))"

section \<open>The tool\<close>

text \<open>
  The options, and what the computer answers: whether the graphical tool is installed, its exit code,
  whether the event loop takes the console, and what the loop does until it returns.
\<close>

record message_options =
  o_gui :: bool
  o_cui :: bool
  o_message :: "string option"
  o_address :: "string option"

record 'a message_host =
  h_gui_installed :: bool
  h_gui_result :: int
  h_takes_console :: bool
  h_event_loop :: "'a console \<Rightarrow> bool \<times> 'a console"

definition use_cui :: "message_options \<Rightarrow> bool" where
  "use_cui opts \<longleftrightarrow> o_cui opts \<or> (o_message opts = None \<and> \<not> o_gui opts)"

text \<open>The constructor; \<open>Some\<close> is the code it exits with.\<close>

definition message_tool :: "('a, 'z) lib_scheme \<Rightarrow> 'a console_env \<Rightarrow> message_options \<Rightarrow> ('a network_connection, int option) res" where
  "message_tool L E opts =
     (let c = new_network L; interactive = use_cui opts \<or> o_gui opts in
      if o_gui opts \<and> use_cui opts then Ret (Some 1) c
      else if interactive \<and> o_message opts \<noteq> None then Ret (Some 1) c
      else if \<not> interactive \<and> o_address opts = None then Ret (Some 1) c
      else case o_address opts of
        None \<Rightarrow> Ret None c
      | Some address \<Rightarrow> bind_res (set_address L E address c) (\<lambda>b c. Ret None c))"

definition start_gui :: "'a message_host \<Rightarrow> int" where
  "start_gui H = (if \<not> h_gui_installed H then 1 else h_gui_result H)"

definition new_console :: "'a network_connection \<Rightarrow> 'a console" where
  "new_console c = reset_prompt \<lparr>k_network = c, k_locked = True, k_prompt = [], k_output = [], k_running = True\<rparr>"

definition enter_cui :: "'a message_host \<Rightarrow> 'a network_connection \<Rightarrow> int \<times> 'a network_connection" where
  "enter_cui H c =
     (if \<not> h_takes_console H then (1, c)
      else let (r, k) = h_event_loop H (new_console c) in (if r then 0 else 1, k_network k))"

definition message_run :: "'a console_env \<Rightarrow> 'a message_host \<Rightarrow> message_options \<Rightarrow> 'a network_connection
    \<Rightarrow> ('a network_connection, int) res" where
  "message_run E H opts c =
     (if o_gui opts then Ret (start_gui H) c
      else if use_cui opts then Ret (fst (enter_cui H c)) (snd (enter_cui H c))
      else case o_message opts of
        Some entry \<Rightarrow> bind_res (network_send_message E entry c) (\<lambda>b c. Ret (if b then 0 else 1) c)
      | None \<Rightarrow> Ret 1 c)"

definition message_main :: "('a, 'z) lib_scheme \<Rightarrow> 'a console_env \<Rightarrow> 'a message_host \<Rightarrow> message_options
    \<Rightarrow> int \<times> 'a network_connection" where
  "message_main L E H opts =
     (case bind_res (message_tool L E opts) (\<lambda>exit c.
        case exit of Some code \<Rightarrow> Ret code c | None \<Rightarrow> message_run E H opts c) of
        Ret r c \<Rightarrow> (r, c)
      | Raise e c \<Rightarrow> (1, c))"

section \<open>Where messages go\<close>

text \<open>The place the selected address stands for.\<close>

definition selected_endpoint :: "'a network_connection \<Rightarrow> 'a endpoint" where
  "selected_endpoint c =
     (case n_selected c of
        LOCAL_STREAM \<Rightarrow> Stream_end (n_unix_address c)
      | LOCAL_DGRAM \<Rightarrow> Dgram_end (n_unix_address c)
      | UDP \<Rightarrow> Udp_end (n_ip_address c)
      | BROADCAST_UDP \<Rightarrow> Udp_end (n_ip_address c)
      | _ \<Rightarrow> Tcp_end (n_ip_address c) (n_selected c = SECURE_TCP))"

lemma selected_endpoint_frame [simp]:
  "selected_endpoint (c\<lparr>n_sent := x\<rparr>) = selected_endpoint c"
  "selected_endpoint (c\<lparr>n_prompt := p\<rparr>) = selected_endpoint c"
  "selected_endpoint (c\<lparr>n_type := t\<rparr>) = selected_endpoint c"
  "selected_endpoint (c\<lparr>n_tcp := e, n_loop := es, n_type := t\<rparr>) = selected_endpoint c"
  "selected_endpoint (c\<lparr>n_unix := e, n_loop := es, n_type := t\<rparr>) = selected_endpoint c"
  "selected_endpoint (c\<lparr>n_tcp := e\<rparr>) = selected_endpoint c"
  "selected_endpoint (c\<lparr>n_unix := e\<rparr>) = selected_endpoint c"
  "selected_endpoint (network_disconnect c) = selected_endpoint c"
  by (simp_all add: selected_endpoint_def network_disconnect_def cong: connection_t.case_cong)

text \<open>
  The place that an address names, whatever the state of the tool: its scheme and its domain alone say
  which kind of connection it is, and to which address.
\<close>

definition address_place :: "('a, 'z) lib_scheme \<Rightarrow> 'a console_env \<Rightarrow> string \<Rightarrow> 'a endpoint option" where
  "address_place L E address = (case set_uri E address of
      None \<Rightarrow> None
    | Some (scheme, domain) \<Rightarrow>
        if scheme = ''cd'' then
          (if domain = [] then Some (Stream_end address)
           else map_option (\<lambda>a. Tcp_end a False) (string_to_addr L domain ''127.0.0.1'' 4040))
        else if scheme = ''cds'' then map_option (\<lambda>a. Tcp_end a True) (string_to_addr L address ''127.0.0.1'' 4043)
        else if scheme = ''cdu'' then
          (if domain = [] then Some (Dgram_end address)
           else map_option Udp_end (string_to_addr L address ''127.0.0.1'' 4041))
        else if scheme = ''cdb'' then map_option Udp_end (string_to_addr L address ''127.0.0.1'' 4041)
        else None)"

text \<open>The place the user told last, after an address that the tool may have refused.\<close>

definition told_place :: "('a, 'z) lib_scheme \<Rightarrow> 'a console_env \<Rightarrow> string \<Rightarrow> 'a network_connection
    \<Rightarrow> 'a endpoint \<Rightarrow> 'a endpoint" where
  "told_place L E address c p =
     (case set_address L E address c of
        Ret True c' \<Rightarrow> the (address_place L E address)
      | _ \<Rightarrow> p)"

lemma select_endpoint:
  "t \<in> {UDP, BROADCAST_UDP} \<Longrightarrow> selected_endpoint (select_ip a s t c) = Udp_end a"
  "t \<in> {TCP, REMOTE_TCP, SECURE_TCP} \<Longrightarrow> selected_endpoint (select_ip a s t c) = Tcp_end a (t = SECURE_TCP)"
  "selected_endpoint (select_unix path s LOCAL_STREAM c) = Stream_end path"
  "selected_endpoint (select_unix path s LOCAL_DGRAM c) = Dgram_end path"
  by (auto simp: selected_endpoint_def select_ip_def select_unix_def)

lemma set_address_place:
  "selected_endpoint (res_state (set_address L E address c)) = told_place L E address c (selected_endpoint c)"
  by (auto simp: told_place_def set_address_def set_address_cd_def set_address_cds_def set_address_cdu_def
      set_address_cdb_def address_place_def select_endpoint Let_def split: option.split prod.split)

definition network_ok :: "'a network_connection \<Rightarrow> bool" where
  "network_ok c \<longleftrightarrow> n_type c \<in> {NONE, n_selected c} - {LOCAL_DGRAM} \<and> n_selected c \<noteq> NONE \<and>
     (n_type c \<in> {TCP, REMOTE_TCP, SECURE_TCP} \<longrightarrow>
        n_tcp c = Some (selected_endpoint c) \<and> selected_endpoint c \<in> set (n_loop c)) \<and>
     (n_type c = LOCAL_STREAM \<longrightarrow> n_unix c = Some (selected_endpoint c) \<and> selected_endpoint c \<in> set (n_loop c))"

lemma new_network_ok: "network_ok (new_network L)"
  by (simp add: network_ok_def new_network_def)

lemma network_disconnect_fields [simp]:
  "n_type (network_disconnect c) = NONE" "n_selected (network_disconnect c) = n_selected c"
  "n_prompt (network_disconnect c) = []" "n_sent (network_disconnect c) = n_sent c"
  "n_ip_address (network_disconnect c) = n_ip_address c" "n_unix_address (network_disconnect c) = n_unix_address c"
  by (simp_all add: network_disconnect_def)

lemma network_disconnect_ok: "network_ok c \<Longrightarrow> network_ok (network_disconnect c)"
  by (simp add: network_ok_def)

lemma select_ok:
  assumes "n_type c = NONE" and "t \<noteq> NONE"
  shows "network_ok (select_ip a s t c)" "network_ok (select_unix path s t c)"
  using assms by (simp_all add: network_ok_def select_ip_def select_unix_def)

lemma set_address_ok:
  assumes "network_ok c" shows "network_ok (res_state (set_address L E address c))"
proof -
  have "network_ok (network_disconnect c)" using assms by (rule network_disconnect_ok)
  then show ?thesis
    by (auto simp: set_address_def set_address_cd_def set_address_cds_def set_address_cdu_def set_address_cdb_def
        Let_def select_ok split: option.split prod.split)
qed

lemma create_connection_ok:
  assumes "network_ok c" and "n_type c = NONE"
  shows "network_ok (create_connection E c)" "n_sent (create_connection E c) = n_sent c"
  using assms
  by (auto simp: create_connection_def create_tcp_connection_def create_udp_connection_def Let_def network_ok_def
      create_local_stream_connection_def selected_endpoint_def split: connection_t.split)

lemma create_connection_selected:
  "n_selected (create_connection E c) = n_selected c" "selected_endpoint (create_connection E c) = selected_endpoint c"
  by (auto simp: create_connection_def create_tcp_connection_def create_udp_connection_def Let_def
      create_local_stream_connection_def selected_endpoint_def split: connection_t.split)

lemma network_connect_ok:
  assumes "network_ok c" and "network_connect E c = (b, c')"
  shows "network_ok c'" "n_sent c' = n_sent c" "b \<longleftrightarrow> n_type c' = n_selected c'"
    "selected_endpoint c' = selected_endpoint c" "n_selected c' = n_selected c"
proof -
  have "network_ok c' \<and> n_sent c' = n_sent c \<and> (b \<longleftrightarrow> n_type c' = n_selected c') \<and>
    selected_endpoint c' = selected_endpoint c \<and> n_selected c' = n_selected c"
  proof (cases "n_type c = n_selected c")
    case False
    with assms(1) have n: "n_type c = NONE" by (auto simp: network_ok_def)
    note ok = create_connection_ok [OF assms(1) n, of E] create_connection_selected [of E c]
    then have "n_type (create_connection E c) \<in> {NONE, n_selected c}" "n_selected c \<noteq> NONE"
      by (auto simp: network_ok_def)
    with ok assms(2) False show ?thesis
      by (auto simp: network_connect_def Let_def network_ok_def split: if_splits)
  qed (use assms in \<open>auto simp: network_connect_def\<close>)
  then show "network_ok c'" "n_sent c' = n_sent c" "b \<longleftrightarrow> n_type c' = n_selected c'"
    "selected_endpoint c' = selected_endpoint c" "n_selected c' = n_selected c" by blast+
qed

text \<open>What sending a line does when the invariant holds.\<close>

lemma network_send_message_ok:
  assumes "network_ok c"
  obtains sent c' where "network_send_message E entry c = Ret sent c'" "network_ok c'"
    "n_sent c' = n_sent c @ (if sent then [(selected_endpoint c, the (from_message E entry))] else [])"
    "sent \<Longrightarrow> from_message E entry \<noteq> None \<and> n_selected c \<noteq> LOCAL_DGRAM"
    "selected_endpoint c' = selected_endpoint c"
proof -
  obtain b c1 where k: "network_connect E c = (b, c1)" by fastforce
  note ok = network_connect_ok [OF assms k]
  show thesis
  proof (cases "b \<and> from_message E entry \<noteq> None")
    case False
    with that [of False c1] k ok show thesis by (auto simp: network_send_message_def split: option.splits)
  next
    case True
    then obtain msg where m: "from_message E entry = Some msg" by auto
    have t: "n_type c1 = n_selected c1" using True ok(3) by simp
    then have "n_type c1 \<noteq> NONE" "n_type c1 \<noteq> LOCAL_DGRAM" using ok(1) by (auto simp: network_ok_def)
    let ?c = "c1\<lparr>n_sent := n_sent c1 @ [(selected_endpoint c1, msg)]\<rparr>"
    have "network_send_message E entry c = Ret True ?c"
      using True k m ok(1) t \<open>n_type c1 \<noteq> NONE\<close> \<open>n_type c1 \<noteq> LOCAL_DGRAM\<close>
      by (cases "n_type c1") (auto simp: network_send_message_def network_send_def network_ok_def selected_endpoint_def)
    moreover have "network_ok ?c" using ok(1) by (simp add: network_ok_def)
    ultimately show thesis
      using that [of True ?c] ok m t \<open>n_type c1 \<noteq> LOCAL_DGRAM\<close> by simp
  qed
qed

section \<open>The console as a state machine\<close>

text \<open>
  The state of the console, and the place the user told it last. In the beginning that is the option
  \<open>--address\<close>, or without it what the constructor of \<open>network_connection\<close> selects; an accepted command
  \<open>/connect\<close> changes it, and nothing else does.
\<close>

definition command_place :: "('a, 'z) lib_scheme \<Rightarrow> 'a console_env \<Rightarrow> string \<Rightarrow> 'a console \<Rightarrow> 'a endpoint \<Rightarrow> 'a endpoint" where
  "command_place L E command k p =
     (if k_locked k \<and> take 9 command = ''/connect '' then told_place L E (drop 9 command) (k_network k) p else p)"

definition start_place :: "('a, 'z) lib_scheme \<Rightarrow> 'a console_env \<Rightarrow> message_options \<Rightarrow> 'a endpoint" where
  "start_place L E opts =
     (case o_address opts of
        None \<Rightarrow> Udp_end (default_addr L)
      | Some address \<Rightarrow> told_place L E address (new_network L) (Udp_end (default_addr L)))"

definition console_start :: "('a, 'z) lib_scheme \<Rightarrow> 'a console_env \<Rightarrow> 'a console \<times> 'a endpoint \<Rightarrow> bool" where
  "console_start L E kp \<longleftrightarrow>
     (\<exists>opts c. message_tool L E opts = Ret None c \<and> kp = (new_console c, start_place L E opts))"

inductive console_step :: "('a, 'z) lib_scheme \<Rightarrow> 'a console_env \<Rightarrow> 'a console \<times> 'a endpoint
    \<Rightarrow> 'a console \<times> 'a endpoint \<Rightarrow> bool" for L E where
  command: "console_step L E (k, p) (res_state (process_command L E entry k), command_place L E entry k p)"
| lost: "console_step L E (k, p) (k\<lparr>k_network := lost_connection (k_network k)\<rparr>, p)"
| quit: "console_step L E (k, p) (process_quit k, p)"

inductive_cases console_stepE: "console_step L E (k, p) kp"

definition console_ok :: "'a console \<times> 'a endpoint \<Rightarrow> bool" where
  "console_ok kp \<longleftrightarrow> network_ok (k_network (fst kp)) \<and> selected_endpoint (k_network (fst kp)) = snd kp"

lemma new_console_network [simp]: "k_network (new_console c) = c"
  by (simp add: new_console_def reset_prompt_def)

lemma message_tool_place:
  assumes "message_tool L E opts = Ret None c"
  shows "network_ok c \<and> selected_endpoint c = start_place L E opts"
proof (cases "o_address opts")
  case None
  then have "c = new_network L" using assms by (auto simp: message_tool_def Let_def split: if_splits)
  with None show ?thesis
    by (simp add: new_network_ok start_place_def) (simp add: selected_endpoint_def new_network_def)
next
  case (Some address)
  have n: "selected_endpoint (new_network L) = Udp_end (default_addr L)"
    by (simp add: selected_endpoint_def new_network_def)
  have "c = res_state (set_address L E address (new_network L))"
    using assms Some by (cases "set_address L E address (new_network L)") (auto simp: message_tool_def Let_def split: if_splits)
  with Some show ?thesis
    using set_address_ok [OF new_network_ok] set_address_place [of L E address "new_network L"] by (simp add: start_place_def n)
qed

lemma console_start_ok: "console_start L E kp \<Longrightarrow> console_ok kp"
  using message_tool_place by (fastforce simp: console_start_def console_ok_def)

lemma execute_command_ok:
  assumes "network_ok (k_network k)"
  shows "network_ok (k_network (res_state (execute_command L E command k)))"
    "selected_endpoint (k_network (res_state (execute_command L E command k))) =
       command_place L E command k (selected_endpoint (k_network k))"
proof -
  let ?c = "k_network k"
  let ?connect = "\<lambda>address. res_state (bind_res (on_network k (set_address L E address ?c))
      (\<lambda>b k. Ret True (if b then k\<lparr>k_network := snd (network_connect E (k_network k))\<rparr> else k)))"
  let ?send = "res_state (bind_res (on_network k (network_send_message E command ?c)) (\<lambda>b k. Ret False k))"
  have a: "network_ok (k_network (?connect address))"
    "selected_endpoint (k_network (?connect address)) = told_place L E address ?c (selected_endpoint ?c)" for address
  proof -
    note ok = set_address_ok [OF assms, of L E address]
    note n = network_connect_ok(1,4) [OF ok prod.collapse [symmetric], of E]
    have "k_network (?connect address) \<in> {res_state (set_address L E address ?c),
        snd (network_connect E (res_state (set_address L E address ?c)))}"
      by (cases "set_address L E address ?c") (simp_all add: on_network_def)
    with ok n show "network_ok (k_network (?connect address))"
      "selected_endpoint (k_network (?connect address)) = told_place L E address ?c (selected_endpoint ?c)"
      unfolding set_address_place [symmetric] by auto
  qed
  have s: "network_ok (k_network ?send)" "selected_endpoint (k_network ?send) = selected_endpoint ?c"
  proof -
    obtain b c' where "network_send_message E command ?c = Ret b c'" "network_ok c'"
        "selected_endpoint c' = selected_endpoint ?c"
      by (rule network_send_message_ok [OF assms])
    then show "network_ok (k_network ?send)" "selected_endpoint (k_network ?send) = selected_endpoint ?c"
      by (simp_all add: on_network_def)
  qed
  show "network_ok (k_network (res_state (execute_command L E command k)))"
    using assms a(1) s(1) by (simp add: execute_command_def show_output_def process_quit_def network_disconnect_ok)
  show "selected_endpoint (k_network (res_state (execute_command L E command k))) =
      command_place L E command k (selected_endpoint (k_network k))"
    using a(2) s(2) by (auto simp: execute_command_def command_place_def show_output_def process_quit_def)
qed

lemma console_step_ok:
  assumes "console_step L E kp kp'" and "console_ok kp"
  shows "console_ok kp'"
proof -
  obtain k p where kp: "kp = (k, p)" by fastforce
  with assms(2) have ok: "network_ok (k_network k)" "selected_endpoint (k_network k) = p" by (simp_all add: console_ok_def)
  from assms(1) [unfolded kp] show ?thesis
  proof (rule console_stepE)
    fix entry assume k: "kp' = (res_state (process_command L E entry k), command_place L E entry k p)"
    have "k_network (res_state (process_command L E entry k)) = k_network (res_state (execute_command L E entry k))"
      by (cases "execute_command L E entry k") (simp_all add: process_command_def reset_prompt_def)
    with execute_command_ok [OF ok(1), of L E entry] ok(2) k show ?thesis by (simp add: console_ok_def)
  qed (use ok in \<open>simp_all add: console_ok_def lost_connection_def process_quit_def network_disconnect_ok\<close>)
qed

interpretation co: invariant_machine "console_start L E" "console_step L E" console_ok for L E
  by unfold_locales (auto intro: console_start_ok console_step_ok)

text \<open>
  C33: A message that is typed goes to the place the user told last and to no other, once: to the one
  that the last address which was accepted names by its scheme and domain (\<open>address_place\<close>: a stream socket or a plain
  TCP connection for "cd", an encrypted connection for "cds", UDP or a datagram socket for "cdu", UDP for
  "cdb"), or to the default when there was none. It is sent exactly when the tool says so. Whatever was
  typed before and whenever connections were lost, sending never fails with a null pointer.
\<close>

theorem console_sends_where_told:
  assumes "console_start L E kp0" and "(console_step L E)\<^sup>*\<^sup>* kp0 (k, place)"
  shows "case network_send_message E entry (k_network k) of
      Raise e c \<Rightarrow> False
    | Ret sent c \<Rightarrow>
        n_sent c = n_sent (k_network k) @ (if sent then [(place, the (from_message E entry))] else []) \<and>
        (sent \<longrightarrow> from_message E entry \<noteq> None)"
proof -
  have "console_ok (k, place)" using co.inv_run [OF assms] .
  then have ok: "network_ok (k_network k)" "selected_endpoint (k_network k) = place" by (simp_all add: console_ok_def)
  from ok(1) show ?thesis by (rule network_send_message_ok [of _ E entry]) (simp add: ok(2))
qed

text \<open>After \<open>/connect\<close> with an address of the scheme "cds" the place is an encrypted connection to it.\<close>

lemma connect_cds_encrypted:
  assumes "k_locked k" and "set_uri E address = Some (''cds'', domain)"
    and "set_address L E address (k_network k) = Ret True c"
  shows "\<exists>a. string_to_addr L address ''127.0.0.1'' 4043 = Some a \<and>
    command_place L E (''/connect '' @ address) k p = Tcp_end a True"
proof -
  have "set_address_cds L address domain (network_disconnect (k_network k)) = Ret True c"
    using assms(2,3) by (simp add: set_address_def Let_def)
  then obtain a where "string_to_addr L address ''127.0.0.1'' 4043 = Some a"
    by (auto simp: set_address_cds_def split: if_splits option.splits)
  with assms show ?thesis by (simp add: command_place_def told_place_def address_place_def)
qed

section \<open>Local sockets\<close>

text \<open>The type of a connection to a datagram socket is never set, so no message is ever sent to one.\<close>

lemma dgram_never_sent:
  assumes "n_selected c = LOCAL_DGRAM" and "n_type c = NONE"
  shows "network_send_message E entry c = Ret False (c\<lparr>n_prompt := []\<rparr>)"
  using assms by (simp add: network_send_message_def network_connect_def create_connection_def)

text \<open>
  C34: The console cannot be used with a stream socket: connecting to one clears the prompt, by which the
  console knows that it is connected, so every message typed after it is refused although the connection was
  made and runs in the event loop.
\<close>

theorem console_stream_refused:
  assumes "k_locked k" and "set_uri E address = Some (''cd'', [])"
    and "\<not> create_fails E (Stream_end address)" and "loop_takes E (Stream_end address)"
    and "take 1 entry \<noteq> ''/''" and "entry \<noteq> ''?''"
  shows "\<exists>k1. execute_command L E (''/connect '' @ address) k = Ret True k1 \<and>
    Stream_end address \<in> set (n_loop (k_network k1)) \<and>
    execute_command L E entry k1 =
      Ret False (show_output (Line ''error: message not sent, we are not connected.'') k1)"
proof -
  let ?c = "select_unix address ''local/stream> '' LOCAL_STREAM (network_disconnect (k_network k))"
  let ?c1 = "snd (network_connect E ?c)" and ?k1 = "k\<lparr>k_network := snd (network_connect E ?c)\<rparr>"
  have "set_address L E address (k_network k) = Ret True ?c"
    using assms(2) by (simp add: set_address_def set_address_cd_def Let_def)
  then have x: "execute_command L E (''/connect '' @ address) k = Ret True ?k1"
    using assms(1) by (simp add: execute_command_def on_network_def)
  have n: "Stream_end address \<in> set (n_loop ?c1)" "n_prompt ?c1 = []"
    using assms(3,4) by (simp_all add: network_connect_def create_connection_def create_local_stream_connection_def
        select_unix_def Let_def)
  have prefix: "take 9 entry \<noteq> ''/connect ''"
  proof
    assume "take 9 entry = ''/connect ''"
    then have "take 1 (take 9 entry) = ''/''" by (simp only:) simp
    with assms(5) show False by simp
  qed
  have "entry \<notin> {''/quit'', ''/help'', ''/?'', ''?'', ''/msg_help'', ''/disconnect''}" "take 9 entry \<noteq> ''/connect ''"
    using assms(5,6) prefix by auto
  then have "execute_command L E entry ?k1 =
      Ret False (show_output (Line ''error: message not sent, we are not connected.'') ?k1)"
    using assms(1,5) n(2) by (simp add: execute_command_def has_prompt_def)
  with x n(1) show ?thesis by (intro exI [of _ ?k1]) simp
qed

definition sample_console_env :: "int console_env" where
  "sample_console_env = \<lparr>set_uri = (\<lambda>s. Some (''cd'', drop 5 s)), is_broadcast_address = (\<lambda>a. False),
     create_fails = (\<lambda>e. False), loop_takes = (\<lambda>e. True), from_message = (\<lambda>s. Some (new_message\<lparr>m_command := s\<rparr>))\<rparr>"

definition sample_console :: "int console" where
  "sample_console = new_console (new_network sample_lib)"

text \<open>A console that is told to use "cds://20", on a library that reads this address.\<close>

definition sample_console_lib :: "int lib" where
  "sample_console_lib = sample_lib\<lparr>string_to_addr := (\<lambda>s dflt port. undec_string (drop 6 s))\<rparr>"

definition sample_secure_env :: "int console_env" where
  "sample_secure_env = sample_console_env\<lparr>set_uri := (\<lambda>s. Some (''cds'', drop 6 s))\<rparr>"

theorem console_sends_where_told_witness:
  "let k = res_state (process_command sample_console_lib sample_secure_env ''/connect cds://20'' sample_console)
   in \<exists>c. network_send_message sample_secure_env ''STOP'' (k_network k) = Ret True c \<and>
     n_sent c = [(Tcp_end 20 True, new_message\<lparr>m_command := ''STOP''\<rparr>)]"
proof -
  let ?L = sample_console_lib and ?E = sample_secure_env
  let ?k = "res_state (process_command ?L ?E ''/connect cds://20'' sample_console)"
  let ?p = "command_place ?L ?E ''/connect cds://20'' sample_console (Udp_end (- 1))"
  have "message_tool ?L ?E \<lparr>o_gui = False, o_cui = True, o_message = None, o_address = None\<rparr> = Ret None (new_network sample_lib)"
    by (simp add: message_tool_def use_cui_def Let_def new_network_def sample_console_lib_def)
  moreover have "start_place ?L ?E \<lparr>o_gui = False, o_cui = True, o_message = None, o_address = None\<rparr> = Udp_end (- 1)"
    by (simp add: start_place_def sample_console_lib_def sample_lib_def)
  ultimately have start: "console_start ?L ?E (sample_console, Udp_end (- 1))"
    unfolding console_start_def sample_console_def by force
  have step: "(console_step ?L ?E)\<^sup>*\<^sup>* (sample_console, Udp_end (- 1)) (?k, ?p)"
    by (intro r_into_rtranclp console_step.command)
  have place: "?p = Tcp_end 20 True" and none: "n_sent (k_network ?k) = []"
    and "case network_send_message ?E ''STOP'' (k_network ?k) of Ret b c \<Rightarrow> b | Raise e c \<Rightarrow> False" by code_simp+
  then obtain c where c: "network_send_message ?E ''STOP'' (k_network ?k) = Ret True c"
    by (auto split: res.splits)
  from console_sends_where_told [OF start step, of "''STOP''"] c place none
  have "n_sent c = [(Tcp_end 20 True, the (from_message ?E ''STOP''))]" by simp
  with c show ?thesis by (simp add: Let_def sample_secure_env_def sample_console_env_def)
qed

theorem console_stream_refused_witness:
  "\<exists>k1. execute_command sample_lib sample_console_env ''/connect cd://'' sample_console = Ret True k1 \<and>
     execute_command sample_lib sample_console_env ''STOP'' k1 =
       Ret False (show_output (Line ''error: message not sent, we are not connected.'') k1)"
proof -
  have "k_locked sample_console" by (simp add: sample_console_def new_console_def reset_prompt_def)
  with console_stream_refused [of sample_console sample_console_env "''cd://''" "''STOP''" sample_lib]
  show ?thesis by (auto simp: sample_console_env_def)
qed

end
