(* ===== verification/Relay.thy ===== *)
theory Relay
  imports System
begin

text \<open>
  One daemon that receives a copy of a broadcast.  A message with a \<open>broadcast_msgid\<close> that is not for the
  daemon itself (\<open>routed\<close>) is either answered without any further copy of it (\<open>quiet\<close>), or it is recorded
  in \<open>f_received_broadcast_messages\<close> and copies with the same identifier, the same time limit and the
  same service are sent, each connection getting at most one of them (\<open>opens\<close>).  \<open>receive\<close> is the
  arrival of a message on a connection; \<open>receive_outcome\<close> is what the networks of daemons are proved with.
\<close>

section \<open>A copy of a broadcast\<close>

definition routed :: "('a, 'z) lib_scheme \<Rightarrow> int \<Rightarrow> message \<Rightarrow> bool" where
  "routed L t m \<longleftrightarrow> has_parameter m ''broadcast_msgid'' \<and> param m ''broadcast_msgid'' \<noteq> [] \<and>
     m_service m \<noteq> [] \<and> m_service m \<noteq> ''communicatord'' \<and>
     get_integer L m ''broadcast_timeout'' = Inr t \<and> t \<noteq> 0"

text \<open>What the copies a daemon passes on have in common with the message.\<close>

definition copy_of :: "('a, 'z) lib_scheme \<Rightarrow> message \<Rightarrow> message \<Rightarrow> bool" where
  "copy_of L m m' \<longleftrightarrow> m_service m' = m_service m \<and> has_parameter m' ''broadcast_msgid'' \<and>
     param m' ''broadcast_msgid'' = param m ''broadcast_msgid'' \<and>
     get_integer L m' ''broadcast_timeout'' = get_integer L m ''broadcast_timeout''"

abbreviation new_log :: "'a daemon \<Rightarrow> 'a daemon \<Rightarrow> 'a event list" where
  "new_log d d' \<equiv> drop (length (out d)) (out d')"

lemma broadcast_choose_log:
  assumes "broadcast_choose L msg info acc d = ((informed, chosen), d')"
  obtains xs where "d' = d\<lparr>out := out d @ map (\<lambda>i. Sent i msg) xs\<rparr>"
    "distinct (connections d) \<Longrightarrow> distinct (xs @ chosen)"
proof (cases "acc = []")
  case True
  let ?all = "broadcast_all (i_hops info) (broadcast_destination msg)"
  let ?rem = "broadcast_remote (i_hops info) (broadcast_destination msg)"
  have "broadcast_scan L msg ?all ?rem (connections d)
      (tokens L {} (i_informed info) '','' True [], []) d = ((informed, chosen), d')"
    using True assms by (simp add: broadcast_choose_def Let_def)
  from broadcast_scan_spec [OF this]
  have d': "d' = d\<lparr>out := out d @ map (\<lambda>i. Sent i msg) (local_targets L msg d (connections d))\<rparr>"
    and c: "set chosen \<subseteq> set (remote_targets L ?all ?rem d (connections d))" "distinct chosen"
    by (auto simp: picks_def distinct_map)
  show thesis
    by (rule that [OF d']) (use c local_not_remote in \<open>force\<close>)
next
  case False
  then have "broadcast_accepting L acc (tokens L {} (i_informed info) '','' True [], []) d = (informed, chosen)" "d' = d"
    using assms by (auto simp: broadcast_choose_def Let_def)
  with broadcast_accepting_picks [of L d acc "(tokens L {} (i_informed info) '','' True [], [])"] show thesis
    by (intro that [of "[]"]) (auto simp: picks_def distinct_map)
qed

lemma sent_messages_map [simp]: "sent_messages (map (\<lambda>i. Sent i m) xs) = map (\<lambda>i. (i, m)) xs"
  by (induction xs) simp_all

text \<open>A broadcast of a message the daemon has not seen: the message is recorded even if its parameters are not complete.\<close>

lemma broadcast_message_open:
  assumes "integer_roundtrip L" and "has_parameter msg ''broadcast_msgid''"
    and "param msg ''broadcast_msgid'' \<noteq> []"
    and "get_integer L msg ''broadcast_timeout'' = Inr t" and "t \<noteq> 0" and "now d \<le> t"
    and "map_find (f_received_broadcast_messages d) (param msg ''broadcast_msgid'') = None"
  obtains es q where "res_state (broadcast_message L msg acc d) =
      d\<lparr>f_received_broadcast_messages := map_insert (param msg ''broadcast_msgid'') t
          (map_erase_if (\<lambda>_ t. t < now d) (f_received_broadcast_messages d)),
        out := out d @ es, g_broadcast_sequence := q\<rparr>"
    "\<And>i m. Sent i m \<in> set es \<Longrightarrow> copy_of L msg m"
    "distinct (connections d) \<Longrightarrow> distinct (map fst (sent_messages es))"
proof -
  let ?rec = "map_insert (param msg ''broadcast_msgid'') t
          (map_erase_if (\<lambda>_ t. t < now d) (f_received_broadcast_messages d))"
  let ?d = "d\<lparr>f_received_broadcast_messages := ?rec\<rparr>"
  have pro: "broadcast_prologue L msg d =
    bind_res (of_sum (get_parameter msg ''broadcast_informed_neighbors'') ?d) (\<lambda>informed d.
      bind_res (of_sum (get_integer L msg ''broadcast_hops'') d) (\<lambda>hops d.
        Ret (Some \<lparr>i_msgid = param msg ''broadcast_msgid'', i_informed = informed, i_hops = to_int32 hops,
                            i_timeout = t\<rparr>) d))"
    using assms by (simp add: broadcast_prologue_def Let_def)
  show thesis
  proof (cases "broadcast_prologue L msg d")
    case (Raise e s)
    then have "s = ?d"
      unfolding pro
      by (cases "get_parameter msg ''broadcast_informed_neighbors''"; cases "get_integer L msg ''broadcast_hops''") auto
    with Raise show thesis
      by (intro that [where es = "[]" and q = "g_broadcast_sequence d"]) (simp_all add: broadcast_message_def)
  next
    case (Ret r s)
    then obtain info where r: "r = Some info" "i_msgid info = param msg ''broadcast_msgid''" "i_timeout info = t"
      and s: "s = ?d"
      unfolding pro
      by (cases "get_parameter msg ''broadcast_informed_neighbors''"; cases "get_integer L msg ''broadcast_hops''") auto
    obtain informed chosen d2 where c: "broadcast_choose L msg info acc ?d = ((informed, chosen), d2)"
      by (metis surj_pair)
    obtain xs where d2: "d2 = ?d\<lparr>out := out d @ map (\<lambda>i. Sent i msg) xs\<rparr>"
      and xs: "distinct (connections d) \<Longrightarrow> distinct (xs @ chosen)"
      by (rule broadcast_choose_log [OF c]) simp
    obtain copy q where q: "broadcast_send L msg info (informed, chosen) d2 =
      d2\<lparr>out := out d2 @ map (\<lambda>i. Sent i copy) chosen, g_broadcast_sequence := q\<rparr>"
      and copy: "chosen \<noteq> [] \<longrightarrow> (\<exists>msgid d3. msgid \<noteq> [] \<and> now d3 = now d2 \<and>
        copy = broadcast_copy L msg info msgid informed d3 \<and> (i_msgid info \<noteq> [] \<longrightarrow> msgid = i_msgid info))"
      using broadcast_send_spec [of L msg info informed chosen d2] by blast
    show thesis
    proof (rule that)
      show "distinct (map fst (sent_messages (map (\<lambda>i. Sent i msg) xs @ map (\<lambda>i. Sent i copy) chosen)))"
        if "distinct (connections d)" using xs [OF that] by (simp add: comp_def)
      show "res_state (broadcast_message L msg acc d) =
        d\<lparr>f_received_broadcast_messages := ?rec,
          out := out d @ map (\<lambda>i. Sent i msg) xs @ map (\<lambda>i. Sent i copy) chosen, g_broadcast_sequence := q\<rparr>"
        by (simp add: broadcast_message_def Ret r s c q) (simp add: d2)
      fix i m
      assume "Sent i m \<in> set (map (\<lambda>i. Sent i msg) xs @ map (\<lambda>i. Sent i copy) chosen)"
      then consider "m = msg" | "m = copy" "chosen \<noteq> []" by (cases chosen) auto
      then show "copy_of L msg m"
      proof cases
        case 1
        with assms(2) show ?thesis by (simp add: copy_of_def)
      next
        case 2
        with copy r(2) assms(3) obtain d3 where
          "m = broadcast_copy L msg info (param msg ''broadcast_msgid'') informed d3" by auto
        with assms r(3) show ?thesis
          by (simp add: copy_of_def broadcast_copy_fields has_parameter_def param_def get_integer_def
              integer_roundtrip_def)
      qed
    qed
  qed
qed


section \<open>Answers that pass nothing on\<close>

text \<open>The names of the services that are connected are those of before.\<close>

definition keeps_names :: "'a daemon \<Rightarrow> 'a daemon \<Rightarrow> bool" where
  "keeps_names d d' \<longleftrightarrow> (\<forall>i. is_service_kind (c_kind (obj d' i)) \<longrightarrow>
     is_service_kind (c_kind (obj d i)) \<and> c_name (obj d' i) = c_name (obj d i))"

text \<open>Of the messages with an identifier, only this one was sent, to a service of its name.\<close>

definition delivers :: "message \<Rightarrow> 'a daemon \<Rightarrow> 'a event list \<Rightarrow> bool" where
  "delivers msg d es \<longleftrightarrow> (\<forall>i m. Sent i m \<in> set es \<longrightarrow> has_parameter m ''broadcast_msgid'' \<longrightarrow>
     m = msg \<and> \<not> is_broadcast_service (m_service msg) \<and>
     is_service_kind (c_kind (obj d i)) \<and> c_name (obj d i) = m_service msg)"

definition quiet :: "message \<Rightarrow> 'a daemon \<Rightarrow> 'a daemon \<Rightarrow> bool" where
  "quiet msg d d' \<longleftrightarrow>
     f_received_broadcast_messages d' = f_received_broadcast_messages d \<and> now d' = now d \<and>
     (distinct (connections d) \<longrightarrow> distinct (connections d')) \<and> keeps_names d d' \<and>
     (\<exists>es. out d' = out d @ es \<and> delivers msg d es)"

lemma delivers_names: "keeps_names d d' \<Longrightarrow> delivers msg d' es \<Longrightarrow> delivers msg d es"
  unfolding delivers_def keeps_names_def by metis

lemma delivers_append: "delivers msg d (es @ fs) \<longleftrightarrow> delivers msg d es \<and> delivers msg d fs"
  by (auto simp: delivers_def)

lemma quiet_refl: "quiet msg d d"
  by (simp add: quiet_def keeps_names_def delivers_def)

lemma quiet_trans:
  assumes "quiet msg a b" and "quiet msg b c" shows "quiet msg a c"
proof -
  obtain es fs where es: "out b = out a @ es" "delivers msg a es" and fs: "out c = out b @ fs" "delivers msg b fs"
    using assms unfolding quiet_def by blast
  have k: "keeps_names a b" "keeps_names b c" using assms by (simp_all add: quiet_def)
  have "out c = out a @ es @ fs" "delivers msg a (es @ fs)"
    using es fs delivers_names [OF k(1)] by (simp_all add: delivers_append)
  then have "\<exists>es. out c = out a @ es \<and> delivers msg a es" by blast
  moreover have "keeps_names a c" using k by (simp add: keeps_names_def)
  ultimately show ?thesis using assms by (simp add: quiet_def)
qed

lemma quiet_send:
  assumes "\<not> has_parameter m ''broadcast_msgid''"
  shows "quiet msg d (send_to i m d)" "quiet msg d (send_message i m d)"
  using assms by (simp_all add: quiet_def keeps_names_def delivers_def send_to_eq state_simps)

lemma transmission_report_quiet: "quiet msg d (transmission_report msg' b d)"
  by (auto simp: transmission_report_def quiet_refl split: option.split intro!: quiet_send)

lemma forward_deliver_quiet:
  assumes "\<not> is_broadcast_service (m_service msg)" and "is_service_kind (c_kind (obj d i))"
    and "c_name (obj d i) = m_service msg"
  shows "quiet msg d (forward_deliver msg i d)"
  using assms by (auto simp: forward_deliver_def quiet_def keeps_names_def delivers_def send_to_eq)

lemma forward_scan_quiet:
  assumes "\<not> is_broadcast_service (m_service msg)"
  shows "quiet msg d (res_state (forward_scan server_name msg is acc d))"
    "forward_scan server_name msg is acc d = Ret (Some acc') d' \<Longrightarrow> d' = d"
  using assms
  by (induction server_name msg "is" acc d rule: forward_scan.induct)
    (auto simp: Let_def quiet_refl forward_deliver_quiet split: sum.splits bool.splits if_splits)

lemma forward_cache_quiet: "quiet msg d (res_state (forward_cache L msg' d))"
proof -
  obtain cached c where c: "cache_message L (now d) msg' (f_local_message_cache d) = (cached, c)" by fastforce
  let ?d = "d\<lparr>f_local_message_cache := c\<rparr>"
  have q: "quiet msg d ?d" by (simp add: quiet_def keeps_names_def delivers_def)
  have s: "quiet msg ?d (res_state (service_unavailable msg' ?d))"
    by (auto simp: service_unavailable_def Let_def quiet_refl has_parameter_def split: option.split intro!: quiet_send)
  show ?thesis
    unfolding forward_cache_def c
    by (cases "service_unavailable msg' ?d")
      (use s in \<open>auto simp: Let_def intro: quiet_trans [OF q] quiet_trans transmission_report_quiet\<close>)
qed

lemma connection_lost_quiet: "quiet msg d (connection_lost L a d)"
  by (auto simp: connection_lost_def gossip_connection_object_def blank_conn_def is_service_kind_def quiet_refl
      quiet_def keeps_names_def delivers_def new_object_def add_connection_def Let_def split: option.split)

lemma remove_connection_quiet: "quiet msg d (remove_connection L i d)"
proof -
  have "quiet msg d (unlist_connection i d)"
    by (simp add: quiet_def keeps_names_def delivers_def unlist_connection_def)
  then show ?thesis
    by (auto simp: remove_connection_def connection_removed_def quiet_refl intro: quiet_trans connection_lost_quiet)
qed

lemma shutting_down_quiet: "quiet msg d (res_state (shutting_down L msg' d))"
  by (auto simp: shutting_down_def Let_def quiet_refl split: option.split
      intro!: remove_connection_quiet quiet_trans [OF quiet_send(1) remove_connection_quiet])

section \<open>Passing on\<close>

definition opens :: "('a, 'z) lib_scheme \<Rightarrow> message \<Rightarrow> int \<Rightarrow> 'a daemon \<Rightarrow> 'a daemon \<Rightarrow> bool" where
  "opens L msg t d d' \<longleftrightarrow>
     f_received_broadcast_messages d' = map_insert (param msg ''broadcast_msgid'') t
       (map_erase_if (\<lambda>_ t. t < now d) (f_received_broadcast_messages d)) \<and>
     now d' = now d \<and> connections d' = connections d \<and> keeps_names d d' \<and>
     (\<exists>es. out d' = out d @ es \<and> (\<forall>i m. Sent i m \<in> set es \<longrightarrow> copy_of L msg m) \<and>
        (distinct (connections d) \<longrightarrow> distinct (map fst (sent_messages es))))"

text \<open>The message has not been seen by the daemon and it is not too late for it.\<close>

definition fresh_for :: "string \<Rightarrow> int \<Rightarrow> 'a daemon \<Rightarrow> bool" where
  "fresh_for msgid t d \<longleftrightarrow> now d \<le> t \<and> map_find (f_received_broadcast_messages d) msgid = None"

lemma broadcast_message_opens:
  assumes ints: "integer_roundtrip L" and msg: "routed L t msg" and "fresh_for (param msg ''broadcast_msgid'') t d"
  shows "opens L msg t d (res_state (broadcast_message L msg acc d))"
    "opens L msg t d (res_state (broadcast_message L (msg\<lparr>m_server := s\<rparr>) acc d))"
proof -
  have one: "opens L m t d (res_state (broadcast_message L m acc d))"
    if m: "routed L t m" and f: "fresh_for (param m ''broadcast_msgid'') t d" for m
  proof (rule broadcast_message_open [OF ints, of m t d acc])
    show "has_parameter m ''broadcast_msgid''" "param m ''broadcast_msgid'' \<noteq> []"
      "get_integer L m ''broadcast_timeout'' = Inr t" "t \<noteq> 0" using m by (simp_all add: routed_def)
    show "now d \<le> t" "map_find (f_received_broadcast_messages d) (param m ''broadcast_msgid'') = None"
      using f by (simp_all add: fresh_for_def)
  qed (simp add: opens_def keeps_names_def)
  from one [OF msg assms(3)] show "opens L msg t d (res_state (broadcast_message L msg acc d))" .
  from one [of "msg\<lparr>m_server := s\<rparr>"] assms(2,3)
  have "opens L (msg\<lparr>m_server := s\<rparr>) t d (res_state (broadcast_message L (msg\<lparr>m_server := s\<rparr>) acc d))"
    by (simp add: routed_def has_parameter_def param_def get_integer_def)
  then show "opens L msg t d (res_state (broadcast_message L (msg\<lparr>m_server := s\<rparr>) acc d))"
    by (simp add: opens_def copy_of_def has_parameter_def param_def get_integer_def)
qed

lemma seq_Ret_state: "res_state (seq m (Ret b)) = res_state m"
  by (cases m) simp_all

lemma forward_elsewhere_outcome:
  assumes "integer_roundtrip L" and "routed L t msg" and "fresh_for (param msg ''broadcast_msgid'') t d"
  shows "quiet msg d (res_state (forward_elsewhere L msg acc d)) \<or> opens L msg t d (res_state (forward_elsewhere L msg acc d))"
  by (auto simp: forward_elsewhere_def Let_def seq_Ret_state forward_cache_quiet transmission_report_quiet quiet_refl
      broadcast_message_opens [OF assms])

lemma forward_message_outcome:
  assumes "integer_roundtrip L" and "routed L t msg" and "fresh_for (param msg ''broadcast_msgid'') t d"
  shows "quiet msg d (res_state (forward_message L msg d)) \<or> opens L msg t d (res_state (forward_message L msg d))"
proof (cases "is_broadcast_service (m_service msg)")
  case True
  then show ?thesis
    by (auto simp: forward_message_def forward_broadcast_def Let_def seq_Ret_state quiet_refl broadcast_message_opens [OF assms])
next
  case False
  let ?s = "forward_scan (forward_server_name d msg) msg (connections d) [] d"
  note q = forward_scan_quiet(1) [OF False, of d "forward_server_name d msg" "connections d" "[]"]
  show ?thesis
  proof (cases ?s)
    case (Ret r d1)
    show ?thesis
    proof (cases r)
      case (Some acc)
      with forward_scan_quiet(2) [OF False] Ret have "d1 = d" by blast
      with Ret Some False forward_elsewhere_outcome [OF assms] show ?thesis by (simp add: forward_message_def)
    qed (use Ret q False in \<open>simp add: forward_message_def\<close>)
  qed (use q False in \<open>simp add: forward_message_def\<close>)
qed

text \<open>What \<open>dispatch_message\<close> does with the message.\<close>

lemma dispatch_routed:
  assumes "routed L t msg"
  shows "dispatch_message L other msg d =
    (if fresh_for (param msg ''broadcast_msgid'') t d
     then bind_res (shutting_down L msg d) (\<lambda>down d. if down then Ret True d else forward_message L msg d)
     else Ret True d)"
proof -
  have "\<not> communicator_message msg d" for d :: "'a daemon"
    using assms by (simp add: communicator_message_def routed_def)
  with assms show ?thesis
    by (auto simp: dispatch_message_def check_broadcast_message_def fresh_for_def routed_def cong: if_cong)
qed

lemma dispatch_outcome:
  assumes "integer_roundtrip L" and "routed L t msg"
  shows "quiet msg d (res_state (dispatch_message L other msg d)) \<or>
   fresh_for (param msg ''broadcast_msgid'') t d \<and> opens L msg t d (res_state (dispatch_message L other msg d))"
proof (cases "f_shutdown d")
  case True
  then have "res_state (bind_res (shutting_down L msg d) (\<lambda>down d. if down then Ret True d else forward_message L msg d))
    = res_state (shutting_down L msg d)"
    by (auto simp: shutting_down_def Let_def split: option.split)
  then show ?thesis by (auto simp: dispatch_routed [OF assms(2)] quiet_refl shutting_down_quiet)
next
  case False
  then show ?thesis
    using forward_message_outcome [OF assms, of d]
    by (auto simp: dispatch_routed [OF assms(2)] quiet_refl shutting_down_def)
qed


text \<open>A message for a service that is connected to this daemon goes to the service and nowhere else.\<close>

lemma dispatch_delivers:
  assumes "routed L t m" and "fresh_for (param m ''broadcast_msgid'') t d" and "\<not> f_shutdown d" and "servers_named d"
    and "\<not> is_broadcast_service (m_service m)" and "m_user_data m \<noteq> Some i"
    and "find (is_destination d m) (connections d) = Some i" and "verify_command d i m"
  shows "dispatch_message L other m d = Ret False (send_message i m d)"
proof -
  have "forward_scan (forward_server_name d m) m (connections d) [] d = Ret None (forward_deliver m i d)"
    using forward_scan_spec [of "connections d" d m "[]"] assms(4,7) by (simp add: servers_named_missing)
  with assms show ?thesis
    by (simp add: dispatch_routed shutting_down_def forward_message_def forward_deliver_def send_message_to_connection_def)
qed

section \<open>A connection receives a message\<close>

definition receive :: "('a::linorder, 'z) lib_scheme \<Rightarrow> 'a dispatcher \<Rightarrow> cid \<Rightarrow> message \<Rightarrow> 'a daemon \<Rightarrow> 'a daemon" where
  "receive L other i msg d =
     (case c_kind (obj d i) of
        Service_conn \<Rightarrow> res_state (service_process_message L other i msg d)
      | Remote_conn \<Rightarrow> res_state (remote_process_message L other i msg d)
      | _ \<Rightarrow> d)"

lemma routed_fields:
  assumes "m_service m' = m_service m" and "m_params m' = m_params m"
  shows "routed L t m' = routed L t m" "copy_of L m' c = copy_of L m c"
  using assms by (simp_all add: routed_def copy_of_def has_parameter_def param_def get_integer_def)

lemma sent_from_fields [simp]: "m_service (sent_from c m) = m_service m" "m_params (sent_from c m) = m_params m"
  by (simp_all add: sent_from_def)

lemma opens_after_quiet:
  assumes "quiet msg d d1" and "out d1 = out d" and "connections d1 = connections d" and "opens L msg t d1 d'"
  shows "opens L msg t d d'"
  using assms by (auto simp: quiet_def opens_def keeps_names_def)

lemma receive_outcome:
  assumes "integer_roundtrip L" and "routed L t msg"
  obtains m where "copy_of L msg m"
    "quiet m d (receive L other i msg d) \<or>
     fresh_for (param msg ''broadcast_msgid'') t d \<and> opens L m t d (receive L other i msg d)"
proof -
  let ?s = "(sent_from (obj d i) msg)\<lparr>m_user_data := Some i\<rparr>"
  let ?r = "msg\<lparr>m_user_data := Some i\<rparr>"
  have c: "copy_of L msg ?s" "copy_of L msg ?r" "routed L t ?s" "routed L t ?r"
    using assms(2) by (simp_all add: routed_def copy_of_def has_parameter_def param_def get_integer_def)
  have id: "param ?s ''broadcast_msgid'' = param msg ''broadcast_msgid''"
    "param ?r ''broadcast_msgid'' = param msg ''broadcast_msgid''" by (simp_all add: param_def)
  show thesis
  proof (cases "c_kind (obj d i)")
    case Service_conn
    with dispatch_outcome [OF assms(1) c(3), of d other] id show thesis
      by (intro that [OF c(1)]) (simp add: receive_def service_process_message_def)
  next
    case Remote_conn
    let ?d = "if f_own_server_name (obj d i) = [] then upd_conn i (\<lambda>c. c\<lparr>f_own_server_name := m_from_server msg\<rparr>) d else d"
    have q: "quiet ?r d ?d" "out ?d = out d" "connections ?d = connections d" "now ?d = now d"
      "f_received_broadcast_messages ?d = f_received_broadcast_messages d"
      by (simp_all add: quiet_def keeps_names_def delivers_def upd_conn_def)
    have e: "receive L other i msg d = res_state (dispatch_message L other ?r ?d)"
      using Remote_conn by (simp add: receive_def remote_process_message_def Let_def)
    from dispatch_outcome [OF assms(1) c(4), of ?d other] id q
    have "quiet ?r d (res_state (dispatch_message L other ?r ?d)) \<or>
      fresh_for (param msg ''broadcast_msgid'') t d \<and> opens L ?r t d (res_state (dispatch_message L other ?r ?d))"
      using quiet_trans [OF q(1)] opens_after_quiet [OF q(1-3)] by (auto simp: fresh_for_def)
    with e show thesis by (intro that [OF c(2)]) simp
  qed (use that [OF c(2), unfolded receive_def] in \<open>auto simp: receive_def quiet_refl\<close>)
qed

end
