(* ===== verification/Network.thy ===== *)
theory Network
  imports Relay "HOL-Library.Multiset"
begin

text \<open>
  Any number of daemons and the copies of broadcasts that are on their way between them.  \<open>links n i\<close> says
  where the connection \<open>i\<close> of the daemon \<open>n\<close> leads; \<open>wire\<close> holds the copies in transit; \<open>deliver\<close> takes one of
  them, in any order and at any later time, has the daemon it reached process it, and adds the copies this
  daemon sends.  A flood ends, and no connection gets a message of it twice.
\<close>

section \<open>Copies in transit\<close>

type_synonym packet = "nat \<times> cid \<times> message"
type_synonym links = "nat \<Rightarrow> cid \<Rightarrow> (nat \<times> cid) option"

record 'a network =
  nodes :: "nat \<Rightarrow> 'a daemon"
  wire :: "packet multiset"

text \<open>What a daemon sends over its links, as far as it belongs to a broadcast.\<close>

definition carry :: "links \<Rightarrow> nat \<Rightarrow> cid \<times> message \<Rightarrow> packet list" where
  "carry links n = (\<lambda>(i, m). case links n i of
      None \<Rightarrow> []
    | Some (n', j) \<Rightarrow> if has_parameter m ''broadcast_msgid'' then [(n', j, m)] else [])"

definition carried :: "links \<Rightarrow> nat \<Rightarrow> 'a event list \<Rightarrow> packet multiset" where
  "carried links n es = mset (concat (map (carry links n) (sent_messages es)))"

text \<open>One copy arrives.  The clock of the daemon may have advanced.\<close>

inductive deliver :: "('a::linorder, 'z) lib_scheme \<Rightarrow> 'a dispatcher \<Rightarrow> links \<Rightarrow> 'a network \<Rightarrow> 'a network \<Rightarrow> bool"
  for L other links where
  "\<lbrakk>(n, i, m) \<in># wire w; now (nodes w n) \<le> t; d = (nodes w n)\<lparr>now := t\<rparr>; d' = receive L other i m d\<rbrakk> \<Longrightarrow>
     deliver L other links w
       \<lparr>nodes = (nodes w)(n := d'), wire = wire w - {#(n, i, m)#} + carried links n (new_log d d')\<rparr>"

lemma deliverE:
  assumes "deliver L other links w w'"
  obtains n i m t d d' where "(n, i, m) \<in># wire w" and "now (nodes w n) \<le> t" and "d = (nodes w n)\<lparr>now := t\<rparr>"
    and "d' = receive L other i m d"
    and "w' = \<lparr>nodes = (nodes w)(n := d'), wire = wire w - {#(n, i, m)#} + carried links n (new_log d d')\<rparr>"
  using assms
proof cases
  case (1 n i m t d d')
  show thesis by (rule that [OF 1(2-5) 1(1)])
qed

lemma carried_iff:
  "(n', j, m) \<in># carried links n es \<longleftrightarrow>
     (\<exists>i. Sent i m \<in> set es \<and> links n i = Some (n', j) \<and> has_parameter m ''broadcast_msgid'')"
  by (force simp: carried_def carry_def sent_messages_iff [symmetric] split: option.splits if_splits)

section \<open>What is known of a flood\<close>

definition packet_id :: "packet \<Rightarrow> string" where
  "packet_id = (\<lambda>(n, i, m). param m ''broadcast_msgid'')"

text \<open>A connection to another daemon does not bear the name of the service a message is for.\<close>

definition daemon_links_unnamed :: "links \<Rightarrow> (nat \<Rightarrow> 'a daemon) \<Rightarrow> string \<Rightarrow> bool" where
  "daemon_links_unnamed links ds s \<longleftrightarrow>
     (\<forall>n i. links n i \<noteq> None \<longrightarrow> is_service_kind (c_kind (obj (ds n) i)) \<longrightarrow> c_name (obj (ds n) i) \<noteq> s)"

text \<open>\<open>T s\<close> is the time limit of the message with the identifier \<open>s\<close>; the daemons that know the message know this limit.\<close>

definition packet_ok :: "('a, 'z) lib_scheme \<Rightarrow> (string \<Rightarrow> int) \<Rightarrow> links \<Rightarrow> nat \<Rightarrow> (nat \<Rightarrow> 'a daemon) \<Rightarrow> packet \<Rightarrow> bool" where
  "packet_ok L T links N ds = (\<lambda>(n, i, m). n < N \<and> routed L (T (param m ''broadcast_msgid'')) m \<and>
     daemon_links_unnamed links ds (m_service m) \<and>
     (\<forall>k t. map_find (f_received_broadcast_messages (ds k)) (param m ''broadcast_msgid'') = Some t \<longrightarrow>
        t = T (param m ''broadcast_msgid'')))"

definition flood_ok :: "('a, 'z) lib_scheme \<Rightarrow> (string \<Rightarrow> int) \<Rightarrow> links \<Rightarrow> nat \<Rightarrow> 'a network \<Rightarrow> bool" where
  "flood_ok L T links N w \<longleftrightarrow>
     (\<forall>p \<in># wire w. packet_ok L T links N (nodes w) p) \<and>
     (\<forall>n i n' j. links n i = Some (n', j) \<longrightarrow> n' < N) \<and>
     (\<forall>n. map_ok (f_received_broadcast_messages (nodes w n)))"

text \<open>The daemons that would still pass on a message in transit.\<close>

definition unaware :: "(string \<Rightarrow> int) \<Rightarrow> nat \<Rightarrow> 'a network \<Rightarrow> (nat \<times> string) set" where
  "unaware T N w = {(n, s). n < N \<and> s \<in> packet_id ` set_mset (wire w) \<and> fresh_for s (T s) (nodes w n)}"

text \<open>An arrival makes one daemon more aware of a message, or just takes the copy from the wire.\<close>

definition flood_measure :: "(string \<Rightarrow> int) \<Rightarrow> nat \<Rightarrow> 'a network \<Rightarrow> nat \<times> nat" where
  "flood_measure T N w = (card (unaware T N w), size (wire w))"

lemma finite_unaware: "finite (unaware T N w)"
  by (rule finite_subset [of _ "{..<N} \<times> packet_id ` set_mset (wire w)"]) (auto simp: unaware_def)

lemma quiet_seen:
  assumes "quiet msg d d'"
  shows "f_received_broadcast_messages d' = f_received_broadcast_messages d" "now d' = now d" "keeps_names d d'"
  using assms by (simp_all add: quiet_def)

lemma opens_seen:
  assumes "opens L m t d d'" and "map_ok (f_received_broadcast_messages d)"
  shows "map_ok (f_received_broadcast_messages d')" "now d' = now d" "keeps_names d d'"
    "map_find (f_received_broadcast_messages d') (param m ''broadcast_msgid'') = Some t"
    "s \<noteq> param m ''broadcast_msgid'' \<Longrightarrow> map_find (f_received_broadcast_messages d') s =
       (case map_find (f_received_broadcast_messages d) s of None \<Rightarrow> None | Some t \<Rightarrow> if t < now d then None else Some t)"
  using assms by (simp_all add: opens_def map_ok_insert map_ok_erase_if map_find_insert map_find_erase_if)

text \<open>What a daemon knows of the messages after one more of them.\<close>

lemma receive_seen:
  assumes "integer_roundtrip L" and "routed L t msg" and "map_ok (f_received_broadcast_messages d)"
    and "d' = receive L other i msg d"
  shows "map_ok (f_received_broadcast_messages d')" "now d' = now d" "keeps_names d d'"
    "map_find (f_received_broadcast_messages d') s = Some u \<Longrightarrow>
       map_find (f_received_broadcast_messages d) s = Some u \<or> s = param msg ''broadcast_msgid'' \<and> u = t"
    "fresh_for s v d' \<Longrightarrow> (\<And>u. map_find (f_received_broadcast_messages d) s = Some u \<Longrightarrow> u = v) \<Longrightarrow> fresh_for s v d"
proof -
  obtain m where m: "copy_of L msg m" and o: "quiet m d d' \<or>
      fresh_for (param msg ''broadcast_msgid'') t d \<and> opens L m t d d'"
    using receive_outcome [OF assms(1,2)] assms(4) by blast
  have id: "param m ''broadcast_msgid'' = param msg ''broadcast_msgid''" using m by (simp add: copy_of_def)
  note seen = opens_seen [where L = L and m = m and t = t, OF _ assms(3), unfolded id]
  show "map_ok (f_received_broadcast_messages d')" "now d' = now d" "keeps_names d d'"
    using o assms(3) by (auto simp: quiet_seen seen(2) intro: seen(1,3) quiet_seen(3))
  show "map_find (f_received_broadcast_messages d) s = Some u \<or> s = param msg ''broadcast_msgid'' \<and> u = t"
    if "map_find (f_received_broadcast_messages d') s = Some u"
    using that o
    by (cases "s = param msg ''broadcast_msgid''") (auto simp: quiet_seen seen(4,5) split: option.splits if_splits)
  show "fresh_for s v d" if "fresh_for s v d'" "\<And>u. map_find (f_received_broadcast_messages d) s = Some u \<Longrightarrow> u = v"
    using that o
    by (cases "s = param msg ''broadcast_msgid''")
      (auto simp: fresh_for_def quiet_seen seen(2,4,5) split: option.splits if_splits)
qed

lemma new_log_append: "out d' = out d @ es \<Longrightarrow> new_log d d' = es"
  by simp

lemma copy_of_trans: "copy_of L a b \<Longrightarrow> copy_of L b c \<Longrightarrow> copy_of L a c"
  by (simp add: copy_of_def)

lemma copy_routed: "copy_of L a b \<Longrightarrow> routed L t a \<Longrightarrow> routed L t b"
  by (simp add: copy_of_def routed_def)

text \<open>Either the daemon passes nothing on, or it will not pass the message on again.\<close>

lemma receive_carried:
  assumes "integer_roundtrip L" and "routed L t msg" and "map_ok (f_received_broadcast_messages d)"
    and "d' = receive L other i msg d"
    and "\<And>j. links n j \<noteq> None \<Longrightarrow> is_service_kind (c_kind (obj d j)) \<Longrightarrow> c_name (obj d j) \<noteq> m_service msg"
  obtains (silent) "carried links n (new_log d d') = {#}"
  | (copies) "fresh_for (param msg ''broadcast_msgid'') t d" "\<not> fresh_for (param msg ''broadcast_msgid'') t d'"
      "\<And>n' j m. (n', j, m) \<in># carried links n (new_log d d') \<Longrightarrow> copy_of L msg m \<and> (\<exists>k. links n k = Some (n', j))"
proof -
  obtain m where m: "copy_of L msg m" and o: "quiet m d d' \<or>
      fresh_for (param msg ''broadcast_msgid'') t d \<and> opens L m t d d'"
    using receive_outcome [OF assms(1,2)] assms(4) by blast
  have id: "param m ''broadcast_msgid'' = param msg ''broadcast_msgid''" "m_service m = m_service msg"
    using m by (simp_all add: copy_of_def)
  from o show thesis
  proof (elim disjE conjE)
    assume "quiet m d d'"
    then obtain es where es: "new_log d d' = es" "delivers m d es" unfolding quiet_def using new_log_append by metis
    have "q \<notin># carried links n es" for q
      using es(2) assms(5) id by (cases q) (force simp: carried_iff delivers_def)
    then have "carried links n es = {#}" by (meson multiset_nonemptyE)
    with es(1) have e: "carried links n (new_log d d') = {#}" by simp
    show thesis by (rule silent [OF e])
  next
    assume f: "fresh_for (param msg ''broadcast_msgid'') t d" and p: "opens L m t d d'"
    obtain es where es: "new_log d d' = es" "\<forall>i m'. Sent i m' \<in> set es \<longrightarrow> copy_of L m m'"
      using p unfolding opens_def using new_log_append by metis
    have "\<not> fresh_for (param msg ''broadcast_msgid'') t d'"
      using opens_seen(4) [OF p assms(3)] by (simp add: fresh_for_def id)
    with f show thesis
      by (rule copies) (use es m in \<open>auto simp: carried_iff intro: copy_of_trans\<close>)
  qed
qed

lemma packet_ok_mono:
  assumes "packet_ok L T links N ds (n, i, m)" and "copy_of L m m'" and "n' < N"
    and "\<And>k. keeps_names (ds k) (ds' k)"
    and "\<And>k u. map_find (f_received_broadcast_messages (ds' k)) (param m ''broadcast_msgid'') = Some u \<Longrightarrow>
       u = T (param m ''broadcast_msgid'')"
  shows "packet_ok L T links N ds' (n', j, m')"
proof -
  have "param m' ''broadcast_msgid'' = param m ''broadcast_msgid''" "m_service m' = m_service m"
    using assms(2) by (simp_all add: copy_of_def)
  moreover have "daemon_links_unnamed links ds' (m_service m)"
    using assms(1,4) unfolding packet_ok_def daemon_links_unnamed_def keeps_names_def by fastforce
  ultimately show ?thesis
    using assms copy_routed [OF assms(2)] by (auto simp: packet_ok_def)
qed

lemma deliver_step:
  assumes "integer_roundtrip L" and "flood_ok L T links N w" and "deliver L other links w w'"
  shows "flood_ok L T links N w'" "(flood_measure T N w', flood_measure T N w) \<in> less_than <*lex*> less_than"
proof -
  obtain n i msg t d d' where p: "(n, i, msg) \<in># wire w" and t: "now (nodes w n) \<le> t"
    and d: "d = (nodes w n)\<lparr>now := t\<rparr>" and d': "d' = receive L other i msg d"
    and w': "w' = \<lparr>nodes = (nodes w)(n := d'), wire = wire w - {#(n, i, msg)#} + carried links n (new_log d d')\<rparr>"
    using assms(3) by (rule deliverE)
  let ?s = "param msg ''broadcast_msgid''"
  let ?c = "carried links n (new_log d d')"
  have ok: "packet_ok L T links N (nodes w) (n, i, msg)" using assms(2) p by (auto simp: flood_ok_def)
  then have r: "routed L (T ?s) msg" "n < N" by (simp_all add: packet_ok_def)
  have m: "map_ok (f_received_broadcast_messages d)" using assms(2) by (simp add: d flood_ok_def)
  note seen = receive_seen [OF assms(1) r(1) m d']
  have names: "keeps_names (nodes w k) (nodes w' k)" for k
    using seen(3) by (simp add: w' d keeps_names_def)
  have unnamed: "c_name (obj d j) \<noteq> m_service msg" if "links n j \<noteq> None" "is_service_kind (c_kind (obj d j))" for j
    using ok that by (auto simp: packet_ok_def daemon_links_unnamed_def d)
  have T: "u = T (packet_id q)"
    if "q \<in># wire w" "map_find (f_received_broadcast_messages (nodes w k)) (packet_id q) = Some u" for k u q
    using assms(2) that unfolding flood_ok_def by (cases q) (fastforce simp: packet_ok_def packet_id_def)
  have T': "u = T (packet_id q)"
    if q: "q \<in># wire w" and u: "map_find (f_received_broadcast_messages (nodes w' k)) (packet_id q) = Some u" for k u q
  proof (cases "k = n")
    case True
    with u seen(4) [of "packet_id q" u] T [OF q, of n u] show ?thesis by (auto simp: w' d)
  qed (use T [OF q] u in \<open>simp add: w'\<close>)
  have fresh: "fresh_for (packet_id q) (T (packet_id q)) (nodes w k)"
    if q: "q \<in># wire w" and f: "fresh_for (packet_id q) (T (packet_id q)) (nodes w' k)" for q k
  proof (cases "k = n")
    case True
    with f have "fresh_for (packet_id q) (T (packet_id q)) d'" by (simp add: w')
    then have "fresh_for (packet_id q) (T (packet_id q)) d"
      by (rule seen(5)) (use T [OF q, of n] in \<open>simp add: d\<close>)
    with True t show ?thesis by (simp add: d fresh_for_def)
  qed (use f in \<open>simp add: w'\<close>)
  have new: "copy_of L msg m' \<and> n' < N" if "(n', j, m') \<in># ?c" for n' j m'
  proof (rule receive_carried [OF assms(1) r(1) m d' unnamed, of links n])
    assume "\<And>n' j m. (n', j, m) \<in># ?c \<Longrightarrow> copy_of L msg m \<and> (\<exists>k. links n k = Some (n', j))"
    with that assms(2) show ?thesis unfolding flood_ok_def by blast
  qed (use that in auto)
  have wire: "wire w' = wire w - {#(n, i, msg)#} + ?c" by (simp add: w')
  show "flood_ok L T links N w'"
    unfolding flood_ok_def
  proof (intro conjI ballI allI impI)
    fix q assume "q \<in># wire w'"
    then consider "q \<in># wire w" | "q \<in># ?c" unfolding wire by (auto dest: in_diffD)
    then show "packet_ok L T links N (nodes w') q"
    proof cases
      case 1
      obtain n' j m' where q: "q = (n', j, m')" by (cases q)
      have o: "packet_ok L T links N (nodes w) (n', j, m')" using 1 assms(2) q by (auto simp: flood_ok_def)
      then have "copy_of L m' m'" "n' < N" by (simp_all add: packet_ok_def copy_of_def routed_def)
      then show ?thesis
        unfolding q by (rule packet_ok_mono [OF o]) (use T' [OF 1] names in \<open>auto simp: q packet_id_def\<close>)
    next
      case 2
      obtain n' j m' where q: "q = (n', j, m')" by (cases q)
      show ?thesis
        unfolding q
        by (rule packet_ok_mono [OF ok])
          (use new 2 T' [OF p] names in \<open>auto simp: q packet_id_def\<close>)
    qed
  next
    show "map_ok (f_received_broadcast_messages (nodes w' k))" for k
      using assms(2) seen(1) by (simp add: flood_ok_def w')
  qed (use assms(2) in \<open>unfold flood_ok_def, blast\<close>)
  have fewer: "unaware T N w' \<subseteq> unaware T N w"
    if sub: "packet_id ` set_mset (wire w') \<subseteq> packet_id ` set_mset (wire w)"
  proof (rule subsetI)
    fix x assume "x \<in> unaware T N w'"
    then obtain k s where x: "x = (k, s)" "k < N" "s \<in> packet_id ` set_mset (wire w')"
      "fresh_for s (T s) (nodes w' k)" by (auto simp: unaware_def)
    with sub obtain q where "q \<in># wire w" "s = packet_id q" by blast
    with x fresh show "x \<in> unaware T N w" by (auto simp: unaware_def)
  qed
  show "(flood_measure T N w', flood_measure T N w) \<in> less_than <*lex*> less_than"
  proof (rule receive_carried [OF assms(1) r(1) m d' unnamed, of links n])
    assume c: "?c = {#}"
    have "unaware T N w' \<subseteq> unaware T N w" by (rule fewer) (auto simp: wire c dest: in_diffD)
    then have "card (unaware T N w') \<le> card (unaware T N w)"
      by (rule card_mono [OF finite_unaware])
    moreover have "size (wire w') < size (wire w)" using p by (simp add: wire c size_Diff1_less)
    ultimately show ?thesis by (auto simp: flood_measure_def)
  next
    assume f: "fresh_for ?s (T ?s) d" "\<not> fresh_for ?s (T ?s) d'"
      and c: "\<And>n' j m. (n', j, m) \<in># ?c \<Longrightarrow> copy_of L msg m \<and> (\<exists>k. links n k = Some (n', j))"
    have id: "packet_id (n, i, msg) = ?s" by (simp add: packet_id_def)
    have "packet_id ` set_mset (wire w') \<subseteq> packet_id ` set_mset (wire w)"
    proof
      fix s assume "s \<in> packet_id ` set_mset (wire w')"
      then obtain q where q: "q \<in># wire w'" "s = packet_id q" by blast
      then consider "q \<in># wire w" | "q \<in># ?c" unfolding wire by (auto dest: in_diffD)
      then show "s \<in> packet_id ` set_mset (wire w)"
      proof cases
        case 2
        with c have "s = ?s" by (cases q) (fastforce simp: q(2) packet_id_def copy_of_def)
        with p id show ?thesis by (metis imageI)
      qed (use q in blast)
    qed
    then have "unaware T N w' \<subseteq> unaware T N w" by (rule fewer)
    moreover have "?s \<in> packet_id ` set_mset (wire w)" using p id by (metis imageI)
    then have "(n, ?s) \<in> unaware T N w" using f(1) r(2) t by (simp add: unaware_def d fresh_for_def)
    moreover have "(n, ?s) \<notin> unaware T N w'" using f(2) by (simp add: unaware_def w')
    ultimately have "unaware T N w' \<subset> unaware T N w" by blast
    then have "card (unaware T N w') < card (unaware T N w)"
      by (rule psubset_card_mono [OF finite_unaware])
    then show ?thesis by (simp add: flood_measure_def)
  qed
qed


text \<open>
  C5: A flood ends: however the daemons are connected, in whatever states they are, in whatever order and how
  late the copies arrive, only finitely many copies of the broadcasts in transit are ever delivered.
\<close>

theorem flood_terminates:
  assumes "integer_roundtrip L" and "flood_ok L T links N w"
  shows "\<not> (\<exists>f. f 0 = w \<and> (\<forall>k. deliver L other links (f k) (f (Suc k))))"
proof
  assume "\<exists>f. f 0 = w \<and> (\<forall>k. deliver L other links (f k) (f (Suc k)))"
  then obtain f where f: "f 0 = w" "\<And>k. deliver L other links (f k) (f (Suc k))" by blast
  have ok: "flood_ok L T links N (f k)" for k
  proof (induction k)
    case 0
    with assms(2) f(1) show ?case by simp
  next
    case (Suc k)
    with deliver_step(1) [OF assms(1) _ f(2)] show ?case by blast
  qed
  have "(flood_measure T N (f (Suc k)), flood_measure T N (f k)) \<in> less_than <*lex*> less_than" for k
    using deliver_step(2) [OF assms(1) ok f(2)] .
  then have "\<exists>g. \<forall>k. (g (Suc k), g k) \<in> less_than <*lex*> less_than"
    by (intro exI [of _ "\<lambda>k. flood_measure T N (f k)"]) simp
  moreover have "wf (less_than <*lex*> less_than)" by blast
  ultimately show False unfolding wf_iff_no_infinite_down_chain by blast
qed

section \<open>At most once\<close>

text \<open>How many messages with an identifier a part of the log sends over a connection.\<close>

definition times_sent :: "cid \<Rightarrow> string \<Rightarrow> 'a event list \<Rightarrow> nat" where
  "times_sent i s es = length (filter (\<lambda>(j, m). j = i \<and> has_parameter m ''broadcast_msgid'' \<and>
     param m ''broadcast_msgid'' = s) (sent_messages es))"

lemma times_sent_append [simp]: "times_sent i s (es @ fs) = times_sent i s es + times_sent i s fs"
  by (simp add: times_sent_def)

lemma times_sent_distinct:
  assumes "distinct (map fst (sent_messages es))" shows "times_sent i s es \<le> 1"
proof -
  have "length (filter (\<lambda>(j, m). j = i \<and> P m) xs) \<le> 1" if "distinct (map fst xs)" for xs :: "(cid \<times> message) list" and P
    using that
  proof (induction xs)
    case (Cons x xs)
    have "filter (\<lambda>(j, m). j = i \<and> P m) xs = []" if "fst x = i"
      using Cons.prems that by (auto simp: filter_empty_conv image_iff)
    with Cons show ?case by (cases x) auto
  qed simp
  with assms show ?thesis by (simp add: times_sent_def)
qed

lemma times_sent_0: "(\<And>m. Sent i m \<in> set es \<Longrightarrow> has_parameter m ''broadcast_msgid'' \<Longrightarrow> param m ''broadcast_msgid'' \<noteq> s) \<Longrightarrow> times_sent i s es = 0"
  by (force simp: times_sent_def filter_empty_conv sent_messages_iff)

lemma receive_times_sent:
  assumes "integer_roundtrip L" and "routed L t msg" and "map_ok (f_received_broadcast_messages d)"
    and "is_broadcast_service (m_service msg)" and "distinct (connections d)"
  obtains es where "out (receive L other i msg d) = out d @ es" "distinct (connections (receive L other i msg d))"
    "\<And>j s. s \<noteq> param msg ''broadcast_msgid'' \<or> \<not> fresh_for s t d \<Longrightarrow> times_sent j s es = 0"
    "\<And>j s. times_sent j s es \<le> 1"
    "\<And>j s. fresh_for s t (receive L other i msg d) \<Longrightarrow> times_sent j s es = 0"
proof -
  let ?d = "receive L other i msg d"
  obtain m where m: "copy_of L msg m" and o: "quiet m d ?d \<or>
      fresh_for (param msg ''broadcast_msgid'') t d \<and> opens L m t d ?d"
    using receive_outcome [OF assms(1,2)] by blast
  have id: "param m ''broadcast_msgid'' = param msg ''broadcast_msgid''" "m_service m = m_service msg"
    using m by (simp_all add: copy_of_def)
  from o show thesis
  proof (elim disjE conjE)
    assume q: "quiet m d ?d"
    then obtain es where es: "out ?d = out d @ es" "delivers m d es" unfolding quiet_def by blast
    have "times_sent j s es = 0" for j s
      by (rule times_sent_0) (use es(2) assms(4) id in \<open>auto simp: delivers_def\<close>)
    with es(1) q assms(5) show thesis by (intro that [of es]) (simp_all add: quiet_def)
  next
    assume f: "fresh_for (param msg ''broadcast_msgid'') t d" and p: "opens L m t d ?d"
    then obtain es where es: "out ?d = out d @ es" "\<forall>i m'. Sent i m' \<in> set es \<longrightarrow> copy_of L m m'"
      "distinct (map fst (sent_messages es))"
      using assms(5) unfolding opens_def by blast
    have z: "times_sent j s es = 0" if "s \<noteq> param msg ''broadcast_msgid''" for j s
      by (rule times_sent_0) (use es(2) id that in \<open>auto simp: copy_of_def\<close>)
    show thesis
    proof (rule that [OF es(1)])
      show "times_sent j s es = 0" if "fresh_for s t ?d" for j s
        using z [of s j] opens_seen(4) [OF p assms(3)] that
        by (cases "s = param msg ''broadcast_msgid''") (simp_all add: fresh_for_def id)
    qed (use z f times_sent_distinct [OF es(3)] p assms(5) in \<open>auto simp: opens_def\<close>)
  qed
qed


text \<open>
  The run from a network \<open>w0\<close>: the messages in transit at the start are the only ones there will be, and
  what the daemon \<open>n\<close> sent of one of them so far went at most once over each connection, or not at
  all if the daemon would still pass it on.
\<close>

definition sent_once :: "(string \<Rightarrow> int) \<Rightarrow> string set \<Rightarrow> 'a daemon \<Rightarrow> 'a daemon \<Rightarrow> bool" where
  "sent_once T S d0 d \<longleftrightarrow> (\<exists>es. out d = out d0 @ es \<and>
     (\<forall>i s. times_sent i s es \<le> 1 \<and> (s \<notin> S \<or> fresh_for s (T s) d \<longrightarrow> times_sent i s es = 0)))"

definition agrees :: "(string \<Rightarrow> int) \<Rightarrow> string set \<Rightarrow> 'a daemon \<Rightarrow> bool" where
  "agrees T S d \<longleftrightarrow> distinct (connections d) \<and>
     (\<forall>s \<in> S. \<forall>u. map_find (f_received_broadcast_messages d) s = Some u \<longrightarrow> u = T s)"

definition broadcasts_only :: "string set \<Rightarrow> packet multiset \<Rightarrow> bool" where
  "broadcasts_only S ps \<longleftrightarrow> (\<forall>(n, i, m) \<in># ps. param m ''broadcast_msgid'' \<in> S \<and> is_broadcast_service (m_service m))"

definition once_inv :: "('a, 'z) lib_scheme \<Rightarrow> (string \<Rightarrow> int) \<Rightarrow> links \<Rightarrow> nat \<Rightarrow> 'a network \<Rightarrow> 'a network \<Rightarrow> bool" where
  "once_inv L T links N w0 w \<longleftrightarrow> integer_roundtrip L \<and> flood_ok L T links N w \<and>
     broadcasts_only (packet_id ` set_mset (wire w0)) (wire w) \<and>
     (\<forall>n. agrees T (packet_id ` set_mset (wire w0)) (nodes w n) \<and>
        sent_once T (packet_id ` set_mset (wire w0)) (nodes w0 n) (nodes w n))"

definition flood_start :: "('a, 'z) lib_scheme \<Rightarrow> (string \<Rightarrow> int) \<Rightarrow> links \<Rightarrow> nat \<Rightarrow> 'a network \<Rightarrow> 'a network \<Rightarrow> bool" where
  "flood_start L T links N w0 w \<longleftrightarrow> w = w0 \<and> integer_roundtrip L \<and> flood_ok L T links N w \<and>
     (\<forall>(n, i, m) \<in># wire w. is_broadcast_service (m_service m)) \<and> (\<forall>n. distinct (connections (nodes w n)))"

lemma flood_start_inv:
  assumes "flood_start L T links N w0 w" shows "once_inv L T links N w0 w"
proof -
  have "u = T s" if "s \<in> packet_id ` set_mset (wire w)" "map_find (f_received_broadcast_messages (nodes w n)) s = Some u" for s u n
  proof -
    from that obtain q where "q \<in># wire w" "s = packet_id q" by blast
    with that assms show ?thesis
      by (cases q) (fastforce simp: flood_start_def flood_ok_def packet_ok_def packet_id_def)
  qed
  moreover have "broadcasts_only (packet_id ` set_mset (wire w)) (wire w)"
    using assms by (force simp: flood_start_def broadcasts_only_def packet_id_def)
  ultimately show ?thesis
    using assms by (auto simp: once_inv_def flood_start_def agrees_def sent_once_def times_sent_def)
qed

lemma deliver_once:
  assumes "deliver L other links w w'" and "once_inv L T links N w0 w"
  shows "once_inv L T links N w0 w'"
proof -
  let ?S = "packet_id ` set_mset (wire w0)"
  have ints: "integer_roundtrip L" and ok: "flood_ok L T links N w" and b: "broadcasts_only ?S (wire w)"
    and ds: "\<And>n. agrees T ?S (nodes w n)" "\<And>n. sent_once T ?S (nodes w0 n) (nodes w n)"
    using assms(2) by (simp_all add: once_inv_def)
  obtain n i msg t d d' where p: "(n, i, msg) \<in># wire w" and t: "now (nodes w n) \<le> t"
    and d: "d = (nodes w n)\<lparr>now := t\<rparr>" and d': "d' = receive L other i msg d"
    and w': "w' = \<lparr>nodes = (nodes w)(n := d'), wire = wire w - {#(n, i, msg)#} + carried links n (new_log d d')\<rparr>"
    using assms(1) by (rule deliverE)
  let ?s = "param msg ''broadcast_msgid''"
  have pok: "packet_ok L T links N (nodes w) (n, i, msg)" using ok p by (auto simp: flood_ok_def)
  then have r: "routed L (T ?s) msg" by (simp add: packet_ok_def)
  have s: "?s \<in> ?S" "is_broadcast_service (m_service msg)" using b p by (auto simp: broadcasts_only_def)
  have m: "map_ok (f_received_broadcast_messages d)" using ok by (simp add: d flood_ok_def)
  have dist: "distinct (connections d)" using ds(1) by (simp add: d agrees_def)
  have unnamed: "c_name (obj d j) \<noteq> m_service msg" if "links n j \<noteq> None" "is_service_kind (c_kind (obj d j))" for j
    using pok that by (auto simp: packet_ok_def daemon_links_unnamed_def d)
  note seen = receive_seen [OF ints r m d']
  have "broadcasts_only ?S (carried links n (new_log d d'))"
  proof (rule receive_carried [OF ints r m d' unnamed, of links n])
    assume c: "\<And>n' j m. (n', j, m) \<in># carried links n (new_log d d') \<Longrightarrow> copy_of L msg m \<and> (\<exists>k. links n k = Some (n', j))"
    have "param m ''broadcast_msgid'' \<in> ?S \<and> is_broadcast_service (m_service m)"
      if "(k, j, m) \<in># carried links n (new_log d d')" for k j m
      using c [OF that] s by (simp add: copy_of_def)
    then show ?thesis by (auto simp: broadcasts_only_def)
  qed (simp_all add: broadcasts_only_def)
  then have b': "broadcasts_only ?S (wire w')" using b by (auto simp: broadcasts_only_def w' dest: in_diffD)
  obtain es where es: "out d' = out d @ es" "distinct (connections d')"
    "\<And>j s. s \<noteq> ?s \<or> \<not> fresh_for s (T ?s) d \<Longrightarrow> times_sent j s es = 0"
    "\<And>j s. times_sent j s es \<le> 1" "\<And>j s. fresh_for s (T ?s) d' \<Longrightarrow> times_sent j s es = 0"
    by (rule receive_times_sent [OF ints r m s(2) dist, of other i, folded d']) (rule that; assumption)
  have a: "agrees T ?S d'"
    using es(2) seen(4) ds(1) [of n] by (fastforce simp: agrees_def d)
  have fresh: "fresh_for s (T s) (nodes w n)" if "s \<in> ?S" "fresh_for s (T s) d'" for s
  proof -
    have "fresh_for s (T s) d" using that(2)
      by (rule seen(5)) (use ds(1) [of n] that(1) in \<open>auto simp: agrees_def d\<close>)
    with t show ?thesis by (simp add: d fresh_for_def)
  qed
  obtain fs where fs: "out (nodes w n) = out (nodes w0 n) @ fs" "\<And>j s. times_sent j s fs \<le> 1"
    "\<And>j s. s \<notin> ?S \<or> fresh_for s (T s) (nodes w n) \<Longrightarrow> times_sent j s fs = 0"
    using ds(2) [of n] unfolding sent_once_def by blast
  have "times_sent j s (fs @ es) \<le> 1 \<and> (s \<notin> ?S \<or> fresh_for s (T s) d' \<longrightarrow> times_sent j s (fs @ es) = 0)" for j s
  proof (cases "s = ?s \<and> fresh_for s (T ?s) d")
    case True
    then have "fresh_for s (T s) (nodes w n)" using t by (auto simp: d fresh_for_def)
    with fs(3) es(4,5) s(1) True show ?thesis by auto
  next
    case False
    then have "times_sent j s es = 0" by (intro es(3)) blast
    with fs(2,3) fresh show ?thesis by auto
  qed
  then have "sent_once T ?S (nodes w0 n) d'" using fs(1) es(1) unfolding sent_once_def by (auto simp: d)
  with a ds have "agrees T ?S (nodes w' k) \<and> sent_once T ?S (nodes w0 k) (nodes w' k)" for k
    by (simp add: w')
  with ints b' deliver_step(1) [OF ints ok assms(1)] show ?thesis by (simp add: once_inv_def)
qed

interpretation fl: invariant_machine "flood_start L T links N w0" "deliver L other links" "once_inv L T links N w0"
  for L other T links N w0
  by unfold_locales (auto intro: flood_start_inv deliver_once)

text \<open>
  C14: From the moment the copies of a broadcast are on the wire, a daemon passes the message on at most once
  over each of its connections, however many copies reach it, over whatever links and in whatever order. So
  a daemon that had not sent the message before sends it over a connection at most once in all, and a local
  service of such a daemon gets it at most once. The daemon the broadcast comes from had sent it before:
  it may do so a second time, when a neighbor sends the message back (\<open>broadcast_echoed\<close>, below).
\<close>

theorem flood_once:
  assumes "integer_roundtrip L" and "flood_ok L T links N w"
    and "\<forall>(n, i, m) \<in># wire w. is_broadcast_service (m_service m)" and "\<forall>n. distinct (connections (nodes w n))"
    and "(deliver L other links)\<^sup>*\<^sup>* w w'"
  shows "times_sent i s (new_log (nodes w n) (nodes w' n)) \<le> 1 \<and>
    times_sent i s (out (nodes w' n)) \<le> Suc (times_sent i s (out (nodes w n))) \<and>
    (times_sent i s (out (nodes w n)) = 0 \<longrightarrow> times_sent i s (out (nodes w' n)) \<le> 1)"
proof -
  have "flood_start L T links N w w" using assms by (simp add: flood_start_def)
  then have "once_inv L T links N w w'" using assms(5) by (rule fl.inv_run)
  then have "sent_once T (packet_id ` set_mset (wire w)) (nodes w n) (nodes w' n)" by (simp add: once_inv_def)
  then obtain es where "out (nodes w' n) = out (nodes w n) @ es" "times_sent i s es \<le> 1"
    unfolding sent_once_def by blast
  then show ?thesis by simp
qed

section \<open>Two daemons linked to each other\<close>

definition sample_links :: links where
  "sample_links n i = (if i = 1 \<and> n < 2 then Some (1 - n, 1) else None)"

definition sample_network :: "int network" where
  "sample_network = \<lparr>nodes = (\<lambda>n. sample_cluster), wire = {#(0, 1, sample_relayed)#}\<rparr>"

lemma sample_relayed_routed: "routed sample_lib 1010 sample_relayed"
  using sample_relayed_facts
  by (simp add: routed_def sample_relayed_def sample_broadcast_def new_message_def param_def)

lemma sample_relayed_msgid: "param sample_relayed ''broadcast_msgid'' = ''beta-7''"
  by (simp add: sample_relayed_def param_def)

lemma sample_flood_ok: "flood_ok sample_lib (\<lambda>_. 1010) sample_links 2 sample_network"
  using sample_relayed_routed
  by (auto simp: flood_ok_def packet_ok_def sample_network_def sample_links_def daemon_links_unnamed_def map_ok_def
      sample_cluster_def sample_daemon_def sample_conn_def blank_conn_def is_service_kind_def split: if_splits)

theorem flood_terminates_witness:
  "\<not> (\<exists>f. f 0 = sample_network \<and> (\<forall>k. deliver sample_lib no_other sample_links (f k) (f (Suc k))))"
  using flood_terminates [OF sample_lib_integers sample_flood_ok] by blast

theorem flood_once_witness:
  "times_sent 0 ''beta-7'' (out (receive sample_lib no_other 1 sample_relayed sample_cluster)) = 1"
proof -
  let ?d = "sample_cluster\<lparr>now := 1000\<rparr>"
  have c: "?d = sample_cluster" "now sample_cluster = 1000" "out sample_cluster = []"
    by (simp_all add: sample_cluster_def sample_daemon_def)
  let ?w = "\<lparr>nodes = (nodes sample_network)(0 := receive sample_lib no_other 1 sample_relayed sample_cluster),
      wire = wire sample_network - {#(0, 1, sample_relayed)#} + carried sample_links 0
        (new_log sample_cluster (receive sample_lib no_other 1 sample_relayed sample_cluster))\<rparr>"
  have step: "deliver sample_lib no_other sample_links sample_network ?w"
    by (rule deliver.intros [where n = 0 and t = 1000]) (simp_all add: sample_network_def c)
  have "times_sent 0 ''beta-7'' (new_log (nodes sample_network 0) (nodes ?w 0)) \<le> 1"
    by (rule flood_once [OF sample_lib_integers sample_flood_ok _ _ r_into_rtranclp [of "deliver sample_lib no_other sample_links", OF step], THEN conjunct1])
      (simp_all add: sample_network_def sample_relayed_def sample_broadcast_def new_message_def is_broadcast_service_def
        sample_cluster_def sample_daemon_def)
  moreover have "1 \<le> times_sent 0 ''beta-7'' (out (receive sample_lib no_other 1 sample_relayed sample_cluster))"
    by code_simp
  ultimately show ?thesis by (simp add: sample_network_def c)
qed

section \<open>A message for one service\<close>

text \<open>
  A message that is delivered to a service of this computer is not recorded, so a second copy of it, which
  came by another way, is delivered as well.
\<close>

lemma service_delivered_again:
  assumes "routed L t m1" and "routed L t m2" and "fresh_for (param m1 ''broadcast_msgid'') t d"
    and "param m2 ''broadcast_msgid'' = param m1 ''broadcast_msgid''" 
    and "\<not> f_shutdown d" and "servers_named d" and "\<not> is_broadcast_service (m_service m1)"
    and "m_service m2 = m_service m1" and "m_server m2 = m_server m1"
    and "m_user_data m1 \<noteq> Some i" "m_user_data m2 \<noteq> Some i" 
    and "find (is_destination d m1) (connections d) = Some i"
    and "verify_command d i m1" "verify_command d i m2"
  shows "dispatch_message L other m1 d = Ret False (send_message i m1 d)"
    "dispatch_message L other m2 (send_message i m1 d) = Ret False (send_message i m2 (send_message i m1 d))"
proof -
  show "dispatch_message L other m1 d = Ret False (send_message i m1 d)" by (rule dispatch_delivers) (use assms in auto)
  have n: "server_name_missing (send_message i m1 d) = server_name_missing d"
    by (simp add: fun_eq_iff server_name_missing_def Let_def state_simps cong: if_cong)
  have s: "f_server_name (send_message i m1 d) = f_server_name d" "obj (send_message i m1 d) = obj d"
    by (simp_all add: state_simps)
  have e: "is_destination (send_message i m1 d) m2 = is_destination d m1"
    using assms(8,9)
    by (simp add: fun_eq_iff is_destination_def forward_skips_def n s forward_server_name_def)
  show "dispatch_message L other m2 (send_message i m1 d) = Ret False (send_message i m2 (send_message i m1 d))"
    by (rule dispatch_delivers) (use assms in \<open>simp_all add: e\<close>, auto simp: fresh_for_def servers_named_def state_simps verify_command_def)
qed

section \<open>The echo of a broadcast\<close>

text \<open>
  Two daemons: a broadcast of the first, which has a service that listens, comes back. The first daemon does
  not record the identifier of its own message and is not in the list of informed neighbors, so the second
  one sends the message back and the service gets it twice.
\<close>

definition sample_home :: "int daemon" where
  "sample_home = sample_daemon [(sample_conn Remote_conn ''out'' 5 {''NEWS''})\<lparr>f_type := Remote_type\<rparr>,
     sample_conn Service_conn ''cron'' 0 {''NEWS''}]"

definition sample_peer :: "int daemon" where
  "sample_peer = (sample_daemon [(sample_conn Service_conn ''in'' 10 {''NEWS''})\<lparr>f_type := Remote_type\<rparr>])
     \<lparr>f_server_name := ''beta'', f_connection_address := 5\<rparr>"

definition first_to :: "cid \<Rightarrow> 'a event list \<Rightarrow> message" where
  "first_to i es = hd (map snd (filter (\<lambda>(j, m). j = i) (sent_messages es)))"

definition sample_told_home :: "int daemon" where
  "sample_told_home = broadcast_new sample_lib
     (new_message\<lparr>m_command := ''NEWS'', m_service := ''*'', m_server := ''*''\<rparr>) [] sample_home"

definition sample_told_peer :: "int daemon" where
  "sample_told_peer = receive sample_lib no_other 0 (first_to 0 (out sample_told_home)) sample_peer"

lemma broadcast_echoed:
  "map fst (sent_messages (out sample_told_home)) = [1, 0]"
  "map fst (sent_messages (out sample_told_peer)) = [0]"
  "map fst (sent_messages (new_log sample_told_home
     (receive sample_lib no_other 0 (first_to 0 (out sample_told_peer)) sample_told_home))) = [1]"
  by code_simp+

end
