(* ===== verification/Two_Daemons.thy ===== *)
theory Two_Daemons
  imports Relay
begin

text \<open>
  What two daemons do together: the exchange of CONNECT and ACCEPT, after which both ends of the connection
  are marked as links to the other daemon, and the way of a message from a computer to a service of another.
\<close>

section \<open>What the handlers leave alone\<close>

text \<open>What a daemon knows of the other end of a connection.\<close>

definition link_view :: "'a conn \<Rightarrow> conn_kind \<times> bool \<times> connection_type \<times> string \<times> 'a" where
  "link_view c = (c_kind c, f_is_udp c, f_type c, f_base_server_name c, f_base_address c)"

definition keeps_links :: "'a daemon \<Rightarrow> 'a daemon \<Rightarrow> bool" where
  "keeps_links d d' \<longleftrightarrow> next_id d \<le> next_id d' \<and> f_server_name d' = f_server_name d \<and>
     f_connection_address d' = f_connection_address d \<and> f_shutdown d' = f_shutdown d \<and>
     (\<forall>i < next_id d. link_view (obj d' i) = link_view (obj d i)) \<and> (\<exists>es. out d' = out d @ es)"

lemma keeps_links_refl [simp]: "keeps_links d d"
  by (simp add: keeps_links_def)

lemma keeps_links_trans [trans]:
  assumes "keeps_links a b" and "keeps_links b c" shows "keeps_links a c"
  using assms unfolding keeps_links_def by fastforce

lemma only_sends_keeps_links:
  assumes "only_sends d d'" shows "keeps_links d d'"
proof -
  obtain es where "d' = d\<lparr>out := out d @ es\<rparr>" using assms unfolding only_sends_def by metis
  then show ?thesis by (simp add: keeps_links_def)
qed

lemma keeps_links_update:
  "keeps_links d (d\<lparr>f_all_neighbors := n\<rparr>)" "keeps_links d (d\<lparr>f_neighbors_cache_filename := f\<rparr>)"
  "keeps_links d (d\<lparr>f_services_heard_of_list := S, f_services_heard_of := s\<rparr>)"
  "keeps_links d (unlist_connection i d)" "keeps_links d (d\<lparr>f_gossip_ips := m\<rparr>)"
  "keeps_links d (d\<lparr>f_all_ips := A\<rparr>)" "keeps_links d (d\<lparr>out := out d @ es, g_broadcast_sequence := q\<rparr>)"
  "keeps_links d (d\<lparr>f_cluster_status := s, f_cluster_complete := s', f_total_count_sent := k, out := out d @ es, g_broadcast_sequence := q\<rparr>)"
  by (simp_all add: keeps_links_def unlist_connection_def)

lemma keeps_links_upd_conn: "(\<And>c. link_view (f c) = link_view c) \<Longrightarrow> keeps_links d (upd_conn i f d)"
  by (simp add: keeps_links_def upd_conn_def)

lemma connection_lost_keeps_links: "keeps_links d (connection_lost L a d)"
  by (auto simp: connection_lost_def new_object_def add_connection_def keeps_links_def Let_def)

lemma add_remote_communicator_keeps_links: "keeps_links d (add_remote_communicator L a d)"
  using keeps_links_trans [OF keeps_links_update(6) [of d "insert a (f_all_ips d)"] connection_lost_keeps_links]
  by (auto simp: add_remote_communicator_def link_view_def new_object_def add_connection_def upd_conn_def keeps_links_def Let_def
      split: option.split)

lemma read_addresses_keeps_links: "keeps_links d (read_addresses L rs d)"
  by (induction L rs d rule: read_addresses.induct)
    (auto split: option.split intro: keeps_links_trans [OF keeps_links_trans [OF keeps_links_update(1) add_remote_communicator_keeps_links]])

lemma add_addresses_keeps_links: "keeps_links d (snd (add_addresses L rs (b, d)))"
proof (induction rs arbitrary: b d)
  case (Cons r rs)
  then show ?case
    by (auto split: option.split intro: keeps_links_trans [OF keeps_links_trans [OF keeps_links_update(1) add_remote_communicator_keeps_links]])
qed simp

lemma save_neighbors_keeps_links: "keeps_links d (res_state (save_neighbors d))"
  by (simp add: save_neighbors_def keeps_links_def emit_def)

lemma read_neighbors_keeps_links: "keeps_links d (read_neighbors L d)"
  by (auto simp: read_neighbors_def Let_def keeps_links_update(2) split: option.split
      intro: keeps_links_trans [OF keeps_links_update(2) read_addresses_keeps_links])

lemma add_neighbors_keeps_links: "keeps_links d (res_state (add_neighbors L s d))"
proof -
  let ?st = "add_addresses L (parse_required_port L (trim_string L s)) (False, read_neighbors L d)"
  have "keeps_links d (snd ?st)"
    using read_neighbors_keeps_links add_addresses_keeps_links by (rule keeps_links_trans)
  then show ?thesis
    by (cases ?st) (auto simp: add_neighbors_def Let_def intro: keeps_links_trans save_neighbors_keeps_links)
qed

lemma take_lists_links: obtains d' where "take_lists L msg i d = ok d'" "keeps_links d d'"
proof -
  let ?d1 = "if has_parameter msg ''services'' then upd_conn i (set_services L (param msg ''services'')) d else d"
  let ?d2 = "if has_parameter msg ''heard_of'' then upd_conn i (set_services_heard_of L (param msg ''heard_of'')) ?d1 else ?d1"
  have v: "link_view (set_services L s c) = link_view c" "link_view (set_services_heard_of L s c) = link_view c" for s c
    by (simp_all add: link_view_def set_services_def set_services_heard_of_def)
  have k: "keeps_links d ?d2"
    by (auto intro: keeps_links_upd_conn v keeps_links_trans [OF keeps_links_upd_conn keeps_links_upd_conn])
  have "\<exists>d3. (if p then add_neighbors L s d2 else ok d2) = ok d3 \<and> keeps_links d2 d3" for p s and d2 :: "'a daemon"
    using add_neighbors_returns [of L s d2] add_neighbors_keeps_links [of d2 L s] by (cases p) auto
  then obtain d3 where d3: "(if has_parameter msg ''neighbors'' then add_neighbors L (param msg ''neighbors'') ?d2 else ok ?d2) = ok d3"
    "keeps_links ?d2 d3" by blast
  from k d3(2) have "keeps_links d (refresh_heard_of L d3)"
    unfolding refresh_heard_of_empty by (blast intro: keeps_links_trans keeps_links_update(3))
  with d3(1) show thesis by (intro that) (simp_all add: take_lists_def Let_def)
qed

lemma broadcast_new_keeps_links:
  assumes "\<not> has_parameter msg ''broadcast_msgid''"
  shows "keeps_links d (broadcast_new L msg acc d)" "broadcast_message L msg acc d = ok (broadcast_new L msg acc d)"
  by (rule broadcast_new_fresh [OF assms, of L acc d]; simp add: keeps_links_update(7) ok_def)+

lemma cluster_status_keeps_links: "keeps_links d (cluster_status L None d)"
  by (rule cluster_status_None_form [of L d]) (simp only: keeps_links_update(8))

lemma gossip_received_keeps_links: "keeps_links d (gossip_received a d)"
  by (auto simp: gossip_received_def unlist_connection_def keeps_links_def split: option.split)

lemma send_keeps_links:
  "keeps_links d (send_to i m d)" "keeps_links d (new_connection i d)" "keeps_links d (send_status i r d)"
  by (auto intro: only_sends_keeps_links new_connection_only_sends send_status_only_sends)


section \<open>CONNECT and ACCEPT\<close>

text \<open>The message \<open>process_connected\<close> sends.\<close>

definition connect_message :: "('a, 'z) lib_scheme \<Rightarrow> 'a daemon \<Rightarrow> message" where
  "connect_message L d =
     (let m1 = add_parameter ''server_name'' (f_server_name d)
            (add_parameter ''my_address'' (ip_port_string L (f_connection_address d))
              (add_version L (daemon_message (f_server_name d) ''CONNECT'')));
          m2 = with_neighbors d m1;
          m3 = (if f_local_services d \<noteq> [] then add_parameter ''services'' (f_local_services d) m2 else m2)
      in if f_services_heard_of d \<noteq> [] then add_parameter ''heard_of'' (f_services_heard_of d) m3 else m3)"

lemma process_connected_connects:
  "is_base (c_kind (obj d i)) \<Longrightarrow>
     process_connected L i d = send_status i None (send_to i (connect_message L d) d)"
  by (simp add: process_connected_def connect_message_def Let_def)

text \<open>
  What the library documents: the version it adds to a message is the one it accepts, and it looks at no
  other parameter; an address it writes is the one it reads.
\<close>

definition version_law :: "('a, 'z) lib_scheme \<Rightarrow> bool" where
  "version_law L \<longleftrightarrow>
     (\<forall>m. check_version L (add_version L m) \<and> m_command (add_version L m) = m_command m \<and>
        m_server (add_version L m) = m_server m \<and> m_service (add_version L m) = m_service m \<and>
        has_parameter (add_version L m) ''broadcast_msgid'' = has_parameter m ''broadcast_msgid'') \<and>
     (\<forall>m m'. (\<forall>k. k \<notin> {''server_name'', ''my_address'', ''neighbors'', ''services'', ''heard_of''} \<longrightarrow>
        m_params m' k = m_params m k) \<longrightarrow> check_version L m' = check_version L m)"

definition address_law :: "('a, 'z) lib_scheme \<Rightarrow> 'a \<Rightarrow> bool" where
  "address_law L a \<longleftrightarrow> string_to_addr L (ip_port_string L a) ''255.255.255.255'' 4042 = Some a"

lemma version_law_same:
  assumes "version_law L"
    and "\<And>k. k \<notin> {''server_name'', ''my_address'', ''neighbors'', ''services'', ''heard_of''} \<Longrightarrow> m_params m' k = m_params m k"
  shows "check_version L m' = check_version L m"
  using assms unfolding version_law_def by blast

lemma connect_message_fields:
  assumes "version_law L"
  shows "check_version L (connect_message L d)" "m_command (connect_message L d) = ''CONNECT''"
    "m_server (connect_message L d) = []" "m_service (connect_message L d) = []"
    "\<not> has_parameter (connect_message L d) ''broadcast_msgid''"
    "m_params (connect_message L d) ''server_name'' = Some (f_server_name d)"
    "m_params (connect_message L d) ''my_address'' = Some (ip_port_string L (f_connection_address d))"
proof -
  let ?m = "add_version L (daemon_message (f_server_name d) ''CONNECT'')"
  have "check_version L (connect_message L d) = check_version L ?m"
    by (rule version_law_same [OF assms]) (auto simp: connect_message_def Let_def with_neighbors_def)
  then show "check_version L (connect_message L d)" using assms by (simp add: version_law_def)
  show "m_command (connect_message L d) = ''CONNECT''" "m_server (connect_message L d) = []"
    "m_service (connect_message L d) = []" "\<not> has_parameter (connect_message L d) ''broadcast_msgid''"
    "m_params (connect_message L d) ''server_name'' = Some (f_server_name d)"
    "m_params (connect_message L d) ''my_address'' = Some (ip_port_string L (f_connection_address d))"
    using assms by (simp_all add: version_law_def connect_message_def Let_def with_neighbors_def)
qed

text \<open>A message for the daemon itself goes to its handler.\<close>

lemma dispatch_own:
  assumes "\<not> has_parameter m ''broadcast_msgid''" and "\<not> f_shutdown d" and "m_server m = []" and "m_service m = []"
    and "handler_of L (m_command m) = Some h"
  shows "dispatch_message L other m d = seq (h m d) (Ret True)"
  using assms
  by (simp add: dispatch_message_def check_broadcast_message_def shutting_down_def communicator_message_def
      communicator_dispatch_def)

lemma keeps_links_view: "keeps_links d d' \<Longrightarrow> i < next_id d \<Longrightarrow> link_view (obj d' i) = link_view (obj d i)"
  by (simp add: keeps_links_def)

text \<open>The connection is a link to the daemon with this name and this address.\<close>

definition linked :: "'a daemon \<Rightarrow> cid \<Rightarrow> string \<Rightarrow> 'a \<Rightarrow> bool" where
  "linked d i name a \<longleftrightarrow> f_type (obj d i) = Remote_type \<and> f_base_server_name (obj d i) = name \<and> f_base_address (obj d i) = a"

lemma linked_keeps: "linked d i name a \<Longrightarrow> keeps_links d d' \<Longrightarrow> i < next_id d \<Longrightarrow> linked d' i name a"
  using keeps_links_view [of d d' i] by (simp add: linked_def link_view_def)

text \<open>The reply that accepts a connection.\<close>

definition accepts :: "('a, 'z) lib_scheme \<Rightarrow> 'a daemon \<Rightarrow> message \<Rightarrow> bool" where
  "accepts L d r \<longleftrightarrow> m_command r = ''ACCEPT'' \<and> m_server r = [] \<and> m_service r = [] \<and>
     \<not> has_parameter r ''broadcast_msgid'' \<and> m_params r ''server_name'' = Some (f_server_name d) \<and>
     m_params r ''my_address'' = Some (ip_port_string L (f_connection_address d))"

definition same_daemon :: "'a daemon \<Rightarrow> 'a daemon \<Rightarrow> bool" where
  "same_daemon d d' \<longleftrightarrow> next_id d \<le> next_id d' \<and> f_server_name d' = f_server_name d \<and>
     f_connection_address d' = f_connection_address d \<and> f_shutdown d' = f_shutdown d \<and> (\<exists>es. out d' = out d @ es)"

lemma same_daemon_trans: "same_daemon a b \<Longrightarrow> same_daemon b c \<Longrightarrow> same_daemon a c"
  unfolding same_daemon_def by fastforce

lemma same_daemon_keeps: "keeps_links d d' \<Longrightarrow> same_daemon d d'"
  by (simp add: keeps_links_def same_daemon_def)

lemma same_daemon_upd [simp]: "same_daemon d (upd_conn i f d)"
  by (simp add: same_daemon_def upd_conn_def)

lemma connect_accept_links:
  assumes "m_params msg ''my_address'' = Some s" and "string_to_addr L s ''255.255.255.255'' 4042 = Some x"
    and "i < next_id d"
  obtains r d' where "connect_accept L msg i d = Ret r d'" "accepts L d r" "same_daemon d d'"
    "linked d' i (f_base_server_name (obj d i)) x"
proof -
  let ?d1 = "upd_conn i (\<lambda>c. connection_started (now d) (set_connection_type Remote_type c)) d"
  obtain d2 where d2: "take_lists L msg i ?d1 = ok d2" "keeps_links ?d1 d2" by (rule take_lists_links)
  let ?d3 = "upd_conn i (set_connection_address x) d2"
  obtain d4 where d4: "add_neighbors L s (new_connection i ?d3) = ok d4"
    using add_neighbors_returns by blast
  then have k4: "keeps_links ?d3 d4"
    using keeps_links_trans [OF send_keeps_links(2) add_neighbors_keeps_links] by (metis res_state_ok)
  let ?d5 = "gossip_received x d4"
  have k5: "keeps_links ?d3 ?d5" using k4 gossip_received_keeps_links by (rule keeps_links_trans)
  have i: "i < next_id ?d1" "i < next_id ?d3"
    using assms(3) d2(2) by (simp_all add: upd_conn_def keeps_links_def)
  have same: "same_daemon d d2"
    using same_daemon_upd same_daemon_keeps [OF d2(2)] by (rule same_daemon_trans)
  have s5: "same_daemon d ?d5"
    using same_daemon_trans [OF same same_daemon_trans [OF same_daemon_upd same_daemon_keeps [OF k5]]] .
  have v: "f_type (obj d2 i) = Remote_type" "f_base_server_name (obj d2 i) = f_base_server_name (obj d i)"
    using keeps_links_view [OF d2(2) i(1)] by (simp_all add: link_view_def upd_conn_def connection_started_def)
  then have "linked ?d3 i (f_base_server_name (obj d i)) x" by (simp add: linked_def upd_conn_def)
  then have l: "linked ?d5 i (f_base_server_name (obj d i)) x" using k5 i(2) by (rule linked_keeps)
  obtain r where r: "connect_accept L msg i d = Ret r ?d5" "accepts L d2 r"
    using assms(1,2) d2(1) d4
    by (simp add: connect_accept_def Let_def get_parameter_def accepts_def with_neighbors_def has_parameter_def)
  show thesis
    by (rule that [OF r(1) _ s5 l]) (use r(2) same in \<open>simp add: accepts_def same_daemon_def\<close>)
qed


lemma connect_finish_links:
  obtains d' where "connect_finish L name i (r, False) d = ok d'" "keeps_links d d'"
    "\<exists>es. out d' = out d @ Sent i r # es"
proof -
  let ?d1 = "send_to i r d"
  let ?m = "new_remote_connection ?d1 name"
  let ?d2 = "send_to i (help_message ?d1) ?d1"
  have m: "\<not> has_parameter ?m ''broadcast_msgid''" by (simp add: new_remote_connection_def has_parameter_def)
  let ?d5 = "send_status i None (cluster_status L None (broadcast_new L ?m [] ?d2))"
  have k: "keeps_links ?d1 ?d5"
    using keeps_links_trans [OF send_keeps_links(1) keeps_links_trans [OF broadcast_new_keeps_links(1) [OF m]
      keeps_links_trans [OF cluster_status_keeps_links send_keeps_links(3)]]] .
  then obtain es where "out ?d5 = out ?d1 @ es" by (auto simp: keeps_links_def)
  then have o: "out ?d5 = out d @ Sent i r # es" by (simp add: send_to_eq)
  have "keeps_links d ?d5" using send_keeps_links(1) k by (rule keeps_links_trans)
  with o broadcast_new_keeps_links(2) [OF m, of L "[]" ?d2] show thesis
    by (intro that [of ?d5]) (auto simp: connect_finish_def Let_def)
qed

lemma msg_connect_links:
  assumes "m_user_data m = Some i" and "\<not> f_is_udp (obj d i)" and "f_username (obj d i) = []" and "check_version L m"
    and "m_params m ''server_name'' = Some name" and "m_params m ''my_address'' = Some s"
    and "string_to_addr L s ''255.255.255.255'' 4042 = Some x" and "i < next_id d"
    and "\<not> name_conflict d i name" and "\<not> f_shutdown d" and "length (connections d) < f_max_connections d"
  obtains r d' where "msg_connect L m d = ok d'" "accepts L d r" "linked d' i name x" "same_daemon d d'"
    "\<exists>es fs. out d' = out d @ es @ Sent i r # fs"
proof -
  let ?d1 = "upd_conn i (set_server_name name) d"
  have i: "i < next_id ?d1" using assms(8) by (simp add: upd_conn_def)
  obtain r d2 where a: "connect_accept L m i ?d1 = Ret r d2" "accepts L ?d1 r" "same_daemon ?d1 d2"
    "linked d2 i (f_base_server_name (obj ?d1 i)) x"
    by (rule connect_accept_links [OF assms(6,7) i])
  then have l: "linked d2 i name x" by (simp add: upd_conn_def)
  obtain d3 where f: "connect_finish L name i (r, False) d2 = ok d3" "keeps_links d2 d3" "\<exists>es. out d3 = out d2 @ Sent i r # es"
    by (rule connect_finish_links)
  have s: "same_daemon d d2" using same_daemon_trans [OF same_daemon_upd a(3)] .
  have "i < next_id d2" using i a(3) by (simp add: same_daemon_def)
  then have l3: "linked d3 i name x" using linked_keeps [OF l f(2)] by blast
  have o: "\<exists>es fs. out d3 = out d @ es @ Sent i r # fs" using s f(3) unfolding same_daemon_def by (metis append.assoc)
  have fields: "f_shutdown ?d1 = f_shutdown d" "f_max_connections ?d1 = f_max_connections d" "length (connections d) = length (connections ?d1)"
    by (simp_all add: upd_conn_def)
  have dec: "connect_decide L m name i d = Ret (r, False) d2"
    using a(1) assms(9-11) fields by (simp add: connect_decide_def Let_def)
  have "msg_connect L m d = ok d3"
    using assms(1-5) dec f(1) by (simp add: msg_connect_def tcp_handler_Some get_parameter_def)
  moreover have "accepts L d r" using a(2) by (simp add: accepts_def upd_conn_def)
  ultimately show thesis using l3 same_daemon_trans [OF s same_daemon_keeps [OF f(2)]] o by (intro that)
qed

lemma msg_accept_links:
  assumes "m_user_data m = Some i" and "\<not> f_is_udp (obj d i)"
    and "m_params m ''server_name'' = Some name" and "m_params m ''my_address'' = Some s"
    and "string_to_addr L s ''255.255.255.255'' 4042 = Some x" and "i < next_id d"
  obtains d' where "msg_accept L m d = ok d'" "linked d' i name x" "same_daemon d d'"
proof -
  let ?d2 = "upd_conn i (connection_started (now d)) (upd_conn i (\<lambda>c. c\<lparr>f_type := Remote_type, f_base_server_name := name\<rparr>) d)"
  let ?d3 = "upd_conn i (set_connection_address x) ?d2"
  obtain d4 where d4: "take_lists L m i ?d3 = ok d4" "keeps_links ?d3 d4" by (rule take_lists_links)
  let ?d5 = "new_connection i (send_to i (help_message d4) d4)"
  let ?m = "new_remote_connection d4 name"
  have n: "\<not> has_parameter ?m ''broadcast_msgid''" by (simp add: new_remote_connection_def has_parameter_def)
  let ?d6 = "broadcast_new L ?m [] ?d5"
  have k: "keeps_links ?d3 ?d6"
    using keeps_links_trans [OF d4(2) keeps_links_trans [OF send_keeps_links(1) keeps_links_trans [OF send_keeps_links(2)
      broadcast_new_keeps_links(1) [OF n]]]] .
  have i: "i < next_id ?d3" using assms(6) by (simp add: upd_conn_def)
  have "linked ?d3 i name x" by (simp add: linked_def upd_conn_def connection_started_def)
  then have l: "linked ?d6 i name x" using k i by (rule linked_keeps)
  have "same_daemon d ?d3" by (meson same_daemon_trans same_daemon_upd)
  then have s: "same_daemon d ?d6" using same_daemon_keeps [OF k] by (rule same_daemon_trans)
  have "msg_accept L m d = ok ?d6"
    using assms(1-5) d4(1) broadcast_new_keeps_links(2) [OF n, of L "[]" ?d5]
    by (simp add: msg_accept_def tcp_handler_Some has_parameter_def param_def Let_def upd_conn_def)
  then show thesis using l s by (rule that)
qed


lemma of_connection_fields [simp]:
  "m_params ((sent_from c m)\<lparr>m_user_data := u\<rparr>) = m_params m" "m_command (sent_from c m) = m_command m"
  "m_server (sent_from c m) = m_server m"
  by (simp_all add: sent_from_def)

text \<open>
  C7: When a connection to another daemon comes up, the CONNECT this daemon sends and the ACCEPT of the other
  one make it a link on both sides: each daemon records the name and the address of the other. The other
  daemon must not be shutting down or full, ask for credentials, or know another daemon of that name.
\<close>

theorem handshake:
  assumes "version_law L" and "address_law L (f_connection_address a)" and "address_law L (f_connection_address b)"
    and "c_kind (obj a i) = Remote_conn" and "\<not> f_is_udp (obj a i)" and "i < next_id a" and "\<not> f_shutdown a"
    and "c_kind (obj b j) = Service_conn" and "\<not> f_is_udp (obj b j)" and "j < next_id b" and "\<not> f_shutdown b"
    and "f_username (obj b j) = []" and "\<not> name_conflict b j (f_server_name a)"
    and "length (connections b) < f_max_connections b"
  shows "\<exists>m r. Sent i m \<in> set (new_log a (process_connected L i a)) \<and>
    Sent j r \<in> set (new_log b (receive L other j m b)) \<and>
    linked (receive L other j m b) j (f_server_name a) (f_connection_address a) \<and>
    linked (receive L other i r (process_connected L i a)) i (f_server_name b) (f_connection_address b)"
proof -
  let ?m = "connect_message L a"
  let ?a = "process_connected L i a"
  have a: "?a = send_status i None (send_to i ?m a)" using assms(4) by (simp add: process_connected_connects)
  then have ka: "keeps_links (send_to i ?m a) ?a" "keeps_links a ?a"
    using keeps_links_trans [OF send_keeps_links(1) send_keeps_links(3)] by (simp_all add: send_keeps_links)
  have m: "Sent i ?m \<in> set (new_log a ?a)" using ka(1) by (auto simp: keeps_links_def send_to_eq)
  note fields = connect_message_fields [OF assms(1), of a]
  let ?mj = "(sent_from (obj b j) ?m)\<lparr>m_user_data := Some j\<rparr>"
  have ver: "check_version L ?mj" using version_law_same [OF assms(1), of ?mj ?m] fields(1) by simp
  obtain r b' where b': "msg_connect L ?mj b = ok b'" "accepts L b r" "linked b' j (f_server_name a) (f_connection_address a)"
    "\<exists>es fs. out b' = out b @ es @ Sent j r # fs"
    by (rule msg_connect_links [where L = L and m = ?mj and i = j and d = b and name = "f_server_name a"
        and s = "ip_port_string L (f_connection_address a)" and x = "f_connection_address a"])
      (use assms ver fields in \<open>simp_all add: address_law_def\<close>)
  have rb: "receive L other j ?m b = b'"
    using assms(8,11) fields b'(1)
    by (simp add: receive_def service_process_message_def has_parameter_def dispatch_own handler_of_def)
  let ?ri = "r\<lparr>m_user_data := Some i\<rparr>"
  let ?a1 = "if f_own_server_name (obj ?a i) = [] then upd_conn i (\<lambda>c. c\<lparr>f_own_server_name := m_from_server r\<rparr>) ?a else ?a"
  have k1: "keeps_links a ?a1"
    using keeps_links_trans [OF ka(2) keeps_links_upd_conn] ka(2) by (simp add: link_view_def)
  then have v: "c_kind (obj ?a1 i) = Remote_conn" "\<not> f_is_udp (obj ?a1 i)" "i < next_id ?a1" "\<not> f_shutdown ?a1"
    using keeps_links_view [OF k1 assms(6)] assms(4-7) by (simp_all add: link_view_def keeps_links_def)
  obtain a2 where a2: "msg_accept L ?ri ?a1 = ok a2" "linked a2 i (f_server_name b) (f_connection_address b)"
    by (rule msg_accept_links [where L = L and m = ?ri and i = i and d = ?a1 and name = "f_server_name b"
        and s = "ip_port_string L (f_connection_address b)" and x = "f_connection_address b"])
      (use v b'(2) assms(3) in \<open>simp_all add: accepts_def address_law_def\<close>)
  have "c_kind (obj ?a i) = Remote_conn"
    using keeps_links_view [OF ka(2) assms(6)] assms(4) by (simp add: link_view_def)
  then have ra: "receive L other i r ?a = a2"
    using v(4) b'(2) a2(1)
    by (simp add: receive_def remote_process_message_def Let_def accepts_def has_parameter_def dispatch_own handler_of_def)
  have "Sent j r \<in> set (new_log b b')" using b'(4) by auto
  with m rb ra b'(3) a2(2) show ?thesis by (intro exI [of _ ?m] exI [of _ r]) simp
qed


definition sample_caller :: "int daemon" where
  "sample_caller = (sample_daemon [(sample_conn Remote_conn ''out'' 5 {})\<lparr>f_type := Down\<rparr>])\<lparr>f_connection_address := 20\<rparr>"

definition sample_callee :: "int daemon" where
  "sample_callee = (sample_daemon [(sample_conn Service_conn ''in'' 20 {})\<lparr>f_type := Down\<rparr>])
     \<lparr>f_server_name := ''beta'', f_connection_address := 5\<rparr>"

theorem handshake_witness:
  "\<exists>m r. linked (receive sample_lib no_other 0 m sample_callee) 0 ''alpha'' 20 \<and>
     linked (receive sample_lib no_other 0 r (process_connected sample_lib 0 sample_caller)) 0 ''beta'' 5"
proof -
  have laws: "version_law sample_lib" "address_law sample_lib a" for a
    using sample_lib_addresses by (simp_all add: version_law_def address_law_def sample_lib_def)
  note s = sample_caller_def sample_callee_def sample_daemon_def sample_conn_def blank_conn_def name_conflict_def
  have "\<exists>m r. Sent 0 m \<in> set (new_log sample_caller (process_connected sample_lib 0 sample_caller)) \<and>
    Sent 0 r \<in> set (new_log sample_callee (receive sample_lib no_other 0 m sample_callee)) \<and>
    linked (receive sample_lib no_other 0 m sample_callee) 0 (f_server_name sample_caller) (f_connection_address sample_caller) \<and>
    linked (receive sample_lib no_other 0 r (process_connected sample_lib 0 sample_caller)) 0 (f_server_name sample_callee) (f_connection_address sample_callee)"
    by (rule handshake [OF laws laws(2)]) (simp_all add: s)
  then show ?thesis by (auto simp: s)
qed

section \<open>A message for a service of another computer\<close>

lemma is_destination_same:
  assumes "m_service m' = m_service m" and "m_server m' = m_server m" and "f_server_name d' = f_server_name d"
    and "debug_severity d' = debug_severity d"
    and "\<And>i. c_kind (obj d' i) = c_kind (obj d i) \<and> f_type (obj d' i) = f_type (obj d i) \<and> c_name (obj d' i) = c_name (obj d i) \<and>
      f_base_server_name (obj d' i) = f_base_server_name (obj d i)"
  shows "is_destination d' m' = is_destination d m"
proof -
  have "server_name_missing d' = server_name_missing d"
    using assms(4,5) by (simp add: fun_eq_iff server_name_missing_def Let_def cong: if_cong)
  with assms show ?thesis
    by (simp add: fun_eq_iff is_destination_def forward_skips_def forward_server_name_def server_matches_def)
qed

text \<open>What a daemon that does not have the service sends to the one that has it.\<close>

lemma forward_to_daemon:
  assumes "servers_named a" and "\<not> has_parameter m ''broadcast_msgid''" and "tokens L {} [] '','' True [] = {}"
    and "\<not> is_broadcast_service (m_service m)" and "m_server m \<notin> {[], ''.'', ''*'', ''?'', f_server_name a}"
    and "find (is_destination a m) (connections a) = None" and "filter (may_know a m) (connections a) = [i]"
    and "c_kind (obj a i) \<in> {Service_conn, Remote_conn}"
  obtains informed where "new_log a (res_state (forward_message L m a)) =
    [Sent i (broadcast_copy L m \<lparr>i_msgid = [], i_informed = [], i_hops = 0, i_timeout = 0\<rparr>
      (f_server_name a @ ''-'' @ dec_string (g_broadcast_sequence a + 1)) informed
      (a\<lparr>g_broadcast_sequence := g_broadcast_sequence a + 1\<rparr>))]"
proof -
  let ?info = "\<lparr>i_msgid = [], i_informed = [], i_hops = 0, i_timeout = 0\<rparr>"
  have s: "forward_server_name a m = m_server m" using assms(5) by (simp add: forward_server_name_def)
  have "forward_scan (forward_server_name a m) m (connections a) [] a = Ret (Some [i]) a"
    using forward_scan_spec [of "connections a" a m "[]"] assms(1,6,7) by (simp add: servers_named_missing)
  then have f: "res_state (forward_message L m a) = res_state (broadcast_message L m [i] a)"
    using assms(4,5) s by (simp add: forward_message_def forward_elsewhere_def seq_Ret_state)
  have p: "broadcast_prologue L m a = Ret (Some ?info) a" using assms(2) by (simp add: broadcast_prologue_def)
  have c: "broadcast_choose L m ?info [i] a = (({conn_ip L a i}, [i]), a)"
    using assms(3,8) by (auto simp: broadcast_choose_def Let_def note_recipient_def)
  show thesis
    by (rule that [of "{conn_ip L a i}"])
      (simp add: f broadcast_message_prologue [OF p] c broadcast_send_def foldl_send send_message_def emit_def Let_def)
qed

text \<open>
  C3: A message for a service of another computer arrives there: the daemon sends one copy, over the link to
  the daemon of that computer, which delivers it to the service and sends nothing else. The command and the
  parameters are those of the message, apart from those of the broadcast.
\<close>

theorem message_crosses:
  assumes "integer_roundtrip L" and "tokens L {} [] '','' True [] = {}"
    and "servers_named a" and "servers_named b" and "\<not> f_shutdown b" and "\<not> has_parameter m ''broadcast_msgid''"
    and "\<not> is_broadcast_service (m_service m)" and "m_service m \<notin> {[], ''communicatord''}"
    and "m_server m = f_server_name b" and "f_server_name b \<notin> {[], ''.'', ''*'', ''?'', f_server_name a}"
    and "find (is_destination a m) (connections a) = None" and "filter (may_know a m) (connections a) = [i]"
    and "c_kind (obj a i) \<in> {Service_conn, Remote_conn}"
    and "c_kind (obj b j) = Remote_conn \<or> c_kind (obj b j) = Service_conn \<and> \<not> f_named (obj b j)"
    and "map_find (f_received_broadcast_messages b) (f_server_name a @ ''-'' @ dec_string (g_broadcast_sequence a + 1)) = None"
    and "0 \<le> now a" and "now b \<le> now a + 10"
    and "find (is_destination b m) (connections b) = Some k" and "k \<noteq> j"
    and "understand_command (obj b k) (m_command m)"
  shows "\<exists>c. new_log a (res_state (forward_message L m a)) = [Sent i c] \<and>
    new_log b (receive L other j c b) = [Sent k (c\<lparr>m_user_data := Some j\<rparr>)] \<and>
    m_command c = m_command m \<and> m_service c = m_service m \<and>
    (\<forall>p. p \<notin> {''broadcast_informed_neighbors'', ''broadcast_timeout'', ''broadcast_originator'', ''broadcast_hops'',
        ''secure_remote'', ''broadcast_msgid''} \<longrightarrow> m_params c p = m_params m p)"
proof -
  let ?info = "\<lparr>i_msgid = [], i_informed = [], i_hops = 0, i_timeout = 0\<rparr>"
  let ?id = "f_server_name a @ ''-'' @ dec_string (g_broadcast_sequence a + 1)"
  obtain informed where a: "new_log a (res_state (forward_message L m a)) =
      [Sent i (broadcast_copy L m ?info ?id informed (a\<lparr>g_broadcast_sequence := g_broadcast_sequence a + 1\<rparr>))]"
    by (rule forward_to_daemon [OF assms(3,6,2,7) _ assms(11-13)]) (use assms(9,10) in auto)
  let ?c = "broadcast_copy L m ?info ?id informed (a\<lparr>g_broadcast_sequence := g_broadcast_sequence a + 1\<rparr>)"
  let ?cj = "?c\<lparr>m_user_data := Some j\<rparr>"
  have r: "routed L (now a + 10) ?cj" "param ?cj ''broadcast_msgid'' = ?id"
    using assms(1,8,16)
    by (simp_all add: routed_def has_parameter_def param_def get_integer_def broadcast_copy_fields integer_roundtrip_def)
  have deliver: "dispatch_message L other ?cj d = Ret False (send_message k ?cj d)"
    if "\<And>i. obj d i = obj b i \<or> (\<exists>n. obj d i = (obj b i)\<lparr>f_own_server_name := n\<rparr>)" "d = b\<lparr>obj := obj d\<rparr>" for d
  proof (rule dispatch_delivers [OF r(1)])
    have o: "c_kind (obj d i) = c_kind (obj b i) \<and> f_type (obj d i) = f_type (obj b i) \<and> c_name (obj d i) = c_name (obj b i) \<and>
      f_base_server_name (obj d i) = f_base_server_name (obj b i) \<and> f_understood_commands (obj d i) = f_understood_commands (obj b i)" for i
      using that(1) [of i] by auto
    have fd: "connections d = connections b" "f_shutdown d = f_shutdown b" "now d = now b" "f_server_name d = f_server_name b"
      "f_received_broadcast_messages d = f_received_broadcast_messages b" "debug_severity d = debug_severity b"
      by (subst that(2), simp)+
    show "fresh_for (param ?cj ''broadcast_msgid'') (now a + 10) d" "\<not> f_shutdown d"
      using assms(5,15,17) fd r(2) by (simp_all add: fresh_for_def)
    show "servers_named d" using assms(4) o fd by (simp add: servers_named_def)
    show "find (is_destination d ?cj) (connections d) = Some k"
      using is_destination_same [of ?cj m d b] o fd assms(18) by (simp add: broadcast_copy_fields)
    show "verify_command d k ?cj" using assms(20) o by (simp add: verify_command_def understand_command_def broadcast_copy_fields)
  qed (use assms(7,19) in \<open>simp_all add: broadcast_copy_fields\<close>)
  have "new_log b (receive L other j ?c b) = [Sent k ?cj]"
  proof (cases "c_kind (obj b j)")
    case Service_conn
    with assms(14) have "receive L other j ?c b = res_state (dispatch_message L other ?cj b)"
      by (simp add: receive_def service_process_message_def sent_from_def)
    with deliver [of b] show ?thesis by (simp add: send_message_def emit_def)
  next
    case Remote_conn
    let ?b = "if f_own_server_name (obj b j) = [] then upd_conn j (\<lambda>c. c\<lparr>f_own_server_name := m_from_server ?c\<rparr>) b else b"
    have "receive L other j ?c b = res_state (dispatch_message L other ?cj ?b)"
      using Remote_conn by (simp add: receive_def remote_process_message_def Let_def)
    moreover have "dispatch_message L other ?cj ?b = Ret False (send_message k ?cj ?b)"
      by (rule deliver) (auto simp: upd_conn_def)
    ultimately show ?thesis by (simp add: send_message_def emit_def upd_conn_def)
  qed (use assms(14) in auto)
  with a show ?thesis
    by (intro exI [of _ ?c]) (simp add: broadcast_copy_fields, simp add: broadcast_copy_def Let_def)
qed


definition sample_front :: "int daemon" where
  "sample_front = sample_daemon [(sample_conn Remote_conn ''out'' 20 {})\<lparr>f_base_server_name := ''beta'', f_type := Remote_type\<rparr>]"

definition sample_back :: "int daemon" where
  "sample_back = (sample_daemon [(sample_conn Service_conn ''in'' 10 {})\<lparr>f_base_server_name := ''alpha'', f_type := Remote_type\<rparr>,
     (sample_conn Unix_conn ''cron'' 0 {''RUN''})\<lparr>f_base_server_name := ''beta''\<rparr>])\<lparr>f_server_name := ''beta''\<rparr>"

theorem message_crosses_witness:
  "\<exists>c. new_log sample_back (receive sample_lib no_other 0 c sample_back) = [Sent 1 (c\<lparr>m_user_data := Some 0\<rparr>)] \<and> m_command c = ''RUN''"
proof -
  let ?m = "new_message\<lparr>m_command := ''RUN'', m_service := ''cron'', m_server := ''beta''\<rparr>"
  have f: "find (is_destination sample_front ?m) (connections sample_front) = None"
    "filter (may_know sample_front ?m) (connections sample_front) = [0]"
    "find (is_destination sample_back ?m) (connections sample_back) = Some 1"
    "tokens sample_lib {} [] '','' True [] = {}"
    by code_simp+
  have "\<exists>c. new_log sample_front (res_state (forward_message sample_lib ?m sample_front)) = [Sent 0 c] \<and>
    new_log sample_back (receive sample_lib no_other 0 c sample_back) = [Sent 1 (c\<lparr>m_user_data := Some 0\<rparr>)] \<and>
    m_command c = m_command ?m \<and> m_service c = m_service ?m \<and>
    (\<forall>p. p \<notin> {''broadcast_informed_neighbors'', ''broadcast_timeout'', ''broadcast_originator'', ''broadcast_hops'',
        ''secure_remote'', ''broadcast_msgid''} \<longrightarrow> m_params c p = m_params ?m p)"
    by (rule message_crosses [OF sample_lib_integers f(4) _ _ _ _ _ _ _ _ f(1,2) _ _ _ _ _ f(3)])
      (auto simp: servers_named_def sample_front_def sample_back_def sample_daemon_def sample_conn_def blank_conn_def
        new_message_def has_parameter_def is_broadcast_service_def understand_command_def)
  then show ?thesis by auto
qed

end
