(* ===== verification/Daemon_Property.thy ===== *)
theory Daemon_Property
  imports System
begin

text \<open>
  An interface for properties of the daemon's state that are not part of its invariant.  \<open>prop_view\<close> is what such a
  property may look at; what it promises is that the few primitive operations on these fields keep it.
  Every handler, every callback and every operation of the start then keeps it too.
\<close>

definition prop_view where
  "prop_view d = (connections d, next_id d, obj d, f_connection_address d, f_all_ips d, f_smaller_ips d)"

named_theorems kept_intros \<open>operations that keep a property of the daemon\<close>

lemma conn_frame [simp]:
  "f_wants_loadavg (connection_started t c) = f_wants_loadavg c" "f_wants_loadavg (connection_ended t c) = f_wants_loadavg c"
  "f_wants_loadavg (set_services L s c) = f_wants_loadavg c" "f_wants_loadavg (set_services_heard_of L s c) = f_wants_loadavg c"
  "f_wants_loadavg (add_commands L s c) = f_wants_loadavg c" "f_wants_loadavg (count_failure t c) = f_wants_loadavg c"
  by (simp_all add: connection_started_def connection_ended_def set_services_def set_services_heard_of_def add_commands_def count_failure_def)

text \<open>The handlers of the library keep a property.\<close>

definition keeps :: "('a daemon \<Rightarrow> bool) \<Rightarrow> 'a dispatcher \<Rightarrow> bool" where
  "keeps P other \<longleftrightarrow> (\<forall>msg d. P d \<longrightarrow> P (res_state (other msg d)))"

locale daemon_property =
  fixes P :: "'a::linorder daemon \<Rightarrow> bool"
    and L :: "('a, 'z) lib_scheme"
  assumes kept_view: "P d \<Longrightarrow> prop_view d' = prop_view d \<Longrightarrow> P d'"
    and kept_upd: "P d \<Longrightarrow> (\<And>c. f_wants_loadavg (f c) = f_wants_loadavg c) \<Longrightarrow> P (upd_conn i f d)"
    and kept_unlist: "P d \<Longrightarrow> P (unlist_connection i d)"
    and kept_new_object: "P d \<Longrightarrow> \<not> f_wants_loadavg c \<Longrightarrow> P (snd (new_object c d))"
    and kept_new_listed: "P d \<Longrightarrow> \<not> f_wants_loadavg c \<Longrightarrow> P (snd (add_connection (next_id d) (snd (new_object c d))))"
    and kept_add_remote: "P d \<Longrightarrow> P (add_remote_communicator L a d)"
    and kept_forget: "P d \<Longrightarrow> P (forget_remote_connection a d)"
begin

lemmas kept_primitives [kept_intros] =
  kept_upd kept_unlist kept_new_object kept_new_listed kept_add_remote kept_forget

lemma kept_only_sends:
  assumes "P d" and "only_sends d d'" shows "P d'"
proof (rule kept_view [OF assms(1)])
  show "prop_view d' = prop_view d"
    by (simp add: prop_view_def only_sends_field [OF assms(2), of obj] only_sends_field [OF assms(2), of connections]
        only_sends_field [OF assms(2), of next_id] only_sends_field [OF assms(2), of f_connection_address]
        only_sends_field [OF assms(2), of f_all_ips] only_sends_field [OF assms(2), of f_smaller_ips])
qed

lemma kept_fields [kept_intros]:
  assumes "P d"
  shows "P (d\<lparr>f_received_broadcast_messages := m\<rparr>)" "P (d\<lparr>f_local_message_cache := c\<rparr>)"
    "P (d\<lparr>g_blocked_ips := b\<rparr>)" "P (d\<lparr>f_all_neighbors := n\<rparr>)"
    "P (d\<lparr>f_neighbors_cache_filename := s\<rparr>)" "P (d\<lparr>f_gossip_ips := g\<rparr>)"
    "P (d\<lparr>f_shutdown := x\<rparr>)"
    "P (d\<lparr>f_local_listener := i\<rparr>)" "P (d\<lparr>f_remote_listener := i\<rparr>)"
    "P (d\<lparr>f_secure_listener := i\<rparr>)" "P (d\<lparr>f_ping := i\<rparr>)" "P (d\<lparr>now := t\<rparr>)"
    "P (d\<lparr>f_explicit_neighbors := s\<rparr>)" "P (d\<lparr>p_loadavg := x\<rparr>)"
    "P (d\<lparr>f_services_heard_of_list := S, f_services_heard_of := s\<rparr>)"
    "P (d\<lparr>out := es\<rparr>)" "P (d\<lparr>g_broadcast_sequence := q\<rparr>)"
  using assms by (auto intro: kept_view simp: prop_view_def)

lemma kept_sends [kept_intros]:
  assumes "P d"
  shows "P (emit e d)" "P (send_message i m d)"
    "P (send_message_to_connection i m b d)" "P (send_status i r d)"
    "P (new_connection i d)" "P (transmission_report msg b d)" "P (forward_deliver msg i d)"
  using assms
  by (auto intro: kept_only_sends send_status_only_sends new_connection_only_sends transmission_report_only_sends
      forward_deliver_only_sends)


lemma blank_wants [simp]: "\<not> f_wants_loadavg (blank_conn L k)"
  by (simp add: blank_conn_def)

lemma kept_connection_lost [kept_intros]: "P d \<Longrightarrow> P (connection_lost L a d)"
proof (cases "map_find (f_gossip_ips d) a")
  case None
  assume d: "P d"
  let ?d = "snd (new_object (gossip_connection_object L a) d)"
  have "P ?d" "P (snd (add_connection (next_id d) ?d))"
    using d by (simp_all add: kept_new_object kept_new_listed gossip_connection_object_def blank_conn_def)
  moreover have "prop_view (connection_lost L a d) = prop_view ?d \<or>
      prop_view (connection_lost L a d) = prop_view (snd (add_connection (next_id d) ?d))"
    using None by (simp add: connection_lost_def add_connection_def new_object_def prop_view_def Let_def)
  ultimately show ?thesis using kept_view by metis
qed (simp add: connection_lost_def)

lemma kept_remove_connection [kept_intros]: "P d \<Longrightarrow> P (remove_connection L i d)"
  by (simp add: remove_connection_def connection_removed_def kept_intros)

lemma kept_remotes [kept_intros]:
  assumes "P d"
  shows "P (gossip_received a d)" "P (too_busy a d)" "P (remote_shutting_down a d)"
  using assms by (simp_all add: gossip_received_def too_busy_def remote_shutting_down_def kept_intros split: option.split)

lemma kept_stop_gossiping [kept_intros]: "P d \<Longrightarrow> P (stop_gossiping d)"
proof (induction d rule: stop_gossiping.induct)
  case (1 d)
  then show ?case
    by (cases "f_gossip_ips d") (auto simp: stop_gossiping.simps [of d] kept_intros split: prod.split)
qed

lemma kept_add_remote_string [kept_intros]:
  "P d \<Longrightarrow> P (res_state (add_remote_communicator_string L s d))"
  by (simp add: add_remote_communicator_string_def kept_intros split: option.split)

lemma kept_read_addresses: "P d \<Longrightarrow> P (read_addresses L rs d)"
  by (induction rs arbitrary: d) (simp_all add: kept_intros split: option.split)

lemma kept_add_addresses: "P d \<Longrightarrow> P (snd (add_addresses L rs (b, d)))"
  by (induction rs arbitrary: b d) (simp_all add: kept_intros split: option.split)

lemma kept_save_neighbors [kept_intros]: "P d \<Longrightarrow> P (res_state (save_neighbors d))"
  by (simp add: save_neighbors_def kept_intros)

lemma kept_add_neighbors [kept_intros]: "P d \<Longrightarrow> P (res_state (add_neighbors L s d))"
proof -
  assume d: "P d"
  then have "P (read_neighbors L d)"
    by (simp add: read_neighbors_def Let_def kept_intros kept_read_addresses split: option.split)
  then have "P (snd (add_addresses L (parse_required_port L (trim_string L s)) (False, read_neighbors L d)))"
    by (rule kept_add_addresses)
  with d show ?thesis
    by (cases "add_addresses L (parse_required_port L (trim_string L s)) (False, read_neighbors L d)")
      (simp add: add_neighbors_def Let_def kept_intros)
qed

lemma kept_remove_neighbor [kept_intros]: "P d \<Longrightarrow> P (res_state (remove_neighbor L s d))"
  by (auto simp: remove_neighbor_def kept_intros split: option.split intro!: seq_inv [where P = P])

lemma kept_prologue: "P d \<Longrightarrow> P (res_state (broadcast_prologue L msg d))"
  by (cases "get_integer L msg ''broadcast_timeout''"; cases "get_parameter msg ''broadcast_informed_neighbors''";
      cases "get_integer L msg ''broadcast_hops''")
    (simp_all add: broadcast_prologue_def Let_def kept_intros)

lemma kept_broadcast [kept_intros]:
  assumes "P d" shows "P (res_state (broadcast_message L msg acc d))"
  unfolding broadcast_message_def
proof (rule bind_res_inv [where P = "P", OF kept_prologue [OF assms]])
  fix r and s :: "'a daemon"
  assume s: "P s"
  show "P (res_state (case r of None \<Rightarrow> ok s
      | Some info \<Rightarrow> let (st, d) = broadcast_choose L msg info acc s in ok (broadcast_send L msg info st d)))"
  proof (cases r)
    case (Some info)
    obtain st d1 where c: "broadcast_choose L msg info acc s = (st, d1)" by fastforce
    have "P d1" using s broadcast_choose_frame [OF c] by (rule kept_only_sends)
    moreover obtain es q where "broadcast_send L msg info st d1 = d1\<lparr>out := out d1 @ es, g_broadcast_sequence := q\<rparr>"
      using broadcast_send_frame by blast
    ultimately show ?thesis using Some c by (auto intro: kept_view simp: prop_view_def)
  qed (simp add: s)
qed

lemma kept_broadcast_new [kept_intros]: "P d \<Longrightarrow> P (broadcast_new L msg acc d)"
  by (simp add: broadcast_new_def kept_intros)

lemma kept_cluster_status [kept_intros]: "P d \<Longrightarrow> P (cluster_status L r d)"
proof (cases r)
  case None
  assume d: "P d"
  obtain es q where "cluster_status L None d =
    d\<lparr>f_cluster_status := cluster_up_down (count_live_connections d + 1) (total_count_of d),
      f_cluster_complete := cluster_complete_incomplete (count_live_connections d + 1) (total_count_of d),
      f_total_count_sent := total_count_of d, out := out d @ es, g_broadcast_sequence := q\<rparr>"
    by (rule cluster_status_None_form)
  with d None show ?thesis by (auto intro: kept_view simp: prop_view_def)
next
  case (Some i)
  assume "P d"
  then show ?thesis unfolding Some using cluster_status_reply_only_sends by (rule kept_only_sends)
qed

lemma kept_heard_of [kept_intros]: "P d \<Longrightarrow> P (refresh_heard_of L d)"
  by (simp add: refresh_heard_of_empty kept_intros)


lemma kept_tcp_handler:
  assumes "P d" and "\<And>i. P (res_state (f i d))"
  shows "P (res_state (tcp_handler msg d f))" "P (res_state (conn_handler msg d f))"
  using assms by (auto simp: tcp_handler_def conn_handler_def is_tcp_connection_def split: option.split)

lemma kept_take_lists [kept_intros]: "P d \<Longrightarrow> P (res_state (take_lists L msg i d))"
  by (auto simp: take_lists_def Let_def kept_intros intro!: seq_inv [where P = P] kept_upd)

lemma kept_block_ip [kept_intros]: "P d \<Longrightarrow> P (block_ip L i d)"
  by (simp add: block_ip_def Let_def kept_intros split: option.split)

lemma kept_connect_accept [kept_intros]: "P d \<Longrightarrow> P (res_state (connect_accept L msg i d))"
  unfolding connect_accept_def Let_def of_sum_def
  by (auto split: option.split sum.split intro!: seq_inv [where P = P] bind_res_inv [where P = P]
      kept_intros)

lemma kept_connect_decide [kept_intros]: "P d \<Longrightarrow> P (res_state (connect_decide L msg name i d))"
  unfolding connect_decide_def Let_def
  by (auto intro!: bind_res_inv [where P = P] kept_intros)

lemma kept_connect_finish [kept_intros]: "P d \<Longrightarrow> P (res_state (connect_finish L name i rr d))"
  unfolding connect_finish_def Let_def
  by (auto simp: case_prod_beta intro!: seq_inv [where P = P] kept_intros)

lemma kept_deliver_cached [kept_intros]: "P d \<Longrightarrow> P (deliver_cached i s d)"
  by (erule kept_view) (simp add: deliver_cached_eq prop_view_def)

lemma kept_stop_connection: "P d \<Longrightarrow> P (stop_connection L q d i)"
  by (auto simp: stop_connection_def stop_service_def mark_done_def split: connection_type.split intro!: kept_intros)

lemma kept_stop [kept_intros]: "P d \<Longrightarrow> P (stop L q d)"
proof -
  assume d: "P d"
  have r: "P (remove_optional L c d)" if "P d" for c d
    using that by (simp add: remove_optional_def kept_intros split: option.split)
  have "P (foldl (stop_connection L q) d is)" if "P d" for d "is"
    by (rule foldl_inv [where P = P]) (simp_all add: that kept_stop_connection)
  with d show ?thesis by (simp add: stop_def stop_listeners_def Let_def kept_intros r)
qed

lemma kept_handlers:
  assumes "P d" and "handler_of L cmd = Some h"
  shows "P (res_state (h msg d))"
proof -
  note Q = seq_inv [where P = P] bind_res_inv [where P = P]
  have "P (res_state (msg_connect L msg d))"
    unfolding msg_connect_def using assms(1) by (intro kept_tcp_handler) (auto intro!: Q kept_intros)
  moreover have "P (res_state (msg_accept L msg d))"
    unfolding msg_accept_def using assms(1)
    by (intro kept_tcp_handler) (auto simp: Let_def split: option.split intro!: Q kept_intros)
  moreover have "P (res_state (msg_commands L msg d))" "P (res_state (msg_cluster_status L msg d))"
    "P (res_state (msg_refuse msg d))" "P (res_state (msg_public_ip msg d))"
    "P (res_state (msg_list_services msg d))"
    "P (res_state (msg_register L msg d))" "P (res_state (msg_unregister L msg d))"
    unfolding msg_commands_def msg_cluster_status_def msg_refuse_def msg_public_ip_def msg_list_services_def msg_register_def msg_unregister_def
      disconnect_def
    using assms(1) by (auto simp: Let_def intro!: kept_tcp_handler kept_intros)
  moreover have "P (res_state (msg_disconnect L msg d))" "P (res_state (msg_gossip L msg d))"
    unfolding msg_disconnect_def msg_gossip_def disconnect_def
    using assms(1) by (auto simp: Let_def intro!: kept_tcp_handler Q kept_intros)
  moreover have "P (res_state (msg_forget L msg d))"
    using assms(1) by (auto simp: msg_forget_def intro!: Q kept_intros)
  moreover have "P (res_state (msg_service_status L msg d))"
    using assms(1) by (auto simp: msg_service_status_def Let_def case_prod_beta split: option.split intro!: kept_tcp_handler kept_intros)
  moreover have "P (res_state (msg_shutdown L msg d))"
    using assms(1) by (simp add: msg_shutdown_def kept_intros)
  ultimately show ?thesis using assms(2) unfolding handler_of_def by (auto split: if_splits)
qed



lemma kept_forward [kept_intros]: "P d \<Longrightarrow> P (res_state (forward_message L msg d))"
proof -
  note Q = seq_inv [where P = P] bind_res_inv [where P = P]
  have s: "P (res_state (service_unavailable msg d))" if "P d" for d :: "'a daemon"
    using that by (auto simp: service_unavailable_def Let_def split: option.split intro!: kept_intros)
  have c: "P (res_state (forward_cache L msg d))" if "P d" for d :: "'a daemon"
    using that s by (auto simp: forward_cache_def Let_def case_prod_beta intro!: Q kept_intros)
  have e: "P (res_state (forward_elsewhere L msg acc d))" if "P d" for d :: "'a daemon" and acc
    using that unfolding forward_elsewhere_def Let_def by (auto intro!: c Q kept_intros)
  have f: "P (res_state (forward_scan s msg is acc d))" if "P d" for s "is" acc and d :: "'a daemon"
    using that by (induction s msg "is" acc d rule: forward_scan.induct) (auto simp: Let_def kept_intros split: sum.split bool.split)
  assume "P d"
  then show ?thesis
    unfolding forward_message_def forward_broadcast_def Let_def by (auto split: option.split intro!: e f Q kept_intros)
qed

lemma kept_dispatch:
  assumes "P d" and "keeps P other" shows "P (res_state (dispatch_message L other msg d))"
  unfolding dispatch_message_def
proof (rule bind_res_inv [where P = P])
  fix known and d :: "'a daemon" assume d: "P d"
  have s: "P (res_state (shutting_down L msg d))"
    using d by (auto simp: shutting_down_def Let_def split: option.split intro!: kept_intros)
  have o: "P (res_state (other msg d))" if "P d" for d
    using that assms(2) by (simp add: keeps_def)
  show "P (res_state (if known then Ret True d
      else bind_res (shutting_down L msg d) (\<lambda>down d.
         if down then Ret True d else if communicator_message msg d then communicator_dispatch L other msg d else forward_message L msg d)))"
    using d by (auto simp: communicator_dispatch_def s o kept_handlers split: option.split
        intro!: bind_res_inv [where P = P] seq_inv [where P = P] kept_intros)
qed (simp add: assms(1))

lemma kept_process_connected [kept_intros]: "P d \<Longrightarrow> P (process_connected L i d)"
  by (simp add: process_connected_def Let_def kept_intros)

lemma kept_link [kept_intros]: "P d \<Longrightarrow> P (lib_link c s e i d)"
  by (simp add: lib_link_def kept_intros)

lemma kept_conn_send_status [kept_intros]: "P d \<Longrightarrow> P (conn_send_status i d)"
  by (simp add: conn_send_status_def kept_intros)

lemma kept_lost [kept_intros]: "P d \<Longrightarrow> P (lib_lost L i d)"
  by (simp add: lib_lost_def kept_intros)

lemma step_kept:
  assumes "daemon_step L other d d'" and "P d" and "keeps P other" shows "P d'"
  using assms(1)
proof cases
  case (accept l client)
  with assms(2) show ?thesis
    by (auto simp: listener_process_accept_def service_connection_object_def mark_as_remote_def Let_def blank_conn_def
        split: option.split intro!: kept_new_listed kept_new_object)
next
  case (unix_accept name fd)
  with assms(2) show ?thesis by (auto simp: unix_listener_process_accept_def unix_connection_object_def blank_conn_def split: option.split intro!: kept_new_listed)
next
  case (tick t)
  with assms(2) show ?thesis by (simp add: kept_intros)
qed (use assms(2,3) in \<open>auto simp: unix_callbacks service_process_message_def unix_process_message_def remote_process_message_def
    ping_process_message_def gossip_process_message_def conn_process_timeout_def conn_process_error_def
    conn_process_invalid_def conn_process_hup_def remote_process_connection_failed_def remote_process_connected_def
    gossip_process_timeout_def gossip_process_connection_failed_def server_unreachable_def gossip_process_connected_def
    interrupt_process_signal_def Let_def intro!: kept_dispatch kept_intros\<close>)

lemma action_kept:
  assumes "daemon_action L other d d'" and "P d" and "keeps P other" shows "P d'"
  using assms by (cases rule: daemon_action.cases) (auto intro: kept_intros step_kept)

end

end
