(* ===== verification/Forget.thy ===== *)
theory Forget
  imports Daemon_Property
begin

text \<open>
  What FORGET does in the long run.  The address that is forgotten stays in \<open>f_all_ips\<close>, which is only ever
  extended, and \<open>add_remote_communicator\<close> opens a connection only to an address that is not there.  So a
  daemon that was forgotten gets no permanent connection again from the running daemon
  (\<open>forgotten_not_reconnected\<close>), whoever names it later: the configuration, a list of neighbors, or the daemon
  itself with a GOSSIP message. Only a restart, with an empty \<open>f_all_ips\<close>, connects to it again.
\<close>

text \<open>The address was connected to, and no object is kept for it any more.\<close>

definition forgotten :: "'a::linorder \<Rightarrow> 'a daemon \<Rightarrow> bool" where
  "forgotten a d \<longleftrightarrow> map_ok (f_smaller_ips d) \<and> a \<in> f_all_ips d \<and> map_find (f_smaller_ips d) a = None"

lemma forgotten_view:
  assumes "forgotten a d" and "f_all_ips d' = f_all_ips d" and "f_smaller_ips d' = f_smaller_ips d"
  shows "forgotten a d'"
  using assms by (simp add: forgotten_def)

lemma forgotten_connection_lost: "forgotten a d \<Longrightarrow> forgotten a (connection_lost L b d)"
  by (erule forgotten_view) (simp_all add: connection_lost_def new_object_def add_connection_def Let_def)

lemma forgotten_add_remote:
  assumes "forgotten a d" shows "forgotten a (add_remote_communicator L b d)"
proof (cases "b \<in> f_all_ips d \<or> b = f_connection_address d")
  case True
  then show ?thesis
    by (intro forgotten_view [OF assms]) (auto simp: add_remote_communicator_def upd_conn_def split: option.split)
next
  case False
  with assms have ab: "a \<noteq> b" by (auto simp: forgotten_def)
  show ?thesis
  proof (cases "b < f_connection_address d")
    case True
    with False ab assms show ?thesis
      by (auto simp: add_remote_communicator_def new_object_def add_connection_def forgotten_def upd_conn_def Let_def
          map_find_insert map_find_erase map_ok_insert map_ok_erase)
  next
    case False': False
    have "forgotten a (d\<lparr>f_all_ips := insert b (f_all_ips d)\<rparr>)" using assms by (simp add: forgotten_def)
    then show ?thesis using False False' by (simp add: add_remote_communicator_def forgotten_connection_lost Let_def)
  qed
qed

lemma smaller_forget:
  "f_all_ips (forget_remote_connection b d) = f_all_ips d"
  "map_ok (f_smaller_ips d) \<Longrightarrow> map_ok (f_smaller_ips (forget_remote_connection b d)) \<and>
     map_find (f_smaller_ips (forget_remote_connection b d)) = (map_find (f_smaller_ips d))(b := None)"
  by (auto simp: forget_remote_connection_def unlist_connection_def Let_def map_ok_erase map_find_erase fun_eq_iff
      split: option.split)

interpretation fg: daemon_property "forgotten a" L for a L
proof unfold_locales
  show "forgotten a (add_remote_communicator L b d)" if "forgotten a d" for b d
    using that by (rule forgotten_add_remote)
qed (auto simp: smaller_forget forgotten_def prop_view_def upd_conn_def unlist_connection_def new_object_def add_connection_def)

text \<open>Removing a neighbor that is connected to forgets it.\<close>

lemma remove_neighbor_forgets:
  assumes "neighbors_inv d" and "map_ok (f_smaller_ips d)" and "a \<in> f_all_ips d"
    and "string_to_addr L s ''255.255.255.255'' 4042 = Some a"
  shows "forgotten a (res_state (remove_neighbor L s d))"
proof -
  have f: "forgotten a (forget_remote_connection a e)" if "f_all_ips e = f_all_ips d" "f_smaller_ips e = f_smaller_ips d" for e
    using that assms(2,3) smaller_forget [where d = e and b = a] by (simp add: forgotten_def)
  show ?thesis
  proof (cases "a |\<in>| f_all_neighbors d")
    case True
    let ?d = "d\<lparr>f_all_neighbors := f_all_neighbors d |-| {|a|}\<rparr>"
    have "f_neighbors_cache_filename ?d \<noteq> []" using True assms(1) by (auto simp: neighbors_inv_def)
    then obtain es where "save_neighbors ?d = ok (?d\<lparr>out := out ?d @ es\<rparr>)" by (rule save_neighbors_set)
    with True assms(4) show ?thesis by (simp add: remove_neighbor_def f)
  qed (use assms(4) in \<open>simp add: remove_neighbor_def f\<close>)
qed

text \<open>
  C21: A daemon that is forgotten is not reconnected while the daemon runs. After \<open>remove_neighbor\<close> (a FORGET
  message) for a daemon this one had a permanent outgoing connection to, no sequence of messages, time outs and
  other callbacks, nor of lists of neighbors (those of the configuration included), gives it such a connection
  (a \<open>remote_connection\<close>, in the event loop) to that address again. This is about permanent connections of the running daemon: a
  \<open>gossip_connection\<close> to the address, and what it does after a restart, are not excluded.
\<close>

theorem forgotten_not_reconnected:
  assumes "reachable L other d" and "keeps_inv other" and "keeps (forgotten a) other"
    and "i \<in> set (connections d)" and "c_kind (obj d i) = Remote_conn" and "f_address (obj d i) = a"
    and "string_to_addr L s ''255.255.255.255'' 4042 = Some a"
    and "(daemon_action L other)\<^sup>*\<^sup>* (res_state (remove_neighbor L s d)) d'"
  shows "\<forall>j \<in> set (connections d'). c_kind (obj d' j) = Remote_conn \<longrightarrow> f_address (obj d' j) \<noteq> a"
proof -
  have inv: "daemon_inv d" using assms(1,2) by (rule reachable_inv)
  have "map_find (f_smaller_ips d) a = Some i" using outgoing_smaller(1) [OF inv assms(4,5)] assms(6) by simp
  then have "a \<in> f_all_ips d" by (rule smaller_entry(1) [OF inv])
  with inv assms(7) have "forgotten a (res_state (remove_neighbor L s d))"
    by (intro remove_neighbor_forgets) (simp_all add: daemon_inv_def rc_inv_defs tables_ok_def)
  with assms(8) have "forgotten a d' \<and> daemon_inv d'"
    by (induction rule: rtranclp_induct)
      (use inv assms(2,3) in \<open>auto intro: remove_neighbor_inv daemon_action_inv fg.action_kept\<close>)
  then show ?thesis using outgoing_smaller(1) [of d'] by (auto simp: forgotten_def)
qed

text \<open>An example: the daemon at 10 forgets the one at 5, and is then given its address again.\<close>

theorem forgotten_not_reconnected_witness:
  "let d = res_state (add_neighbors sample_lib ''5'' (res_state (remove_neighbor sample_lib ''5'' (sample_linked 10 ''5''))))
   in \<forall>j \<in> set (connections d). c_kind (obj d j) = Remote_conn \<longrightarrow> f_address (obj d j) \<noteq> 5"
proof -
  have c: "0 \<in> set (connections (sample_linked 10 ''5''))" "c_kind (obj (sample_linked 10 ''5'') 0) = Remote_conn"
    "f_address (obj (sample_linked 10 ''5'') 0) = 5" by code_simp+
  have k: "keeps (forgotten 5) no_other" by (simp add: keeps_def no_other_def)
  have s: "string_to_addr sample_lib ''5'' ''255.255.255.255'' 4042 = Some 5"
    by (simp add: sample_lib_def undec_string_def)
  show ?thesis
    unfolding Let_def
    by (rule forgotten_not_reconnected [OF sample_linked_reachable no_other_keeps k c s])
      (intro r_into_rtranclp daemon_action.intros)
qed

end
