(* ===== verification/Gossip.thy ===== *)
theory Gossip
  imports Two_Daemons Forget
begin

text \<open>
  GOSSIP, the other half of how two daemons get connected.  The daemon with the smaller address does not
  open the connection (\<open>one_link\<close>); it tells the other one its address, again and again, until that one has
  answered.  \<open>gossip_connects\<close> is the whole exchange between two daemons.
\<close>

section \<open>The daemon that is told\<close>

lemma msg_gossip_form:
  assumes "m_user_data msg = Some i" and "\<not> f_is_udp (obj d i)"
    and "m_params msg ''my_address'' = Some s" and "string_to_addr L s [] 4042 = Some a"
  obtains d1 where "add_neighbors L s d = ok d1" "keeps_links d d1"
    "msg_gossip L msg d =
       ok (add_remote_communicator L a (send_to i (daemon_message (f_server_name d) ''RECEIVED'') d1))"
proof -
  obtain d1 where d1: "add_neighbors L s d = ok d1" using add_neighbors_returns by blast
  then have k: "keeps_links d d1" using add_neighbors_keeps_links [of d L s] by simp
  have "msg_gossip L msg d =
       ok (add_remote_communicator L a (send_to i (daemon_message (f_server_name d1) ''RECEIVED'') d1))"
    using assms d1 by (simp add: msg_gossip_def tcp_handler_Some has_parameter_def param_def add_remote_communicator_string_def)
  with d1 k show thesis by (intro that) (simp_all add: keeps_links_def)
qed

text \<open>A smaller address that is known is that of a registered connection.\<close>

definition connectable :: "'a::linorder \<Rightarrow> 'a daemon \<Rightarrow> bool" where
  "connectable a d \<longleftrightarrow> a < f_connection_address d \<and> map_ok (f_smaller_ips d) \<and> (\<forall>i \<in> set (connections d). i < next_id d) \<and>
     (a \<in> f_all_ips d \<longrightarrow> (\<exists>k \<in> set (connections d). map_find (f_smaller_ips d) a = Some k))"

lemma connectable_view:
  "connectable a d \<Longrightarrow> prop_view d' = prop_view d \<Longrightarrow> connectable a d'"
  by (simp add: connectable_def prop_view_def)

lemma connectable_add_remote:
  assumes "connectable a d" shows "connectable a (add_remote_communicator L b d)"
proof -
  have n: "next_id d \<notin> set (connections d)" using assms by (auto simp: connectable_def)
  have lt: "i \<in> set (connections d) \<Longrightarrow> i < Suc (next_id d)" for i
    using assms by (auto simp: connectable_def intro: less_SucI)
  show ?thesis
    using assms n lt
    by (auto simp: connectable_def add_remote_communicator_def connection_lost_def new_object_def add_connection_def
        upd_conn_def Let_def map_find_insert map_ok_insert split: option.split)
qed

lemma add_remote_known: "a \<noteq> f_connection_address d \<Longrightarrow> a \<in> f_all_ips (add_remote_communicator L a d)"
  by (auto simp: add_remote_communicator_def connection_lost_def new_object_def add_connection_def upd_conn_def Let_def
      split: option.split)

text \<open>What new addresses do not change, the whole of \<open>add_neighbors\<close> does not.\<close>

lemma read_addresses_keeps:
  assumes "\<And>b d. P d \<Longrightarrow> P (add_remote_communicator L b d)"
    and "\<And>d d'. P d \<Longrightarrow> prop_view d' = prop_view d \<Longrightarrow> now d' = now d \<Longrightarrow> P d'"
    and "P d"
  shows "P (read_addresses L rs d)"
  using assms(3)
proof (induction rs arbitrary: d)
  case (Cons r rs)
  have "P (d\<lparr>f_all_neighbors := n\<rparr>)" for n
    using Cons.prems by (rule assms(2)) (simp_all add: prop_view_def)
  then show ?case using Cons by (auto simp: assms(1) split: option.split)
qed simp

lemma add_addresses_keeps:
  assumes "\<And>b d. P d \<Longrightarrow> P (add_remote_communicator L b d)"
    and "\<And>d d'. P d \<Longrightarrow> prop_view d' = prop_view d \<Longrightarrow> now d' = now d \<Longrightarrow> P d'"
    and "P d"
  shows "P (snd (add_addresses L rs (c, d)))"
  using assms(3)
proof (induction rs arbitrary: c d)
  case (Cons r rs)
  have "P (d\<lparr>f_all_neighbors := n\<rparr>)" for n
    using Cons.prems by (rule assms(2)) (simp_all add: prop_view_def)
  then show ?case using Cons by (auto simp: assms(1) split: option.split)
qed simp

lemma add_neighbors_keeps:
  assumes add: "\<And>b d. P d \<Longrightarrow> P (add_remote_communicator L b d)"
    and view: "\<And>d d'. P d \<Longrightarrow> prop_view d' = prop_view d \<Longrightarrow> now d' = now d \<Longrightarrow> P d'"
    and P: "P d"
  shows "P (res_state (add_neighbors L s d))"
proof -
  let ?rs = "parse_required_port L (trim_string L s)"
  have r: "P (read_addresses L rs e)" if "P e" for rs e
    by (rule read_addresses_keeps [of P]) (use add view that in blast)+
  have "P (d\<lparr>f_neighbors_cache_filename := f\<rparr>)" for f
    using P by (rule view) (simp_all add: prop_view_def)
  then have "P (read_neighbors L d)"
    using P by (simp add: read_neighbors_def Let_def r split: option.split)
  then have c: "P (snd (add_addresses L ?rs (False, read_neighbors L d)))"
    by (rule add_addresses_keeps [of P, rotated 2]) (use add view in blast)+
  have s: "P (res_state (save_neighbors d))" if "P d" for d
    using that by (rule view) (simp_all add: save_neighbors_def emit_def prop_view_def)
  from c P show ?thesis
    by (cases "add_addresses L ?rs (False, read_neighbors L d)") (simp add: add_neighbors_def Let_def s)
qed

text \<open>
  A daemon that was forgotten (theory Forget) is answered all the same, so it stops gossiping and waits for a
  connection that is never opened.
\<close>

lemma gossip_of_forgotten:
  assumes "forgotten a d" and "m_user_data msg = Some i" and "\<not> f_is_udp (obj d i)"
    and "m_params msg ''my_address'' = Some s" and "string_to_addr L s [] 4042 = Some a"
  shows "\<exists>d'. msg_gossip L msg d = ok d' \<and> forgotten a d' \<and>
    Sent i (daemon_message (f_server_name d) ''RECEIVED'') \<in> set (out d')"
proof -
  obtain d1 where d1: "add_neighbors L s d = ok d1" "keeps_links d d1"
    "msg_gossip L msg d = ok (add_remote_communicator L a (send_to i (daemon_message (f_server_name d) ''RECEIVED'') d1))"
    using assms(2-5) by (rule msg_gossip_form)
  have "forgotten a d1" using fg.kept_add_neighbors [OF assms(1), of L s] d1(1) by simp
  then have "forgotten a (add_remote_communicator L a (send_to i m d1))" for m
    by (intro forgotten_add_remote) (simp add: forgotten_def send_to_eq)
  with d1(3) show ?thesis by (simp add: add_remote_fields send_to_eq)
qed

section \<open>The exchange\<close>

lemma gossip_ends:
  assumes "map_ok (f_gossip_ips d)" and "map_find (f_gossip_ips d) (f_address (obj d i)) = Some i"
    and "m_command r = ''RECEIVED''"
  shows "i \<notin> set (connections (gossip_process_message i r d))"
    "map_find (f_gossip_ips (gossip_process_message i r d)) (f_address (obj d i)) = None"
  using assms by (auto simp: gossip_process_message_def gossip_received_def unlist_connection_def map_find_erase)

text \<open>
  C8: Two daemons get connected by the one with the larger address, and the other one stops gossiping. The
  GOSSIP message that a daemon sends when its gossip connection comes up makes the daemon it reaches, if it
  has not forgotten the sender, have a connection to the sender's address, and answer RECEIVED; the answer ends
  the gossip connection.
\<close>

theorem gossip_connects:
  assumes "string_to_addr L (ip_port_string L (f_connection_address a)) [] 4042 = Some (f_connection_address a)"
    and "f_connection_address a < f_connection_address b"
    and "reachable L other a" and "reachable L other b" and "keeps_inv other"
    and "c_kind (obj a i) = Gossip_conn" and "f_address (obj a i) = f_connection_address b"
    and "map_find (f_gossip_ips a) (f_connection_address b) = Some i"
    and "\<not> f_shutdown b" and "c_kind (obj b j) = Service_conn" and "\<not> f_is_udp (obj b j)"
    and "f_connection_address a \<notin> f_all_ips b \<or>
      (\<exists>k \<in> set (connections b). map_find (f_smaller_ips b) (f_connection_address a) = Some k)"
  shows "\<exists>m r k. Sent i m \<in> set (new_log a (gossip_process_connected L (lib_link True s e) i a)) \<and>
    Sent j r \<in> set (new_log b (receive L other j m b)) \<and>
    k \<in> set (connections (receive L other j m b)) \<and> c_kind (obj (receive L other j m b) k) = Remote_conn \<and>
    f_address (obj (receive L other j m b) k) = f_connection_address a \<and>
    i \<notin> set (connections (gossip_process_message i r (gossip_process_connected L (lib_link True s e) i a))) \<and>
    map_find (f_gossip_ips (gossip_process_message i r (gossip_process_connected L (lib_link True s e) i a)))
      (f_connection_address b) = None"
proof -
  note inv = reachable_inv [OF assms(3,5)] reachable_inv [OF assms(4,5)]
  let ?x = "f_connection_address a"
  let ?up = "lib_link True s e i a"
  let ?told = "gossip_process_connected L (lib_link True s e) i a"
  let ?m = "add_parameter ''my_address'' (ip_port_string L ?x) (new_message\<lparr>m_command := ''GOSSIP''\<rparr>)"
  let ?r = "daemon_message (f_server_name b) ''RECEIVED''"
  have a: "?told = send_message i ?m ?up"
    by (simp add: gossip_process_connected_def Let_def lib_link_def upd_conn_def)
  have fa: "f_address (obj ?told i) = f_connection_address b" "f_gossip_ips ?told = f_gossip_ips a" "out ?told = out a @ [Sent i ?m]"
    using assms(7) unfolding a by (simp_all add: lib_link_def upd_conn_def send_message_def emit_def)
  have ends: "i \<notin> set (connections (gossip_process_message i ?r ?told))"
    "map_find (f_gossip_ips (gossip_process_message i ?r ?told)) (f_connection_address b) = None"
    using gossip_ends [of ?told i ?r] inv(1) assms(8) fa by (auto simp: daemon_inv_def rc_inv_defs)
  let ?msg = "(sent_from (obj b j) ?m)\<lparr>m_user_data := Some j\<rparr>"
  have p: "m_params ?msg ''my_address'' = Some (ip_port_string L ?x)" by simp
  obtain b1 where b1: "add_neighbors L (ip_port_string L ?x) b = ok b1" "keeps_links b b1"
    "msg_gossip L ?msg b = ok (add_remote_communicator L ?x (send_to j ?r b1))"
    by (rule msg_gossip_form [of ?msg j b "ip_port_string L ?x" L ?x]) (use assms(1,11) in simp_all)
  let ?b = "add_remote_communicator L ?x (send_to j ?r b1)"
  have rc: "receive L other j ?m b = ?b"
  proof -
    have "dispatch_message L other ?msg b = seq (msg_gossip L ?msg b) (Ret True)"
      using assms(9) by (intro dispatch_own) (simp_all add: has_parameter_def handler_of_def new_message_def)
    then show ?thesis using assms(10) b1(3) by (simp add: receive_def service_process_message_def)
  qed
  have cb: "connectable ?x b"
    using assms(2,12) inv(2) by (auto simp: connectable_def daemon_inv_def rc_inv_defs)
  have "connectable ?x (res_state (add_neighbors L (ip_port_string L ?x) b))"
    by (rule add_neighbors_keeps [of "connectable ?x"]) (use connectable_add_remote connectable_view cb in blast)+
  then have "connectable ?x b1" using b1(1) by simp
  then have "connectable ?x (send_to j ?r b1)" by (rule connectable_view) (simp add: prop_view_def send_to_eq)
  moreover have "f_connection_address (send_to j ?r b1) = f_connection_address b"
    using b1(2) by (simp add: keeps_links_def send_to_eq)
  ultimately have "connectable ?x ?b" "?x \<in> f_all_ips ?b"
    using assms(2) by (auto intro: connectable_add_remote add_remote_known)
  then obtain k where k: "k \<in> set (connections ?b)" "map_find (f_smaller_ips ?b) ?x = Some k"
    by (auto simp: connectable_def)
  have "daemon_inv b1" using add_neighbors_inv [OF inv(2), of L "ip_port_string L ?x"] b1(1) by simp
  then have "daemon_inv ?b" by (intro add_remote_communicator_inv send_to_inv)
  from smaller_entry(4,5) [OF this k(2)] have "c_kind (obj ?b k) = Remote_conn" "f_address (obj ?b k) = ?x" .
  moreover have "Sent j ?r \<in> set (new_log b ?b)"
    using b1(2) by (auto simp: add_remote_fields send_to_eq keeps_links_def)
  ultimately show ?thesis
    using ends k(1) fa(3) unfolding rc [symmetric] by (intro exI [of _ ?m] exI [of _ ?r] exI [of _ k]) simp
qed

text \<open>An example: the daemon at 10 knows of the one at 20, which has just accepted its connection.\<close>

definition sample_told :: "int daemon" where
  "sample_told = listener_process_accept sample_lib
     \<lparr>l_local = False, l_server_name = ''beta'', l_username = [], l_password = []\<rparr> (Some (10, 0, 3))
     ((sample_daemon [])\<lparr>f_connection_address := 20\<rparr>)"

lemma sample_told_reachable: "reachable sample_lib no_other sample_told"
  unfolding sample_told_def
  by (rule reachable.step [OF reachable.start daemon_step.accept])
    (auto simp: initial_daemon_def sample_daemon_def own_ok_def own_connections_def)

theorem gossip_connects_witness:
  "\<exists>m k. k \<in> set (connections (receive sample_lib no_other 0 m sample_told)) \<and>
     c_kind (obj (receive sample_lib no_other 0 m sample_told) k) = Remote_conn \<and>
     f_address (obj (receive sample_lib no_other 0 m sample_told) k) = 10"
proof -
  let ?a = "sample_linked 10 ''20''"
  have f: "f_connection_address ?a = 10" "f_connection_address sample_told = 20" "c_kind (obj ?a 0) = Gossip_conn"
    "f_address (obj ?a 0) = 20" "map_find (f_gossip_ips ?a) 20 = Some 0" "\<not> f_shutdown sample_told"
    "c_kind (obj sample_told 0) = Service_conn" "\<not> f_is_udp (obj sample_told 0)" "10 \<notin> f_all_ips sample_told"
    by code_simp+
  have "\<exists>m r k. Sent 0 m \<in> set (new_log ?a (gossip_process_connected sample_lib (lib_link True 1 True) 0 ?a)) \<and>
    Sent 0 r \<in> set (new_log sample_told (receive sample_lib no_other 0 m sample_told)) \<and>
    k \<in> set (connections (receive sample_lib no_other 0 m sample_told)) \<and>
    c_kind (obj (receive sample_lib no_other 0 m sample_told) k) = Remote_conn \<and>
    f_address (obj (receive sample_lib no_other 0 m sample_told) k) = f_connection_address ?a \<and>
    0 \<notin> set (connections (gossip_process_message 0 r (gossip_process_connected sample_lib (lib_link True 1 True) 0 ?a))) \<and>
    map_find (f_gossip_ips (gossip_process_message 0 r (gossip_process_connected sample_lib (lib_link True 1 True) 0 ?a)))
      (f_connection_address sample_told) = None"
    by (rule gossip_connects [OF sample_lib_addresses _ sample_linked_reachable sample_told_reachable no_other_keeps])
      (simp_all add: f)
  then show ?thesis unfolding f(1) by blast
qed

end
