(* ===== verification/Recovery.thy ===== *)
theory Recovery
  imports Gossip
begin

text \<open>
  A link between two daemons that breaks.  The daemon that had accepted the connection removes it and starts
  to gossip to the other one (\<open>broken_link_gossips\<close>); when that one gets the GOSSIP message it tries its
  connection again at once instead of when its timer next runs out (\<open>gossip_reconnects\<close>).
\<close>

section \<open>The daemon that had accepted the connection\<close>

text \<open>How a connection that another daemon opened can end.\<close>

inductive broken :: "('a::linorder, 'z) lib_scheme \<Rightarrow> cid \<Rightarrow> 'a daemon \<Rightarrow> 'a daemon \<Rightarrow> bool" for L i d where
  "broken L i d (conn_process_timeout L i d)"
| "broken L i d (conn_process_error (lib_lost L) i d)"
| "broken L i d (conn_process_invalid (lib_lost L) i d)"
| "broken L i d (conn_process_hup L (lib_lost L) i d)"
| "m_user_data msg = Some i \<Longrightarrow> \<not> f_is_udp (obj d i) \<Longrightarrow> f_type (obj d i) = Remote_type \<Longrightarrow>
     broken L i d (res_state (msg_disconnect L msg d))"

inductive_cases brokenE: "broken L i d d'"

text \<open>The address is gossiped to, and the connection is not registered any more.\<close>

definition gossips :: "'a \<Rightarrow> cid \<Rightarrow> 'a daemon \<Rightarrow> bool" where
  "gossips a i d \<longleftrightarrow> i \<notin> set (connections d) \<and> map_find (f_gossip_ips d) a \<noteq> None"

lemma gossips_view:
  "gossips a i d \<Longrightarrow> connections d' = connections d \<Longrightarrow> f_gossip_ips d' = f_gossip_ips d \<Longrightarrow> gossips a i d'"
  by (simp add: gossips_def)

lemma gossips_only_sends: "gossips a i d \<Longrightarrow> only_sends d d' \<Longrightarrow> gossips a i d'"
  using only_sends_field [of d d' connections] only_sends_field [of d d' f_gossip_ips] by (simp add: gossips_def)

lemma remove_gossips:
  assumes "i \<in> set (connections d)" and "i < next_id d" and "c_kind (obj d i) = Service_conn" and "f_remote_connection (obj d i)"
    and "map_ok (f_gossip_ips d)" and "next_id d \<notin> set (connections d)"
  shows "gossips (f_address (obj d i)) i (remove_connection L i d)"
  using assms
  by (auto simp: gossips_def remove_connection_def connection_removed_def connection_lost_def unlist_connection_def
      new_object_def add_connection_def Let_def map_find_insert)

lemma gossips_cluster_status: "gossips a i d \<Longrightarrow> gossips a i (cluster_status L r d)"
proof (cases r)
  case None
  assume g: "gossips a i d"
  obtain es q where "cluster_status L None d =
    d\<lparr>f_cluster_status := cluster_up_down (count_live_connections d + 1) (total_count_of d),
      f_cluster_complete := cluster_complete_incomplete (count_live_connections d + 1) (total_count_of d),
      f_total_count_sent := total_count_of d, out := out d @ es, g_broadcast_sequence := q\<rparr>"
    by (rule cluster_status_None_form)
  with g None show ?thesis by (simp add: gossips_def)
next
  case (Some j)
  assume "gossips a i d"
  then show ?thesis unfolding Some using cluster_status_reply_only_sends by (rule gossips_only_sends)
qed

lemma gossips_broadcast_new:
  assumes "\<not> has_parameter msg ''broadcast_msgid''" and "gossips a i d"
  shows "gossips a i (broadcast_new L msg acc d)"
  by (rule broadcast_new_fresh [OF assms(1), of L acc d]) (use assms(2) in \<open>simp add: gossips_def\<close>)

lemma gossips_send_status: "gossips a i d \<Longrightarrow> gossips a i (send_status j r d)"
  using send_status_only_sends by (rule gossips_only_sends [rotated])

lemma gossips_upd: "gossips a i d \<Longrightarrow> gossips a i (upd_conn j f d)"
  by (simp add: gossips_def upd_conn_def)

lemma gossips_heard_of: "gossips a i d \<Longrightarrow> gossips a i (refresh_heard_of L d)"
  by (simp add: refresh_heard_of_empty gossips_def)

lemma gossips_conn_send_status: "gossips a i d \<Longrightarrow> gossips a i (conn_send_status j d)"
  by (simp add: conn_send_status_def gossips_send_status gossips_upd)

lemma broken_gossips:
  assumes "daemon_inv d" and "i \<in> set (connections d)" and "c_kind (obj d i) = Service_conn" and "f_remote_connection (obj d i)"
    and "broken L i d d'"
  shows "gossips (f_address (obj d i)) i d'"
proof -
  have base: "i < next_id d" "map_ok (f_gossip_ips d)" "next_id d \<notin> set (connections d)"
    using assms(1,2) by (auto simp: daemon_inv_def rc_inv_defs)
  have r: "gossips (f_address (obj d i)) i (remove_connection L i d)"
    using assms(2-4) base by (intro remove_gossips)
  have h: "\<not> has_parameter (hangup_message s) ''broadcast_msgid''" for s
    by (simp add: hangup_message_def has_parameter_def new_message_def)
  have dm: "\<not> has_parameter (disconnected_message e i) ''broadcast_msgid''" for e :: "'a daemon"
    by (simp add: disconnected_message_def has_parameter_def)
  from assms(5) show ?thesis
  proof (rule brokenE)
    fix msg assume msg: "m_user_data msg = Some i" "\<not> f_is_udp (obj d i)" "f_type (obj d i) = Remote_type"
      and d': "d' = res_state (msg_disconnect L msg d)"
    let ?d = "upd_conn i (set_connection_type Down) (upd_conn i (connection_ended (now d)) d)"
    have "gossips (f_address (obj d i)) i (remove_connection L i ?d)"
    proof -
      have o: "f_address (obj ?d i) = f_address (obj d i)" "c_kind (obj ?d i) = Service_conn" "f_remote_connection (obj ?d i)"
        using assms(3,4) by (simp_all add: upd_conn_def connection_ended_def)
      from remove_gossips [of i ?d L] o base assms(2) show ?thesis by (simp add: upd_conn_def)
    qed
    moreover have "d' = (let e = refresh_heard_of L (remove_connection L i ?d);
          e2 = (if f_base_server_name (obj e i) \<noteq> [] then broadcast_new L (disconnected_message e i) [] e else e)
        in send_status i None (cluster_status L None e2))"
      using msg assms(3) by (simp add: d' msg_disconnect_def tcp_handler_Some Let_def upd_conn_def connection_ended_def)
    ultimately show ?thesis
      by (simp add: Let_def gossips_send_status gossips_cluster_status gossips_broadcast_new gossips_heard_of dm)
  qed (simp_all add: conn_process_timeout_def conn_process_error_def conn_process_invalid_def conn_process_hup_def Let_def
      lib_lost_def r gossips_conn_send_status gossips_cluster_status gossips_broadcast_new h)
qed


text \<open>
  C9: A link that breaks is not forgotten by the side that had accepted it. Whichever way the connection to
  another daemon ends - a time out, an error, an invalid connection, a hang up or a DISCONNECT message - the
  daemon removes it and has a gossip connection to the address of the other one, entered in
  \<open>f_gossip_ips\<close>.
\<close>

theorem broken_link_gossips:
  assumes "reachable L other d" and "keeps_inv other"
    and "i \<in> set (connections d)" and "c_kind (obj d i) = Service_conn" and "f_remote_connection (obj d i)"
    and "broken L i d d'"
  shows "i \<notin> set (connections d') \<and>
    (\<exists>g \<in> set (connections d'). c_kind (obj d' g) = Gossip_conn \<and> f_address (obj d' g) = f_address (obj d i) \<and>
      map_find (f_gossip_ips d') (f_address (obj d i)) = Some g)"
proof -
  have inv: "daemon_inv d" using assms(1,2) by (rule reachable_inv)
  have inv': "daemon_inv d'"
    using assms(6)
    by (rule brokenE)
      (auto intro!: daemon_step_inv [OF daemon_step.timeout inv assms(2)] daemon_step_inv [OF daemon_step.conn_error inv assms(2)]
        daemon_step_inv [OF daemon_step.conn_invalid inv assms(2)] daemon_step_inv [OF daemon_step.hup inv assms(2)]
        msg_disconnect_inv inv simp: assms(3,4) from_base_def)
  from broken_gossips [OF inv assms(3-6)] obtain g where
    g: "i \<notin> set (connections d')" "map_find (f_gossip_ips d') (f_address (obj d i)) = Some g"
    by (auto simp: gossips_def)
  from gossip_entry [OF inv' g(2)] g show ?thesis by auto
qed

text \<open>An example: the daemon at 20 accepted a connection of the one at 10 (theory Gossip), which is silent for too long.\<close>

theorem broken_link_gossips_witness:
  "\<exists>g \<in> set (connections (conn_process_timeout sample_lib 0 sample_told)).
     c_kind (obj (conn_process_timeout sample_lib 0 sample_told) g) = Gossip_conn \<and>
     f_address (obj (conn_process_timeout sample_lib 0 sample_told) g) = 10"
proof -
  have c: "0 \<in> set (connections sample_told)" "c_kind (obj sample_told 0) = Service_conn"
    "f_remote_connection (obj sample_told 0)" "f_address (obj sample_told 0) = 10" by code_simp+
  from broken_link_gossips [OF sample_told_reachable no_other_keeps c(1-3) broken.intros(1)] show ?thesis
    unfolding c(4) by blast
qed

section \<open>The daemon that had opened it\<close>

text \<open>A connection to an address that is known, and that is not up.\<close>

definition waits_for :: "'a::linorder \<Rightarrow> cid \<Rightarrow> 'a daemon \<Rightarrow> bool" where
  "waits_for a k d \<longleftrightarrow> a < f_connection_address d \<and> a \<in> f_all_ips d \<and> map_ok (f_smaller_ips d) \<and>
     (\<forall>j \<in> set (connections d). j < next_id d) \<and>
     map_find (f_smaller_ips d) a = Some k \<and> k \<in> set (connections d) \<and> \<not> c_connected (obj d k)"

lemma waits_for_view: "waits_for a k d \<Longrightarrow> prop_view d' = prop_view d \<Longrightarrow> waits_for a k d'"
  by (simp add: waits_for_def prop_view_def)

lemma waits_for_add_remote:
  assumes "waits_for a k d" shows "waits_for a k (add_remote_communicator L b d)"
proof -
  have n: "next_id d \<notin> set (connections d)" using assms by (auto simp: waits_for_def)
  have lt: "i \<in> set (connections d) \<Longrightarrow> i < Suc (next_id d)" for i
    using assms by (auto simp: waits_for_def intro: less_SucI)
  show ?thesis
    using assms n lt
    by (auto simp: waits_for_def add_remote_communicator_def connection_lost_def new_object_def add_connection_def
        upd_conn_def Let_def map_find_insert map_ok_insert split: option.split)
qed

lemma now_add_remote: "now (add_remote_communicator L b d) = now d"
  by (simp add: add_remote_communicator_def connection_lost_def new_object_def add_connection_def upd_conn_def Let_def
      split: option.split)

lemma waits_for_retried:
  assumes "waits_for a k d"
  shows "add_remote_communicator L a d = upd_conn k (\<lambda>c. c\<lparr>c_timeout_delay := 86400000000,
    c_timeout_date := now d * 1000000, c_enabled := True\<rparr>) d"
  using assms by (auto simp: waits_for_def add_remote_communicator_def)

text \<open>
  C10: The daemon that gets the GOSSIP message tries again at once. If its connection to the sender is not up,
  that connection stays the one to this address, it is enabled, and its time out is now, and not at the end of
  the pause it was in; the answer is RECEIVED.
\<close>

theorem gossip_reconnects:
  assumes "string_to_addr L s [] 4042 = Some x"
    and "reachable L other b" and "keeps_inv other" and "\<not> f_shutdown b"
    and "c_kind (obj b j) = Service_conn" and "\<not> f_is_udp (obj b j)"
    and "k \<in> set (connections b)" and "c_kind (obj b k) = Remote_conn" and "f_address (obj b k) = x"
    and "\<not> c_connected (obj b k)"
    and "m = add_parameter ''my_address'' s (new_message\<lparr>m_command := ''GOSSIP''\<rparr>)"
  shows "k \<in> set (connections (receive L other j m b)) \<and>
    c_enabled (obj (receive L other j m b) k) \<and> c_timeout_date (obj (receive L other j m b) k) = now b * 1000000 \<and>
    Sent j (daemon_message (f_server_name b) ''RECEIVED'') \<in> set (new_log b (receive L other j m b))"
proof -
  have inv: "daemon_inv b" using assms(2,3) by (rule reachable_inv)
  let ?r = "daemon_message (f_server_name b) ''RECEIVED''"
  let ?msg = "(sent_from (obj b j) m)\<lparr>m_user_data := Some j\<rparr>"
  have p: "m_params ?msg ''my_address'' = Some s" using assms(11) by simp
  obtain b1 where b1: "add_neighbors L s b = ok b1" "keeps_links b b1"
    "msg_gossip L ?msg b = ok (add_remote_communicator L x (send_to j ?r b1))"
    by (rule msg_gossip_form [of ?msg j b s L x]) (use assms(1,6) p in simp_all)
  let ?b = "add_remote_communicator L x (send_to j ?r b1)"
  have rc: "receive L other j m b = ?b"
  proof -
    have "dispatch_message L other ?msg b = seq (msg_gossip L ?msg b) (Ret True)"
      using assms(4,11) by (intro dispatch_own) (simp_all add: has_parameter_def handler_of_def new_message_def)
    then show ?thesis using assms(5) b1(3) by (simp add: receive_def service_process_message_def)
  qed
  have e: "map_find (f_smaller_ips b) x = Some k"
    using inv assms(7-9) by (auto simp: daemon_inv_def rc_inv_defs)
  have wb: "waits_for x k b"
    using inv assms(7,10) e smaller_entry(1,2) [OF inv e] by (auto simp: waits_for_def daemon_inv_def rc_inv_defs)
  have "waits_for x k (res_state (add_neighbors L s b)) \<and> now (res_state (add_neighbors L s b)) = now b"
    by (rule add_neighbors_keeps [of "\<lambda>d. waits_for x k d \<and> now d = now b"])
      (use waits_for_add_remote waits_for_view wb in \<open>auto simp: now_add_remote\<close>)
  then have b2: "waits_for x k b1" "now b1 = now b" using b1(1) by auto
  from b2(1) have w: "waits_for x k (send_to j ?r b1)" by (rule waits_for_view) (simp add: prop_view_def send_to_eq)
  show ?thesis unfolding rc waits_for_retried [OF w]
    using w b1(2) b2(2) by (auto simp: waits_for_def upd_conn_def send_to_eq keeps_links_def)
qed

text \<open>An example: the daemon at 10 has not reached the one at 5 yet, and is told of it over a connection it accepted.\<close>

definition sample_waiting :: "int daemon" where
  "sample_waiting = listener_process_accept sample_lib
     \<lparr>l_local = False, l_server_name = ''alpha'', l_username = [], l_password = []\<rparr> (Some (5, 0, 3)) (sample_linked 10 ''5'')"

theorem gossip_reconnects_witness:
  "c_timeout_date (obj (receive sample_lib no_other 1
     (add_parameter ''my_address'' ''5'' (new_message\<lparr>m_command := ''GOSSIP''\<rparr>)) sample_waiting) 0) = now sample_waiting * 1000000"
proof -
  have r: "reachable sample_lib no_other sample_waiting"
    unfolding sample_waiting_def by (rule reachable.step [OF sample_linked_reachable daemon_step.accept])
  have c: "string_to_addr sample_lib ''5'' [] 4042 = Some 5" "\<not> f_shutdown sample_waiting" "c_kind (obj sample_waiting 1) = Service_conn"
    "\<not> f_is_udp (obj sample_waiting 1)" "0 \<in> set (connections sample_waiting)" "c_kind (obj sample_waiting 0) = Remote_conn"
    "f_address (obj sample_waiting 0) = 5" "\<not> c_connected (obj sample_waiting 0)" by code_simp+
  show ?thesis using gossip_reconnects [OF c(1) r no_other_keeps c(2-8) refl] by blast
qed

end
