(* ===== verification/Cluster_Shutdown.thy ===== *)
theory Cluster_Shutdown
  imports Shutdown Network Two_Daemons
begin

text \<open>
  SHUTDOWN in a network of daemons.  A daemon that gets the message stops and tells the daemons it is linked
  to (\<open>stop\<close>); one that is already stopping answers with QUITTING and closes the connection
  (\<open>shutting_down\<close>).  \<open>pass\<close> takes one message from the wire, in any order; a message for a connection that
  was closed is lost.
\<close>

section \<open>What a daemon that stops says\<close>

text \<open>A link is told: \<open>stop\<close> sends its message over this connection.\<close>

definition tellable :: "bool \<Rightarrow> 'a daemon \<Rightarrow> cid \<Rightarrow> bool" where
  "tellable q d i \<longleftrightarrow> c_kind (obj d i) = Remote_conn \<or>
     is_service_kind (c_kind (obj d i)) \<and> f_type (obj d i) = Remote_type \<and> verify_command d i (going_down d q)"

text \<open>What the other rounds of the loop leave of a connection.\<close>

definition round_frame :: "cid \<Rightarrow> 'a daemon \<Rightarrow> 'a daemon \<Rightarrow> bool" where
  "round_frame i d d' \<longleftrightarrow> obj d' i = obj d i \<and> next_id d \<le> next_id d' \<and> f_server_name d' = f_server_name d \<and>
     f_debug_all_messages d' = f_debug_all_messages d \<and> (\<exists>es. out d' = out d @ es)"

lemma round_frame_refl [simp]: "round_frame i d d"
  by (simp add: round_frame_def)

lemma round_frame_trans: "round_frame i a b \<Longrightarrow> round_frame i b c \<Longrightarrow> round_frame i a c"
  unfolding round_frame_def by fastforce

lemma round_frame_remove: "i < next_id d \<Longrightarrow> round_frame i d (remove_connection L j d)"
  by (auto simp: round_frame_def remove_connection_def connection_removed_def connection_lost_def unlist_connection_def
      new_object_def add_connection_def Let_def)

lemma round_frame_connection:
  assumes "i < next_id d" and "i \<noteq> j" shows "round_frame i d (stop_connection L q d j)"
  using assms round_frame_remove [OF assms(1), of L j]
  by (auto simp: stop_connection_def stop_service_def mark_done_def round_frame_def state_simps split: connection_type.split)

lemma tellable_frame: "round_frame i d d' \<Longrightarrow> tellable q d' i = tellable q d i \<and> going_down d' q = going_down d q"
  by (simp add: tellable_def round_frame_def verify_command_def going_down_def)

text \<open>Every link gets the message of \<open>stop\<close>, and no other message goes over a link.\<close>

lemma stop_connection_tells:
  assumes "tellable q d i"
  shows "Sent i (going_down d q) \<in> set (new_log d (stop_connection L q d i))"
  using assms
  by (auto simp: tellable_def stop_connection_def stop_service_def mark_done_def state_simps is_service_kind_def)

definition says :: "bool \<Rightarrow> 'a daemon \<Rightarrow> cid set \<Rightarrow> 'a daemon \<Rightarrow> bool" where
  "says q d I d' \<longleftrightarrow> (\<exists>es. out d' = out d @ es \<and>
     (\<forall>i m. Sent i m \<in> set es \<longrightarrow> i \<in> I \<and> (tellable q d i \<longrightarrow> m = going_down d q)))"

lemma says_refl [simp]: "says q d I d"
  by (simp add: says_def)

lemma out_remove [simp]: "out (remove_connection L j d) = out d"
  by (simp add: remove_connection_def connection_removed_def connection_lost_def unlist_connection_def
      new_object_def add_connection_def Let_def)

lemma stop_connection_says: "says q d {j} (stop_connection L q d j)"
  by (cases "f_type (obj d j)")
    (auto simp: says_def stop_connection_def stop_service_def mark_done_def tellable_def state_simps going_down_def)

lemma stop_loop_says:
  assumes "distinct is" and "\<forall>i \<in> set is. i < next_id d"
  shows "says q d (set is) (foldl (stop_connection L q) d is)"
  using assms
proof (induction "is" arbitrary: d)
  case (Cons j "is")
  let ?d = "stop_connection L q d j"
  obtain es where es: "out ?d = out d @ es"
    "\<And>i m. Sent i m \<in> set es \<Longrightarrow> i = j \<and> (tellable q d i \<longrightarrow> m = going_down d q)"
    using stop_connection_says [of q d j L] by (auto simp: says_def)
  have f: "round_frame i d ?d" if "i \<in> set is" for i
    using Cons.prems that by (intro round_frame_connection) auto
  have "next_id d \<le> next_id ?d" using stop_frame_connection [of d L q j] by (simp add: stop_frame_def)
  then have "says q ?d (set is) (foldl (stop_connection L q) ?d is)"
    using Cons.prems by (intro Cons.IH) (auto intro: less_le_trans)
  then obtain fs where fs: "out (foldl (stop_connection L q) ?d is) = out ?d @ fs"
    "\<And>i m. Sent i m \<in> set fs \<Longrightarrow> i \<in> set is \<and> (tellable q ?d i \<longrightarrow> m = going_down ?d q)"
    by (auto simp: says_def)
  have "i \<in> set (j # is) \<and> (tellable q d i \<longrightarrow> m = going_down d q)" if "Sent i m \<in> set (es @ fs)" for i m
    using that es(2) [of i m] fs(2) [of i m] tellable_frame [OF f, of i q] by auto
  then show ?case using es(1) fs(1) by (auto simp: says_def)
qed simp

lemma stop_loop_tells:
  assumes "i \<in> set is" and "distinct is" and "i < next_id d" and "tellable q d i"
  shows "Sent i (going_down d q) \<in> set (new_log d (foldl (stop_connection L q) d is))"
  using assms
proof (induction "is" arbitrary: d)
  case (Cons j "is")
  let ?d = "stop_connection L q d j"
  obtain es fs where es: "out ?d = out d @ es" and fs: "out (foldl (stop_connection L q) ?d is) = out ?d @ fs"
    using stop_frame_connection [of d L q j] stop_frame_loop [of ?d L q "is"] by (auto simp: stop_frame_def)
  show ?case
  proof (cases "i = j")
    case True
    with stop_connection_tells [OF Cons.prems(4), of L] es fs show ?thesis by simp
  next
    case False
    with Cons.prems have f: "round_frame i d ?d" by (intro round_frame_connection) auto
    then have "i < next_id ?d" using Cons.prems(3) by (simp add: round_frame_def)
    with Cons.IH [of ?d] Cons.prems False tellable_frame [OF f, of q] es fs show ?thesis by simp
  qed
qed simp

lemma stop_listeners_out: "out (stop_listeners L d) = out d"
proof -
  have "out (remove_optional L c d) = out d" for c and d :: "'a daemon"
    by (simp add: remove_optional_def split: option.split)
  then show ?thesis by (simp add: stop_listeners_def Let_def)
qed

lemma stop_gossiping_out: "out (stop_gossiping d) = out d \<and> f_debug_all_messages (stop_gossiping d) = f_debug_all_messages d \<and>
   (distinct (connections d) \<longrightarrow> distinct (connections (stop_gossiping d)))"
proof (induction d rule: stop_gossiping.induct)
  case (1 d)
  then show ?case
    by (cases "f_gossip_ips d") (auto simp: stop_gossiping.simps [of d] unlist_connection_def split: prod.split)
qed

text \<open>What \<open>stop\<close> does to a daemon in a good state, as far as the links are concerned.\<close>

lemma stop_says:
  assumes "daemon_inv d"
  shows "f_shutdown (stop L q d)" "next_id d \<le> next_id (stop L q d)" "f_server_name (stop L q d) = f_server_name d"
    "says q d UNIV (stop L q d)"
    "\<And>i. i \<in> set (connections d) \<Longrightarrow> tellable q d i \<Longrightarrow> Sent i (going_down d q) \<in> set (new_log d (stop L q d))"
proof -
  let ?d1 = "stop_gossiping (d\<lparr>f_shutdown := True\<rparr>)"
  let ?d2 = "foldl (stop_connection L q) ?d1 (connections ?d1)"
  have st: "stop L q d = stop_listeners L ?d2" by (simp add: stop_def Let_def)
  note g = stop_gossiping_fields [of "d\<lparr>f_shutdown := True\<rparr>"] and o = stop_gossiping_out [of "d\<lparr>f_shutdown := True\<rparr>"]
  have l: "stop_frame ?d1 ?d2" "stop_frame ?d2 (stop_listeners L ?d2)"
    by (rule stop_frame_loop, rule stop_frame_listeners)
  show "f_shutdown (stop L q d)" "next_id d \<le> next_id (stop L q d)" "f_server_name (stop L q d) = f_server_name d"
    using l g unfolding st by (simp_all add: stop_frame_def)
  have c: "distinct (connections ?d1)" "\<forall>i \<in> set (connections ?d1). i < next_id ?d1"
    using assms g o by (auto simp: daemon_inv_def rc_inv_defs)
  have t: "tellable q ?d1 i = tellable q d i" "going_down ?d1 q = going_down d q" for i
    using g o by (simp_all add: tellable_def verify_command_def going_down_def)
  have s: "says q ?d1 (set (connections ?d1)) ?d2" using c by (rule stop_loop_says)
  have out: "out ?d1 = out d" "out (stop L q d) = out ?d2" using o by (simp_all add: st stop_listeners_out)
  show "says q d UNIV (stop L q d)" using s unfolding says_def t out by auto
  show "Sent i (going_down d q) \<in> set (new_log d (stop L q d))"
    if i: "i \<in> set (connections d)" "tellable q d i" for i
  proof -
    have "i \<notin> snd ` set (f_gossip_ips d)"
    proof
      assume "i \<in> snd ` set (f_gossip_ips d)"
      then obtain a where "(a, i) \<in> set (f_gossip_ips d)" by auto
      then have "map_find (f_gossip_ips d) a = Some i"
        using gossip_map_ok [OF assms] by (simp add: map_find_Some_iff)
      from gossip_entry(2) [OF assms this] i(2) show False by (auto simp: tellable_def is_service_kind_def)
    qed
    with i(1) g have "i \<in> set (connections ?d1)" by simp
    then have "Sent i (going_down ?d1 q) \<in> set (new_log ?d1 ?d2)"
      using c t(1) i(2) by (intro stop_loop_tells) auto
    then show ?thesis unfolding t out .
  qed
qed

section \<open>One daemon\<close>

definition shutdown_message :: "message \<Rightarrow> bool" where
  "shutdown_message m \<longleftrightarrow> m_command m = ''SHUTDOWN'' \<and> m_server m = [] \<and> m_service m = [] \<and>
     \<not> has_parameter m ''broadcast_msgid''"

lemma shutdown_going_down [simp]: "shutdown_message (going_down d True)"
  by (simp add: shutdown_message_def going_down_def)

lemma tellable_own_name: "tellable q (upd_conn j (\<lambda>c. c\<lparr>f_own_server_name := s\<rparr>) d) i = tellable q d i"
  by (simp add: tellable_def verify_command_def going_down_def upd_conn_def understand_command_def has_commands_def)

text \<open>A daemon that gets SHUTDOWN over one of its connections.\<close>

lemma receive_shutdown:
  assumes "daemon_inv d" and "\<not> f_shutdown d" and "shutdown_message m" and "c_kind (obj d i) \<in> {Service_conn, Remote_conn}"
    and d'_def: "d' = receive L other i m d"
  shows "f_shutdown d'" "next_id d \<le> next_id d'" "says True d UNIV d'"
    "\<And>j. j \<in> set (connections d) \<Longrightarrow> tellable True d j \<Longrightarrow> Sent j (going_down d True) \<in> set (new_log d d')"
proof -
  obtain s where e: "d' = stop L True (if s = None then d else upd_conn i (\<lambda>c. c\<lparr>f_own_server_name := the s\<rparr>) d)"
  proof (cases "c_kind (obj d i) = Service_conn")
    case True
    then have "d' = stop L True d"
      using assms(2,3)
      by (simp add: d'_def receive_def service_process_message_def dispatch_own shutdown_message_def handler_of_def
          msg_shutdown_def has_parameter_def)
    then show thesis by (intro that [of None]) simp
  next
    case False
    then show thesis
      using assms(2-4)
      by (intro that [of "if f_own_server_name (obj d i) = [] then Some (m_from_server m) else None"])
        (simp add: d'_def receive_def remote_process_message_def Let_def dispatch_own shutdown_message_def handler_of_def
          msg_shutdown_def has_parameter_def upd_conn_def)
  qed
  let ?d = "if s = None then d else upd_conn i (\<lambda>c. c\<lparr>f_own_server_name := the s\<rparr>) d"
  have inv: "daemon_inv ?d" using assms(1) by (auto intro: upd_conn_inv)
  have t: "tellable True ?d j = tellable True d j" "going_down ?d True = going_down d True" "next_id ?d = next_id d"
    "connections ?d = connections d" "out ?d = out d" for j
    using tellable_own_name [of True i "the s" d j] by (auto simp: going_down_def upd_conn_def)
  show "f_shutdown d'" "next_id d \<le> next_id d'" using stop_says(1,2) [OF inv, of L True] unfolding e t by auto
  show "says True d UNIV d'" using stop_says(4) [OF inv, of True L] unfolding e says_def t .
  show "Sent j (going_down d True) \<in> set (new_log d d')" if "j \<in> set (connections d)" "tellable True d j" for j
    using stop_says(5) [OF inv, of j True L] that unfolding e t by blast
qed

text \<open>A daemon that is stopping answers at most once and then the connection is closed.\<close>

lemma remove_connection_lists:
  "next_id d \<le> next_id (remove_connection L i d)" "f_shutdown (remove_connection L i d) = f_shutdown d"
  "set (connections (remove_connection L i d)) \<subseteq> (set (connections d) - {i}) \<union> {next_id d}"
  by (auto simp: remove_connection_def connection_removed_def connection_lost_def unlist_connection_def
      new_object_def add_connection_def Let_def)

lemma receive_stopping:
  assumes "f_shutdown d" and "\<not> has_parameter m ''broadcast_msgid''"
    and d'_def: "d' = receive L other i m d"
  shows "f_shutdown d'" "next_id d \<le> next_id d'"
    "\<And>j. j < next_id d \<Longrightarrow> j \<in> set (connections d') \<Longrightarrow> j \<in> set (connections d)"
    "out d' = out d \<or> out d' = out d @ [Sent i (daemon_message (f_server_name d) ''QUITTING'')] \<and>
       (i < next_id d \<longrightarrow> i \<notin> set (connections d'))"
proof -
  let ?reply = "Sent i (daemon_message (f_server_name d) ''QUITTING'')"
  have stopping: "\<exists>e. res_state (dispatch_message L other msg d1) = e \<and> (e = d1 \<or>
      (\<exists>es. es \<in> {[], [?reply]} \<and> e = remove_connection L i (d1\<lparr>out := out d1 @ es\<rparr>)))"
    if "f_shutdown d1" "f_server_name d1 = f_server_name d" "m_user_data msg = Some i" "\<not> has_parameter msg ''broadcast_msgid''" for msg d1
    using that
    by (auto simp: dispatch_message_def check_broadcast_message_def shutting_down_def Let_def send_to_eq)
  have "\<exists>d1 es. d' = d \<or> (connections d1 = connections d \<and> next_id d1 = next_id d \<and> out d1 = out d \<and> f_shutdown d1 \<and>
      (d' = d1 \<or> es \<in> {[], [?reply]} \<and> d' = remove_connection L i (d1\<lparr>out := out d1 @ es\<rparr>)))"
  proof (cases "c_kind (obj d i)")
    case Service_conn
    let ?m = "(sent_from (obj d i) m)\<lparr>m_user_data := Some i\<rparr>"
    have "d' = res_state (dispatch_message L other ?m d)"
      using Service_conn by (simp add: d'_def receive_def service_process_message_def)
    with stopping [of d ?m] assms(1,2) show ?thesis by (auto simp: has_parameter_def)
  next
    case Remote_conn
    let ?m = "m\<lparr>m_user_data := Some i\<rparr>"
    let ?d = "if f_own_server_name (obj d i) = [] then upd_conn i (\<lambda>c. c\<lparr>f_own_server_name := m_from_server m\<rparr>) d else d"
    have d: "d' = res_state (dispatch_message L other ?m ?d)"
      using Remote_conn by (simp add: d'_def receive_def remote_process_message_def Let_def)
    have f: "connections ?d = connections d" "next_id ?d = next_id d" "out ?d = out d" "f_shutdown ?d" "f_server_name ?d = f_server_name d"
      using assms(1) by (simp_all add: upd_conn_def)
    have "\<not> has_parameter ?m ''broadcast_msgid''" "m_user_data ?m = Some i" using assms(2) by (simp_all add: has_parameter_def)
    from stopping [OF f(4,5) this(2,1)] d
    have "\<exists>es. d' = ?d \<or> es \<in> {[], [?reply]} \<and> d' = remove_connection L i (?d\<lparr>out := out ?d @ es\<rparr>)" by blast
    with f(1-4) show ?thesis by blast
  qed (auto simp: d'_def receive_def)
  then obtain d1 es where o: "d' = d \<or> (connections d1 = connections d \<and> next_id d1 = next_id d \<and> out d1 = out d \<and> f_shutdown d1 \<and>
      (d' = d1 \<or> es \<in> {[], [?reply]} \<and> d' = remove_connection L i (d1\<lparr>out := out d1 @ es\<rparr>)))" by blast
  note r = remove_connection_lists [where d = "d1\<lparr>out := out d1 @ es\<rparr>" and L = L and i = i]
  show "f_shutdown d'" "next_id d \<le> next_id d'" using o r(1,2) assms(1) by auto
  show "j \<in> set (connections d)" if "j < next_id d" "j \<in> set (connections d')" for j using o r(3) that by auto
  show "out d' = out d \<or> out d' = out d @ [?reply] \<and> (i < next_id d \<longrightarrow> i \<notin> set (connections d'))"
    using o r(3) by auto
qed

section \<open>The network\<close>

definition passed :: "links \<Rightarrow> nat \<Rightarrow> 'a event list \<Rightarrow> packet multiset" where
  "passed links n es =
     mset (concat (map (\<lambda>(i, m). case links n i of None \<Rightarrow> [] | Some (n', j) \<Rightarrow> [(n', j, m)]) (sent_messages es)))"

lemma passed_iff: "(n', j, m) \<in># passed links n es \<longleftrightarrow> (\<exists>i. Sent i m \<in> set es \<and> links n i = Some (n', j))"
  by (force simp: passed_def sent_messages_iff [symmetric] split: option.splits)

text \<open>A message arrives, at any later time, or is lost because its connection was closed.\<close>

inductive pass :: "('a::linorder, 'z) lib_scheme \<Rightarrow> 'a dispatcher \<Rightarrow> links \<Rightarrow> 'a network \<Rightarrow> 'a network \<Rightarrow> bool"
  for L other links where
  arrives: "\<lbrakk>(n, i, m) \<in># wire w; i \<in> set (connections (nodes w n)); now (nodes w n) \<le> t; d = (nodes w n)\<lparr>now := t\<rparr>;
      d' = receive L other i m d\<rbrakk> \<Longrightarrow>
     pass L other links w
       \<lparr>nodes = (nodes w)(n := d'), wire = wire w - {#(n, i, m)#} + passed links n (new_log d d')\<rparr>"
| lost: "\<lbrakk>(n, i, m) \<in># wire w; i \<notin> set (connections (nodes w n))\<rbrakk> \<Longrightarrow>
     pass L other links w \<lparr>nodes = nodes w, wire = wire w - {#(n, i, m)#}\<rparr>"

inductive_cases passE: "pass L other links w w'"

text \<open>
  Daemons in a good state that are linked to each other, and one SHUTDOWN on its way to the daemon \<open>n0\<close>, over the
  connection \<open>i0\<close> of a tool of the administrator.
\<close>

definition shutdown_start :: "links \<Rightarrow> nat \<Rightarrow> nat \<Rightarrow> cid \<Rightarrow> 'a::linorder network \<Rightarrow> bool" where
  "shutdown_start links N n0 i0 w \<longleftrightarrow>
     (\<forall>n i n' j. links n i = Some (n', j) \<longrightarrow> n < N \<and> n' < N \<and> links n' j = Some (n, i) \<and>
        i \<in> set (connections (nodes w n)) \<and> tellable True (nodes w n) i \<and>
        c_kind (obj (nodes w n) i) \<in> {Service_conn, Remote_conn}) \<and>
     (\<forall>n < N. daemon_inv (nodes w n) \<and> \<not> f_shutdown (nodes w n)) \<and>
     n0 < N \<and> links n0 i0 = None \<and> i0 \<in> set (connections (nodes w n0)) \<and> c_kind (obj (nodes w n0) i0) = Service_conn \<and>
     (\<exists>m. wire w = {#(n0, i0, m)#} \<and> shutdown_message m)"

text \<open>
  What holds while the message spreads: a daemon that is not stopping is as it was; a daemon that is stopping has told
  those it is linked to, or the message is on its way; a daemon that is not stopping gets nothing but
  SHUTDOWN, from daemons that are stopping.
\<close>

definition spread_inv :: "links \<Rightarrow> nat \<Rightarrow> cid \<Rightarrow> 'a network \<Rightarrow> 'a network \<Rightarrow> bool" where
  "spread_inv links n0 i0 w0 w \<longleftrightarrow>
     (\<forall>n. f_shutdown (nodes w n) \<or> nodes w n = nodes w0 n) \<and>
     (\<forall>n. next_id (nodes w0 n) \<le> next_id (nodes w n)) \<and>
     (\<forall>n i n' j. f_shutdown (nodes w n) \<longrightarrow> links n i = Some (n', j) \<longrightarrow>
        f_shutdown (nodes w n') \<or> (\<exists>m. (n', j, m) \<in># wire w \<and> shutdown_message m)) \<and>
     (\<forall>n i m. (n, i, m) \<in># wire w \<longrightarrow> \<not> has_parameter m ''broadcast_msgid'' \<and>
        (f_shutdown (nodes w n) \<or> shutdown_message m) \<and> (links n i \<noteq> None \<or> n = n0 \<and> i = i0) \<and>
        (\<forall>p j. links n i = Some (p, j) \<longrightarrow> f_shutdown (nodes w p))) \<and>
     (f_shutdown (nodes w n0) \<or> (\<exists>m. (n0, i0, m) \<in># wire w \<and> shutdown_message m))"

text \<open>Daemons that are not stopping, then connections that are open, then messages.\<close>

definition open_conns :: "nat \<Rightarrow> 'a network \<Rightarrow> 'a network \<Rightarrow> (nat \<times> cid) set" where
  "open_conns N w0 w = {(n, i). n < N \<and> i < next_id (nodes w0 n) \<and> i \<in> set (connections (nodes w n))}"

definition spread_measure :: "nat \<Rightarrow> 'a network \<Rightarrow> 'a network \<Rightarrow> nat \<times> nat \<times> nat" where
  "spread_measure N w0 w =
     (card {n. n < N \<and> \<not> f_shutdown (nodes w n)}, card (open_conns N w0 w), size (wire w))"

abbreviation spread_less :: "((nat \<times> nat \<times> nat) \<times> nat \<times> nat \<times> nat) set" where
  "spread_less \<equiv> less_than <*lex*> less_than <*lex*> less_than"

lemma finite_open_conns: "finite (open_conns N w0 w)"
  by (rule finite_subset [of _ "\<Union>n < N. {n} \<times> set (connections (nodes w n))"]) (auto simp: open_conns_def)

lemma shutdown_startD:
  assumes "shutdown_start links N n0 i0 w"
  shows "links n i = Some (n', j) \<Longrightarrow> n < N \<and> n' < N \<and> links n' j = Some (n, i)"
    "links n i \<noteq> None \<Longrightarrow> i \<in> set (connections (nodes w n)) \<and> tellable True (nodes w n) i \<and>
        c_kind (obj (nodes w n) i) \<in> {Service_conn, Remote_conn}"
    "n < N \<Longrightarrow> daemon_inv (nodes w n) \<and> \<not> f_shutdown (nodes w n)"
    "n0 < N \<and> links n0 i0 = None \<and> i0 \<in> set (connections (nodes w n0)) \<and> c_kind (obj (nodes w n0) i0) = Service_conn"
    "\<exists>m. wire w = {#(n0, i0, m)#} \<and> shutdown_message m"
proof -
  note st = assms [unfolded shutdown_start_def]
  note links = st [THEN conjunct1, rule_format] and good = st [THEN conjunct2, THEN conjunct1, rule_format]
    and first = st [THEN conjunct2, THEN conjunct2]
  show "links n i = Some (n', j) \<Longrightarrow> n < N \<and> n' < N \<and> links n' j = Some (n, i)" using links [of n i n' j] by simp
  show "i \<in> set (connections (nodes w n)) \<and> tellable True (nodes w n) i \<and>
        c_kind (obj (nodes w n) i) \<in> {Service_conn, Remote_conn}" if some: "links n i \<noteq> None"
  proof -
    obtain n' j where "links n i = Some (n', j)" using some by fast
    with links [of n i n' j] show ?thesis by simp
  qed
  show "n < N \<Longrightarrow> daemon_inv (nodes w n) \<and> \<not> f_shutdown (nodes w n)" by (rule good)
  show "n0 < N \<and> links n0 i0 = None \<and> i0 \<in> set (connections (nodes w n0)) \<and> c_kind (obj (nodes w n0) i0) = Service_conn"
    "\<exists>m. wire w = {#(n0, i0, m)#} \<and> shutdown_message m"
    using first by simp_all
qed

lemma spread_invD:
  assumes "spread_inv links n0 i0 w0 w"
  shows "f_shutdown (nodes w n) \<or> nodes w n = nodes w0 n" "next_id (nodes w0 n) \<le> next_id (nodes w n)"
    "f_shutdown (nodes w n) \<Longrightarrow> links n i = Some (n', j) \<Longrightarrow>
       f_shutdown (nodes w n') \<or> (\<exists>m. (n', j, m) \<in># wire w \<and> shutdown_message m)"
    "(n, i, m) \<in># wire w \<Longrightarrow> \<not> has_parameter m ''broadcast_msgid''"
    "(n, i, m) \<in># wire w \<Longrightarrow> f_shutdown (nodes w n) \<or> shutdown_message m"
    "(n, i, m) \<in># wire w \<Longrightarrow> links n i \<noteq> None \<or> n = n0 \<and> i = i0"
    "(n, i, m) \<in># wire w \<Longrightarrow> links n i = Some (p, j) \<Longrightarrow> f_shutdown (nodes w p)"
    "f_shutdown (nodes w n0) \<or> (\<exists>m. (n0, i0, m) \<in># wire w \<and> shutdown_message m)"
  using assms unfolding spread_inv_def by blast+

lemma spread_start:
  assumes "shutdown_start links N n0 i0 w" shows "spread_inv links n0 i0 w w"
proof -
  obtain m where m: "wire w = {#(n0, i0, m)#}" "shutdown_message m" using shutdown_startD(5) [OF assms] by blast
  have "\<not> f_shutdown (nodes w n)" if "links n i = Some (n', j)" for n i n' j
    using shutdown_startD(1,3) [OF assms] that by blast
  then show ?thesis
    using m shutdown_startD(4) [OF assms] by (auto simp: spread_inv_def shutdown_message_def)
qed

text \<open>The connection a message arrives over was open in the beginning, on a daemon of the cluster.\<close>

lemma arrival_connection:
  assumes "shutdown_start links N n0 i0 w0" and "spread_inv links n0 i0 w0 w" and "(n, i, m) \<in># wire w"
  shows "n < N" "i \<in> set (connections (nodes w0 n))" "i < next_id (nodes w0 n)"
    "c_kind (obj (nodes w0 n) i) \<in> {Service_conn, Remote_conn}"
proof -
  note st = shutdown_startD [OF assms(1)]
  show c: "n < N" "i \<in> set (connections (nodes w0 n))" "c_kind (obj (nodes w0 n) i) \<in> {Service_conn, Remote_conn}"
    using spread_invD(6) [OF assms(2,3)] st(1,2) [of n i] st(4) by auto
  then have "daemon_inv (nodes w0 n)" using st(3) by blast
  with c(2) show "i < next_id (nodes w0 n)" by (simp add: daemon_inv_def rc_inv_defs)
qed

lemma step_lost:
  assumes "shutdown_start links N n0 i0 w0" and "spread_inv links n0 i0 w0 w" and p: "(n, i, m) \<in># wire w"
    and "i \<notin> set (connections (nodes w n))"
  defines "w' \<equiv> \<lparr>nodes = nodes w, wire = wire w - {#(n, i, m)#}\<rparr>"
  shows "spread_inv links n0 i0 w0 w'" "(spread_measure N w0 w', spread_measure N w0 w) \<in> spread_less"
proof -
  note inv = spread_invD [OF assms(2)]
  have s: "f_shutdown (nodes w n)" using arrival_connection(2) [OF assms(1-3)] assms(4) inv(1) [of n] by metis
  have sub: "q \<in># wire w' \<Longrightarrow> q \<in># wire w" for q by (auto simp: w'_def dest: in_diffD)
  have keep: "(k, j, x) \<in># wire w \<Longrightarrow> f_shutdown (nodes w k) \<or> (k, j, x) \<in># wire w'" for k j x
    using s by (cases "k = n") (auto simp: w'_def in_diff_count)
  have n: "nodes w' = nodes w" by (simp add: w'_def)
  show "spread_inv links n0 i0 w0 w'"
    unfolding spread_inv_def n
  proof (intro conjI allI impI)
    show "f_shutdown (nodes w n') \<or> (\<exists>m. (n', j, m) \<in># wire w' \<and> shutdown_message m)"
      if "f_shutdown (nodes w k)" "links k i = Some (n', j)" for k i n' j
      using inv(3) [OF that] keep by blast
    show "f_shutdown (nodes w n0) \<or> (\<exists>m. (n0, i0, m) \<in># wire w' \<and> shutdown_message m)" using inv(8) keep by blast
  qed (use inv(1,2) inv(4-7) [OF sub] in \<open>blast+\<close>)
  have "size (wire w') < size (wire w)" using p by (simp add: w'_def size_Diff1_less)
  moreover have "open_conns N w0 w' = open_conns N w0 w" by (simp add: open_conns_def w'_def)
  ultimately show "(spread_measure N w0 w', spread_measure N w0 w) \<in> spread_less" by (simp add: spread_measure_def n)
qed

text \<open>The message arrives at a daemon that is not stopping yet.\<close>

lemma clock_inv_daemon: "daemon_inv d \<Longrightarrow> daemon_inv (d\<lparr>now := t\<rparr>)"
  by (auto intro: inv_view_keep)

lemma step_first:
  assumes "shutdown_start links N n0 i0 w0" and "spread_inv links n0 i0 w0 w" and p: "(n, i, m) \<in># wire w"
    and "\<not> f_shutdown (nodes w n)" and d: "d = (nodes w n)\<lparr>now := t\<rparr>" and d': "d' = receive L other i m d"
    and w': "w' = \<lparr>nodes = (nodes w)(n := d'), wire = wire w - {#(n, i, m)#} + passed links n (new_log d d')\<rparr>"
  shows "spread_inv links n0 i0 w0 w'" "(spread_measure N w0 w', spread_measure N w0 w) \<in> spread_less"
proof -
  note inv = spread_invD [OF assms(2)] and st = shutdown_startD [OF assms(1)]
  have same: "nodes w n = nodes w0 n" using inv(1) [of n] assms(4) by blast
  have msg: "shutdown_message m" using inv(5) [OF p] assms(4) by blast
  note c = arrival_connection [OF assms(1,2) p]
  have good: "daemon_inv d" "\<not> f_shutdown d" "c_kind (obj d i) \<in> {Service_conn, Remote_conn}"
    using st(3) [OF c(1)] c(4) by (simp_all add: d same clock_inv_daemon)
  note r = receive_shutdown [OF good(1,2) msg good(3) d']
  have tell: "tellable True d j = tellable True (nodes w0 n) j" "going_down d True = going_down (nodes w0 n) True" for j
    by (simp_all add: d same tellable_def verify_command_def going_down_def)
  obtain es where es: "new_log d d' = es" "\<And>j x. Sent j x \<in> set es \<Longrightarrow> tellable True d j \<Longrightarrow> x = going_down d True"
    using r(3) unfolding says_def using new_log_append by metis
  let ?new = "passed links n (new_log d d')"
  have new: "shutdown_message x \<and> links n' j \<noteq> None \<and> (\<forall>q k. links n' j = Some (q, k) \<longrightarrow> q = n)"
    if x: "(n', j, x) \<in># ?new" for n' j x
  proof -
    obtain k where k: "Sent k x \<in> set es" "links n k = Some (n', j)" using x by (auto simp: passed_iff es(1))
    then have "tellable True d k" using st(2) [of n k] tell(1) by simp
    with es(2) [OF k(1)] have "x = going_down d True" by blast
    with st(1) [OF k(2)] show ?thesis by auto
  qed
  have told: "(n', j, going_down d True) \<in># ?new" if "links n k = Some (n', j)" for k n' j
  proof -
    have "k \<in> set (connections d)" "tellable True d k" using st(2) [of n k] that tell(1) by (simp_all add: d same)
    from r(4) [OF this] that show ?thesis by (auto simp: passed_iff)
  qed
  have down: "f_shutdown (nodes w' k) \<longleftrightarrow> k = n \<or> f_shutdown (nodes w k)" for k using r(1) by (simp add: w')
  have keep: "(k, j, x) \<in># wire w \<Longrightarrow> k = n \<or> (k, j, x) \<in># wire w'" for k j x
    by (cases "k = n") (auto simp: w' in_diff_count)
  have sub: "q \<in># wire w \<or> q \<in># ?new" if "q \<in># wire w'" for q using that by (auto simp: w' dest: in_diffD)
  show "spread_inv links n0 i0 w0 w'"
    unfolding spread_inv_def down
  proof (intro conjI allI impI)
    show "(k = n \<or> f_shutdown (nodes w k)) \<or> nodes w' k = nodes w0 k" for k using inv(1) [of k] by (auto simp: w')
    show "next_id (nodes w0 k) \<le> next_id (nodes w' k)" for k using inv(2) [of k] r(2) by (auto simp: w' d)
    show "(n' = n \<or> f_shutdown (nodes w n')) \<or> (\<exists>m. (n', j, m) \<in># wire w' \<and> shutdown_message m)"
      if "k = n \<or> f_shutdown (nodes w k)" "links k i = Some (n', j)" for k i n' j
    proof (cases "k = n")
      case True
      with told [of i n' j] that have "(n', j, going_down d True) \<in># wire w'" by (simp add: w')
      then show ?thesis using shutdown_going_down by blast
    next
      case False
      with that inv(3) keep show ?thesis by blast
    qed
    show "(n0 = n \<or> f_shutdown (nodes w n0)) \<or> (\<exists>m. (n0, i0, m) \<in># wire w' \<and> shutdown_message m)"
      using inv(8) keep by blast
    fix k j x assume "(k, j, x) \<in># wire w'"
    then consider "(k, j, x) \<in># wire w" | "(k, j, x) \<in># ?new" using sub by blast
    then show "\<not> has_parameter x ''broadcast_msgid''" "(k = n \<or> f_shutdown (nodes w k)) \<or> shutdown_message x"
      "links k j \<noteq> None \<or> k = n0 \<and> j = i0" "\<And>p l. links k j = Some (p, l) \<Longrightarrow> p = n \<or> f_shutdown (nodes w p)"
      using inv(4-7) new by (cases; auto simp: shutdown_message_def)+
  qed
  have "{k. k < N \<and> \<not> f_shutdown (nodes w' k)} \<subset> {k. k < N \<and> \<not> f_shutdown (nodes w k)}"
    unfolding down using c(1) assms(4) by blast
  then have "card {k. k < N \<and> \<not> f_shutdown (nodes w' k)} < card {k. k < N \<and> \<not> f_shutdown (nodes w k)}"
    by (intro psubset_card_mono) simp_all
  then show "(spread_measure N w0 w', spread_measure N w0 w) \<in> spread_less" by (simp add: spread_measure_def)
qed

text \<open>A message arrives at a daemon that is stopping.\<close>

lemma step_answer:
  assumes "shutdown_start links N n0 i0 w0" and "spread_inv links n0 i0 w0 w" and p: "(n, i, m) \<in># wire w"
    and "f_shutdown (nodes w n)" and "i \<in> set (connections (nodes w n))"
    and d: "d = (nodes w n)\<lparr>now := t\<rparr>" and d': "d' = receive L other i m d"
    and w': "w' = \<lparr>nodes = (nodes w)(n := d'), wire = wire w - {#(n, i, m)#} + passed links n (new_log d d')\<rparr>"
  shows "spread_inv links n0 i0 w0 w'" "(spread_measure N w0 w', spread_measure N w0 w) \<in> spread_less"
proof -
  note inv = spread_invD [OF assms(2)] and st = shutdown_startD [OF assms(1)]
  note c = arrival_connection [OF assms(1,2) p]
  have "f_shutdown d" using assms(4) by (simp add: d)
  note r = receive_stopping [OF this inv(4) [OF p] d']
  let ?new = "passed links n (new_log d d')"
  have new: "\<not> has_parameter x ''broadcast_msgid'' \<and> f_shutdown (nodes w n') \<and> links n' j = Some (n, i)"
    if x: "(n', j, x) \<in># ?new" for n' j x
  proof -
    from x obtain k where k: "Sent k x \<in> set (new_log d d')" "links n k = Some (n', j)" by (auto simp: passed_iff)
    with r(4) have "k = i" "x = daemon_message (f_server_name d) ''QUITTING''" by auto
    with inv(7) [OF p] k(2) st(1) [OF k(2)] show ?thesis by auto
  qed
  have down: "f_shutdown (nodes w' k) = f_shutdown (nodes w k)" for k using r(1) assms(4) by (simp add: w')
  have keep: "(k, j, x) \<in># wire w \<Longrightarrow> f_shutdown (nodes w k) \<or> (k, j, x) \<in># wire w'" for k j x
    using assms(4) by (cases "k = n") (auto simp: w' in_diff_count)
  have sub: "q \<in># wire w \<or> q \<in># ?new" if "q \<in># wire w'" for q using that by (auto simp: w' dest: in_diffD)
  show "spread_inv links n0 i0 w0 w'"
    unfolding spread_inv_def down
  proof (intro conjI allI impI)
    show "f_shutdown (nodes w k) \<or> nodes w' k = nodes w0 k" for k using inv(1) [of k] assms(4) by (auto simp: w')
    show "next_id (nodes w0 k) \<le> next_id (nodes w' k)" for k using inv(2) [of k] r(2) by (auto simp: w' d)
    show "f_shutdown (nodes w n') \<or> (\<exists>m. (n', j, m) \<in># wire w' \<and> shutdown_message m)"
      if "f_shutdown (nodes w k)" "links k l = Some (n', j)" for k l n' j
      using inv(3) [OF that] keep by blast
    show "f_shutdown (nodes w n0) \<or> (\<exists>m. (n0, i0, m) \<in># wire w' \<and> shutdown_message m)" using inv(8) keep by blast
    fix k j x assume "(k, j, x) \<in># wire w'"
    then consider "(k, j, x) \<in># wire w" | "(k, j, x) \<in># ?new" using sub by blast
    then show "\<not> has_parameter x ''broadcast_msgid''" "f_shutdown (nodes w k) \<or> shutdown_message x"
      "links k j \<noteq> None \<or> k = n0 \<and> j = i0" "\<And>p l. links k j = Some (p, l) \<Longrightarrow> f_shutdown (nodes w p)"
      using inv(4-7) new assms(4) by (cases; auto)+
  qed
  have cards: "{k. k < N \<and> \<not> f_shutdown (nodes w' k)} = {k. k < N \<and> \<not> f_shutdown (nodes w k)}" by (simp add: down)
  have n: "next_id (nodes w0 n) \<le> next_id d" using inv(2) [of n] by (simp add: d)
  have open_sub: "open_conns N w0 w' \<subseteq> open_conns N w0 w"
    using r(3) n by (auto simp: open_conns_def w' d split: if_splits)
  then have le: "card (open_conns N w0 w') \<le> card (open_conns N w0 w)" by (rule card_mono [OF finite_open_conns])
  show "(spread_measure N w0 w', spread_measure N w0 w) \<in> spread_less"
  proof (cases "out d' = out d")
    case True
    then have "wire w' = wire w - {#(n, i, m)#}" by (simp add: w' passed_def)
    then have "size (wire w') < size (wire w)" using p by (simp add: size_Diff1_less)
    with le show ?thesis by (auto simp: spread_measure_def cards)
  next
    case False
    with r(4) n c(3) have "i \<notin> set (connections d')" by auto
    then have "(n, i) \<notin> open_conns N w0 w'" by (simp add: open_conns_def w')
    moreover have "(n, i) \<in> open_conns N w0 w" using c(1,3) assms(5) by (simp add: open_conns_def)
    ultimately have "open_conns N w0 w' \<subset> open_conns N w0 w" using open_sub by blast
    then have "card (open_conns N w0 w') < card (open_conns N w0 w)" by (rule psubset_card_mono [OF finite_open_conns])
    then show ?thesis by (simp add: spread_measure_def cards)
  qed
qed

lemma pass_step:
  assumes "shutdown_start links N n0 i0 w0" and "spread_inv links n0 i0 w0 w" and "pass L other links w w'"
  shows "spread_inv links n0 i0 w0 w'" "(spread_measure N w0 w', spread_measure N w0 w) \<in> spread_less"
proof -
  from assms(3) have "spread_inv links n0 i0 w0 w' \<and> (spread_measure N w0 w', spread_measure N w0 w) \<in> spread_less"
  proof (cases rule: pass.cases)
    case (arrives n i m t d d')
    show ?thesis
      using step_first [OF assms(1,2) arrives(2) _ arrives(5,6,1)] step_answer [OF assms(1,2) arrives(2) _ arrives(3,5,6,1)]
      by (cases "f_shutdown (nodes w n)") simp_all
  next
    case (lost n i m)
    show ?thesis unfolding lost(1) using step_lost [OF assms(1,2) lost(2,3)] by blast
  qed
  then show "spread_inv links n0 i0 w0 w'" "(spread_measure N w0 w', spread_measure N w0 w) \<in> spread_less" by simp_all
qed

interpretation sp: invariant_machine "\<lambda>w. shutdown_start links N n0 i0 w0 \<and> w = w0" "pass L other links"
    "\<lambda>w. shutdown_start links N n0 i0 w0 \<and> spread_inv links n0 i0 w0 w" for L other links N n0 i0 w0
  by unfold_locales (auto intro: spread_start pass_step(1))

lemma pass_enabled: "p \<in># wire w \<Longrightarrow> \<exists>w'. pass L other links w w'"
  by (cases p) (blast intro: pass.intros)

lemma quiescent_reached:
  assumes "spread_inv links n0 i0 w0 w" and "wire w = {#}" and "(n0, n) \<in> {(n, n'). \<exists>i j. links n i = Some (n', j)}\<^sup>*"
  shows "f_shutdown (nodes w n)"
  using assms(3)
proof induction
  case base
  show ?case using spread_invD(8) [OF assms(1)] assms(2) by simp
next
  case (step k n')
  then show ?case using spread_invD(3) [OF assms(1), of k] assms(2) by auto
qed

text \<open>
  C6: SHUTDOWN takes the whole cluster down. However the daemons are linked and in whatever order the messages
  arrive, the exchange that one SHUTDOWN starts comes to an end, and then every daemon that is linked to the first
  one, directly or through others, is shutting down.
\<close>

theorem shutdown_spreads:
  assumes "shutdown_start links N n0 i0 w0" and "(n0, n) \<in> {(n, n'). \<exists>i j. links n i = Some (n', j)}\<^sup>*"
  shows "\<not> (\<exists>f. f 0 = w0 \<and> (\<forall>k. pass L other links (f k) (f (Suc k)))) \<and>
    \<not> (\<exists>w. (pass L other links)\<^sup>*\<^sup>* w0 w \<and> \<not> (\<exists>w'. pass L other links w w') \<and> \<not> f_shutdown (nodes w n))"
proof
  show "\<not> (\<exists>f. f 0 = w0 \<and> (\<forall>k. pass L other links (f k) (f (Suc k))))"
  proof
    assume "\<exists>f. f 0 = w0 \<and> (\<forall>k. pass L other links (f k) (f (Suc k)))"
    then obtain f where f: "f 0 = w0" "\<And>k. pass L other links (f k) (f (Suc k))" by blast
    have inv: "spread_inv links n0 i0 w0 (f k)" for k
      by (induction k) (use f assms(1) in \<open>auto intro: spread_start pass_step(1)\<close>)
    have "(spread_measure N w0 (f (Suc k)), spread_measure N w0 (f k)) \<in> spread_less" for k
      using pass_step(2) [OF assms(1) inv f(2)] .
    then have "\<exists>g. \<forall>k. (g (Suc k), g k) \<in> spread_less" by (intro exI [of _ "\<lambda>k. spread_measure N w0 (f k)"]) simp
    moreover have "wf spread_less" by blast
    ultimately show False unfolding wf_iff_no_infinite_down_chain by blast
  qed
  show "\<not> (\<exists>w. (pass L other links)\<^sup>*\<^sup>* w0 w \<and> \<not> (\<exists>w'. pass L other links w w') \<and> \<not> f_shutdown (nodes w n))"
    using sp.inv_run [of links N n0 i0 w0 w0 L other] quiescent_reached [OF _ _ assms(2)] assms(1) pass_enabled
    by (metis multiset_nonemptyE)
qed

section \<open>An example\<close>

text \<open>The daemon at 10 is connected to the one at 5 and gets SHUTDOWN from a tool.\<close>

definition sample_upper :: "int daemon" where
  "sample_upper = listener_process_accept sample_lib
     \<lparr>l_local = True, l_server_name = ''alpha'', l_username = [], l_password = []\<rparr> (Some (0, 0, 7)) (sample_linked 10 ''5'')"

definition sample_lower :: "int daemon" where
  "sample_lower = upd_conn 0 (set_connection_type Remote_type) (listener_process_accept sample_lib
     \<lparr>l_local = False, l_server_name = ''beta'', l_username = [], l_password = []\<rparr> (Some (10, 0, 3))
     ((sample_daemon [])\<lparr>f_connection_address := 5\<rparr>))"

definition sample_pair :: links where
  "sample_pair n i = (if (n, i) = (0, 0) then Some (1, 0) else if (n, i) = (1, 0) then Some (0, 0) else None)"

definition sample_cluster_down :: "int network" where
  "sample_cluster_down = \<lparr>nodes = (\<lambda>n. if n = 0 then sample_upper else sample_lower),
     wire = {#(0, 1, daemon_message ''tool'' ''SHUTDOWN'')#}\<rparr>"

lemma sample_pair_inv: "daemon_inv sample_upper" "daemon_inv sample_lower"
proof -
  show "daemon_inv sample_upper"
    unfolding sample_upper_def
    by (rule daemon_step_inv [OF daemon_step.accept reachable_inv [OF sample_linked_reachable no_other_keeps] no_other_keeps])
  have "initial_daemon ((sample_daemon [])\<lparr>f_connection_address := 5\<rparr>)"
    by (auto simp: initial_daemon_def sample_daemon_def own_ok_def own_connections_def)
  then show "daemon_inv sample_lower"
    unfolding sample_lower_def
    by (intro upd_conn_inv daemon_step_inv [OF daemon_step.accept _ no_other_keeps] initial_daemon_inv) simp_all
qed

lemma sample_cluster_down_start: "shutdown_start sample_pair 2 0 1 sample_cluster_down"
proof -
  have f: "0 \<in> set (connections sample_upper)" "1 \<in> set (connections sample_upper)" "0 \<in> set (connections sample_lower)"
    "c_kind (obj sample_upper 0) = Remote_conn" "c_kind (obj sample_upper 1) = Service_conn"
    "c_kind (obj sample_lower 0) = Service_conn" "tellable True sample_lower 0"
    "\<not> f_shutdown sample_upper" "\<not> f_shutdown sample_lower"
    by code_simp+
  show ?thesis
    using f sample_pair_inv
    by (auto simp: shutdown_start_def sample_cluster_down_def sample_pair_def tellable_def shutdown_message_def split: if_splits)
qed

theorem shutdown_spreads_witness:
  "\<not> (\<exists>w. (pass sample_lib no_other sample_pair)\<^sup>*\<^sup>* sample_cluster_down w \<and>
      \<not> (\<exists>w'. pass sample_lib no_other sample_pair w w') \<and> \<not> f_shutdown (nodes w 1))"
proof -
  have "(0, 1) \<in> {(n, n'). \<exists>i j. sample_pair n i = Some (n', j)}\<^sup>*"
    by (intro r_into_rtrancl) (auto simp: sample_pair_def)
  from shutdown_spreads [OF sample_cluster_down_start this] show ?thesis by blast
qed

end
