(* ===== verification/Subscriptions.thy ===== *)
theory Subscriptions
  imports Daemon_Property
begin

text \<open>
  No operation of the daemon makes a connection want load averages: only the plugin does.  \<open>no_new_wants d0 d\<close>
  compares a later state \<open>d\<close> with \<open>d0\<close>.
\<close>

definition no_new_wants :: "'a daemon \<Rightarrow> 'a daemon \<Rightarrow> bool" where
  "no_new_wants d0 d \<longleftrightarrow> (\<forall>i \<in> set (connections d). f_wants_loadavg (obj d i) \<longrightarrow>
     i \<in> set (connections d0) \<and> f_wants_loadavg (obj d0 i))"

lemma wants_refl [simp]: "no_new_wants d d"
  by (simp add: no_new_wants_def)

lemma no_new_wants_trans: "no_new_wants a b \<Longrightarrow> no_new_wants b c \<Longrightarrow> no_new_wants a c"
  unfolding no_new_wants_def by blast

lemma wants_objects:
  assumes "no_new_wants d0 d" and "\<And>i. f_wants_loadavg (obj d' i) \<Longrightarrow> f_wants_loadavg (obj d i)"
    and "\<And>i. i \<in> set (connections d') \<Longrightarrow> f_wants_loadavg (obj d' i) \<Longrightarrow> i \<in> set (connections d)"
  shows "no_new_wants d0 d'"
  using assms unfolding no_new_wants_def by blast

lemma wants_add_remote: "no_new_wants d0 d \<Longrightarrow> no_new_wants d0 (add_remote_communicator L a d)"
  by (erule wants_objects)
    (auto simp: add_remote_communicator_def remote_connection_object_def connection_lost_def gossip_connection_object_def
      blank_conn_def new_object_def add_connection_def upd_conn_def Let_def split: option.splits if_splits)

interpretation nw: daemon_property "no_new_wants d0" L for d0 L
proof unfold_locales
  show "no_new_wants d0 d'" if "no_new_wants d0 d" "prop_view d' = prop_view d" for d d'
    using that by (simp add: no_new_wants_def prop_view_def)
  show "no_new_wants d0 (forget_remote_connection a d)" if "no_new_wants d0 d" for a d
    using that by (auto simp: no_new_wants_def forget_remote_connection_def unlist_connection_def Let_def split: option.splits)
  show "no_new_wants d0 (add_remote_communicator L a d)" if "no_new_wants d0 d" for a d
    using that by (rule wants_add_remote)
qed (auto simp: no_new_wants_def upd_conn_def unlist_connection_def new_object_def add_connection_def)

definition keeps_wants :: "'a dispatcher \<Rightarrow> bool" where
  "keeps_wants other \<longleftrightarrow> (\<forall>msg d. no_new_wants d (res_state (other msg d)))"

lemma keeps_wants_keeps: "keeps_wants other \<Longrightarrow> keeps (no_new_wants d0) other"
  unfolding keeps_wants_def keeps_def using no_new_wants_trans by blast

lemma replying_keeps_wants: "keeps_wants (replying reply)"
  by (auto simp: keeps_wants_def replying_def daemon_send_message_def no_new_wants_def state_simps
      split: option.split)

lemmas wants_dispatch = nw.kept_dispatch [OF _ keeps_wants_keeps]

lemma daemon_action_wants: "daemon_action L other d d' \<Longrightarrow> keeps_wants other \<Longrightarrow> no_new_wants d d'"
  by (rule nw.action_kept [OF _ wants_refl keeps_wants_keeps])

end
