(* ===== verification/Server.thy ===== *)
theory Server
  imports Subscriptions Check_Clock
begin

text \<open>
  The daemon together with its two plugins.  The plugins add their commands to the table of the dispatcher
  when they are initialised, so a message the daemon has no handler for goes to them (\<open>plugin_dispatch\<close>); the
  timers of the plugins and the commands of the clock are steps of their own.  \<open>server_dispatch_projects\<close> says
  that the plugins are an instance of the argument \<open>other\<close> of \<open>dispatch_message\<close>, so that the properties of
  the daemon hold for the whole server with nothing assumed of its plugins.
\<close>

record ('a, 'b) server =
  s_daemon :: "'a daemon"
  s_loadavg :: "'b loadavg_plugin"
  s_clock :: check_clock

section \<open>Messages\<close>

text \<open>The commands \<open>on_initialize\<close> of the plugins adds to the dispatcher.\<close>

definition loadavg_handler_of :: "('a, 'z) lib_scheme \<Rightarrow> ('a, 'b) loadavg_lib \<Rightarrow> message
    \<Rightarrow> ('a daemon \<times> 'b loadavg_plugin \<Rightarrow> ('a daemon \<times> 'b loadavg_plugin, unit) res) option" where
  "loadavg_handler_of L M msg = map_of
     [(''LISTEN_LOADAVG'', msg_listen_loadavg L msg),
      (''LOADAVG'', \<lambda>(d, p). case msg_save_loadavg L M msg p of Ret _ p' \<Rightarrow> ok (d, p') | Raise e p' \<Rightarrow> Raise e (d, p')),
      (''REGISTER_FOR_LOADAVG'', msg_register_for_loadavg msg),
      (''UNREGISTER_FROM_LOADAVG'', msg_unregister_from_loadavg msg)] (m_command msg)"

definition clock_handler_of :: "('a, 'z) lib_scheme \<Rightarrow> message
    \<Rightarrow> ('a daemon \<times> check_clock \<Rightarrow> 'a daemon \<times> check_clock) option" where
  "clock_handler_of L msg = map_of [(''CLOCK_STATUS'', msg_clock_status L msg)] (m_command msg)"

fun put_res :: "('t \<Rightarrow> 's) \<Rightarrow> 'r \<Rightarrow> ('t, 'q) res \<Rightarrow> ('s, 'r) res" where
  "put_res put r (Ret _ t) = Ret r (put t)"
| "put_res put r (Raise e t) = Raise e (put t)"

definition put_loadavg :: "('a, 'b) server \<Rightarrow> 'a daemon \<times> 'b loadavg_plugin \<Rightarrow> ('a, 'b) server" where
  "put_loadavg s = (\<lambda>(d, p). s\<lparr>s_daemon := d, s_loadavg := p\<rparr>)"

definition put_clock :: "('a, 'b) server \<Rightarrow> 'a daemon \<times> check_clock \<Rightarrow> ('a, 'b) server" where
  "put_clock s = (\<lambda>(d, c). s\<lparr>s_daemon := d, s_clock := c\<rparr>)"

definition put_daemon :: "('a, 'b) server \<Rightarrow> ('a daemon, 'r) res \<Rightarrow> (('a, 'b) server, 'r) res" where
  "put_daemon s r = (case r of Ret b d \<Rightarrow> Ret b (s\<lparr>s_daemon := d\<rparr>) | Raise e d \<Rightarrow> Raise e (s\<lparr>s_daemon := d\<rparr>))"

definition plugin_dispatch :: "('a, 'z) lib_scheme \<Rightarrow> ('a, 'b) loadavg_lib \<Rightarrow> 'a dispatcher \<Rightarrow> message
    \<Rightarrow> ('a, 'b) server \<Rightarrow> (('a, 'b) server, bool) res" where
  "plugin_dispatch L M other msg s =
     (case (if f_loadavg_tag (s_loadavg s) = None then None else loadavg_handler_of L M msg) of
        Some h \<Rightarrow> put_res (put_loadavg s) True (h (s_daemon s, s_loadavg s))
      | None \<Rightarrow>
          (case (if f_tag (s_clock s) = None then None else clock_handler_of L msg) of
             Some h \<Rightarrow> Ret True (put_clock s (h (s_daemon s, s_clock s)))
           | None \<Rightarrow> put_daemon s (other msg (s_daemon s))))"

text \<open>The message is for the daemon, which has no handler for it.\<close>

definition reaches_plugins :: "('a::linorder, 'z) lib_scheme \<Rightarrow> message \<Rightarrow> 'a daemon \<Rightarrow> bool" where
  "reaches_plugins L msg d \<longleftrightarrow> check_broadcast_message L msg d = Inr False \<and> \<not> f_shutdown d \<and>
     communicator_message msg d \<and> handler_of L (m_command msg) = None"

definition server_dispatch :: "('a::linorder, 'z) lib_scheme \<Rightarrow> ('a, 'b) loadavg_lib \<Rightarrow> 'a dispatcher \<Rightarrow> message
    \<Rightarrow> ('a, 'b) server \<Rightarrow> (('a, 'b) server, bool) res" where
  "server_dispatch L M other msg s =
     (if reaches_plugins L msg (s_daemon s) then plugin_dispatch L M other msg s
      else put_daemon s (dispatch_message L other msg (s_daemon s)))"

text \<open>The plugins as the daemon sees them.\<close>

definition plugin_dispatcher :: "('a, 'z) lib_scheme \<Rightarrow> ('a, 'b) loadavg_lib \<Rightarrow> 'a dispatcher \<Rightarrow> ('a, 'b) server \<Rightarrow> 'a dispatcher" where
  "plugin_dispatcher L M other s msg d =
     (case plugin_dispatch L M other msg (s\<lparr>s_daemon := d\<rparr>) of
        Ret b t \<Rightarrow> Ret b (s_daemon t)
      | Raise e t \<Rightarrow> Raise e (s_daemon t))"

lemma dispatch_reaches:
  "reaches_plugins L msg d \<Longrightarrow> dispatch_message L other msg d = other msg d"
  by (simp add: reaches_plugins_def dispatch_message_def shutting_down_def communicator_dispatch_def)

lemma dispatch_not_reaches:
  assumes "\<not> reaches_plugins L msg d" shows "dispatch_message L other msg d = dispatch_message L other' msg d"
proof (cases "check_broadcast_message L msg d")
  case (Inr b)
  show ?thesis
  proof (cases "f_shutdown d")
    case True
    then have "(\<exists>d'. shutting_down L msg d = Ret True d') \<or> (\<exists>e d'. shutting_down L msg d = Raise e d')"
      by (auto simp: shutting_down_def Let_def split: option.split)
    then show ?thesis by (auto simp: dispatch_message_def Inr)
  next
    case False
    with assms Inr show ?thesis
      by (auto simp: reaches_plugins_def dispatch_message_def shutting_down_def communicator_dispatch_def split: option.split)
  qed
qed (simp add: dispatch_message_def)

lemma server_dispatch_projects:
  "dispatch_message L (plugin_dispatcher L M other s) msg (s_daemon s) =
     (case server_dispatch L M other msg s of Ret b t \<Rightarrow> Ret b (s_daemon t) | Raise e t \<Rightarrow> Raise e (s_daemon t))"
proof (cases "reaches_plugins L msg (s_daemon s)")
  case True
  then show ?thesis by (simp add: dispatch_reaches server_dispatch_def plugin_dispatcher_def)
next
  case False
  then have "dispatch_message L (plugin_dispatcher L M other s) msg (s_daemon s) = dispatch_message L other msg (s_daemon s)"
    by (rule dispatch_not_reaches)
  with False show ?thesis by (simp add: server_dispatch_def put_daemon_def split: res.split)
qed


section \<open>The handlers of the plugins keep the invariant\<close>

lemma register_for_loadavg_inv: "daemon_inv d \<Longrightarrow> daemon_inv (res_state (register_for_loadavg L ip d))"
  by (auto simp: register_for_loadavg_def split: option.split intro: only_sends_inv on_new_connection_only_sends)

lemma listen_loadavg_inv: "daemon_inv d \<Longrightarrow> daemon_inv (fst (res_state (listen_loadavg L ips (d, p))))"
proof (induction ips arbitrary: d p)
  case (Cons ip ips)
  show ?case
  proof (cases "register_for_loadavg L ip d")
    case (Ret r d1)
    with register_for_loadavg_inv [OF Cons.prems, of L ip] have "daemon_inv d1" by simp
    with Cons Ret show ?thesis by (simp add: Let_def)
  next
    case (Raise e d1)
    with register_for_loadavg_inv [OF Cons.prems, of L ip] have "daemon_inv d1" by simp
    with Cons Raise show ?thesis by (simp add: Let_def)
  qed
qed simp

lemma msg_listen_loadavg_inv: "daemon_inv d \<Longrightarrow> daemon_inv (fst (res_state (msg_listen_loadavg L msg (d, p))))"
  by (cases "get_parameter msg ''ips''") (simp_all add: msg_listen_loadavg_def listen_loadavg_inv)

lemma msg_register_for_loadavg_inv: "daemon_inv d \<Longrightarrow> daemon_inv (fst (res_state (msg_register_for_loadavg msg (d, p))))"
  by (auto simp: msg_register_for_loadavg_def set_timer_enable_def split: sum.split option.split intro!: upd_conn_inv)

lemma msg_unregister_from_loadavg_inv: "daemon_inv d \<Longrightarrow> daemon_inv (fst (res_state (msg_unregister_from_loadavg msg (d, p))))"
  by (auto simp: msg_unregister_from_loadavg_def set_timer_enable_def Let_def split: sum.split option.split bool.split
      intro!: upd_conn_inv)

lemma process_load_balancing_inv:
  "daemon_inv d \<Longrightarrow> daemon_inv (fst (res_state (process_load_balancing L M contents t (d, p))))"
  by (auto simp: process_load_balancing_def Let_def send_loadavg_eq split: option.split intro: inv_view_keep)

lemma send_clock_status_inv: "daemon_inv d \<Longrightarrow> daemon_inv (fst (send_clock_status L r (d, c)))"
  by (auto simp: send_clock_status_def Let_def split: option.split intro!: send_message_inv broadcast_new_inv)

lemma set_clock_status_inv: "daemon_inv d \<Longrightarrow> daemon_inv (fst (set_clock_status L st (d, c)))"
  by (simp add: set_clock_status_def send_clock_status_inv)

lemma msg_clock_status_inv: "daemon_inv d \<Longrightarrow> daemon_inv (fst (msg_clock_status L msg (d, c)))"
  by (simp add: msg_clock_status_def send_clock_status_inv split: option.split)

lemma loadavg_handler_inv:
  assumes "loadavg_handler_of L M msg = Some h" and "daemon_inv d" shows "daemon_inv (fst (res_state (h (d, p))))"
  using assms msg_listen_loadavg_inv [OF assms(2), of L msg p] msg_register_for_loadavg_inv [OF assms(2), of msg p]
    msg_unregister_from_loadavg_inv [OF assms(2), of msg p]
  by (auto simp: loadavg_handler_of_def split: if_splits res.split)

lemma put_res_state: "res_state (put_res put r m) = put (res_state m)"
  by (cases m) simp_all

lemma plugin_dispatch_state:
  "res_state (plugin_dispatch L M other msg s) =
     (case (if f_loadavg_tag (s_loadavg s) = None then None else loadavg_handler_of L M msg) of
        Some h \<Rightarrow> put_loadavg s (res_state (h (s_daemon s, s_loadavg s)))
      | None \<Rightarrow>
          (case (if f_tag (s_clock s) = None then None else clock_handler_of L msg) of
             Some h \<Rightarrow> put_clock s (h (s_daemon s, s_clock s))
           | None \<Rightarrow> s\<lparr>s_daemon := res_state (other msg (s_daemon s))\<rparr>))"
  by (cases "other msg (s_daemon s)")
    (simp_all add: plugin_dispatch_def put_res_state put_daemon_def split: option.split)

lemma plugin_dispatch_inv:
  assumes "keeps_inv other" and "daemon_inv (s_daemon s)"
  shows "daemon_inv (s_daemon (res_state (plugin_dispatch L M other msg s)))"
proof -
  have l: "daemon_inv (s_daemon (put_loadavg s (res_state (h (s_daemon s, s_loadavg s)))))"
    if "loadavg_handler_of L M msg = Some h" for h
    using loadavg_handler_inv [OF that assms(2), of "s_loadavg s"]
    by (cases "res_state (h (s_daemon s, s_loadavg s))") (simp add: put_loadavg_def)
  have c: "daemon_inv (s_daemon (put_clock s (h (s_daemon s, s_clock s))))" if "clock_handler_of L msg = Some h" for h
    using that msg_clock_status_inv [OF assms(2), of L msg "s_clock s"]
    by (cases "h (s_daemon s, s_clock s)") (auto simp: clock_handler_of_def put_clock_def split: if_splits)
  show ?thesis
    using assms l c by (auto simp: plugin_dispatch_state keeps_inv_def split: option.split)
qed

lemma plugin_dispatcher_keeps:
  assumes "keeps_inv other" shows "keeps_inv (plugin_dispatcher L M other s)"
proof -
  have "daemon_inv (res_state (plugin_dispatcher L M other s msg d))" if "daemon_inv d" for msg d
    using plugin_dispatch_inv [OF assms, of "s\<lparr>s_daemon := d\<rparr>" L M msg] that
    by (cases "plugin_dispatch L M other msg (s\<lparr>s_daemon := d\<rparr>)") (simp_all add: plugin_dispatcher_def)
  then show ?thesis by (simp add: keeps_inv_def)
qed

section \<open>The server as a machine\<close>

text \<open>A message as the connection it came from hands it to the daemon.\<close>

definition handed_over :: "cid \<Rightarrow> message \<Rightarrow> 'a daemon \<Rightarrow> message \<times> 'a daemon" where
  "handed_over i msg d =
     (case c_kind (obj d i) of
        Remote_conn \<Rightarrow> (msg\<lparr>m_user_data := Some i\<rparr>,
          if f_own_server_name (obj d i) = [] then upd_conn i (\<lambda>c. c\<lparr>f_own_server_name := m_from_server msg\<rparr>) d else d)
      | Ping_conn \<Rightarrow> (msg\<lparr>m_user_data := Some i\<rparr>, d)
      | _ \<Rightarrow> ((sent_from (obj d i) msg)\<lparr>m_user_data := Some i\<rparr>, d))"

definition server_message :: "('a::linorder, 'z) lib_scheme \<Rightarrow> ('a, 'b) loadavg_lib \<Rightarrow> 'a dispatcher \<Rightarrow> cid \<Rightarrow> message
    \<Rightarrow> ('a, 'b) server \<Rightarrow> (('a, 'b) server, bool) res" where
  "server_message L M other i msg s =
     (let (msg', d) = handed_over i msg (s_daemon s) in server_dispatch L M other msg' (s\<lparr>s_daemon := d\<rparr>))"

text \<open>\<open>load_timer::process_timeout\<close>.\<close>

definition load_timer_timeout :: "('a, 'z) lib_scheme \<Rightarrow> ('a, 'b) loadavg_lib \<Rightarrow> string option \<Rightarrow> string
    \<Rightarrow> 'a daemon \<times> 'b loadavg_plugin \<Rightarrow> ('a daemon \<times> 'b loadavg_plugin, unit) res" where
  "load_timer_timeout L M proc_loadavg now_str s = process_load_balancing L M proc_loadavg now_str s"

text \<open>
  A message, any other callback of the daemon, the timer of the load averages, the timer of the clock and the
  end of a command.  The handlers of the library are the argument \<open>other\<close>.
\<close>

inductive server_step :: "('a::linorder, 'z) lib_scheme \<Rightarrow> ('a, 'b) loadavg_lib \<Rightarrow> 'a dispatcher
    \<Rightarrow> ('a, 'b) server \<Rightarrow> ('a, 'b) server \<Rightarrow> bool" for L M other where
  message: "\<lbrakk>i \<in> set (connections (s_daemon s)); is_base (c_kind (obj (s_daemon s) i))\<rbrakk> \<Longrightarrow>
     server_step L M other s (res_state (server_message L M other i msg s))"
| callback: "daemon_action L other (s_daemon s) d \<Longrightarrow> server_step L M other s (s\<lparr>s_daemon := d\<rparr>)"
| load_timer: "\<lbrakk>f_loadavg_timer (s_loadavg s); timer_enabled (s_loadavg s)\<rbrakk> \<Longrightarrow>
     server_step L M other s (put_loadavg s (res_state (load_timer_timeout L M contents t (s_daemon s, s_loadavg s))))"
| clock_timer: "f_check_clock_status (s_clock s) \<Longrightarrow>
     server_step L M other s (put_clock s (stable_clock_timeout L E (s_daemon s, s_clock s)))"
| ntp_exit: "p_children (s_clock s) = cs @ (PROCESS_STATE_NTP_WAIT, command) # ds \<Longrightarrow>
     server_step L M other s (put_clock s (ntp_wait_exited L r (s_daemon s, (s_clock s)\<lparr>p_children := cs @ ds\<rparr>)))"
| timedate_exit: "p_children (s_clock s) = cs @ (PROCESS_STATE_TIMEDATE_WAIT, command) # ds \<Longrightarrow>
     server_step L M other s (put_clock s (timedate_wait_exited L r (s_daemon s, (s_clock s)\<lparr>p_children := cs @ ds\<rparr>)))"

inductive_cases server_stepE: "server_step L M other s s'"

definition server_start :: "('a::linorder, 'b) server \<Rightarrow> bool" where
  "server_start s \<longleftrightarrow> initial_daemon (s_daemon s) \<and> clock_start (s_daemon s, s_clock s) \<and>
     (\<forall>i \<in> set (connections (s_daemon s)). \<not> f_wants_loadavg (obj (s_daemon s) i)) \<and>
     (\<exists>path processors tag added g0 p0 g. f_loadavg_tag p0 = None \<and> \<not> timer_enabled p0 \<and>
        loadavg_initialize path processors tag added (p0, g0) = ok (s_loadavg s, g))"

definition server_inv :: "('a::linorder, 'b) server \<Rightarrow> bool" where
  "server_inv s \<longleftrightarrow> daemon_inv (s_daemon s) \<and> clock_inv (s_clock s)"

lemma handed_over_inv: "daemon_inv d \<Longrightarrow> daemon_inv (snd (handed_over i msg d))"
  by (auto simp: handed_over_def split: conn_kind.split intro!: upd_conn_inv)

lemma handed_over_from: "is_base (c_kind (obj d i)) \<Longrightarrow> from_base (snd (handed_over i msg d)) (fst (handed_over i msg d))"
  by (auto simp: handed_over_def from_base_def upd_conn_kind split: conn_kind.split)

lemma server_dispatch_daemon:
  "s_daemon (res_state (server_dispatch L M other msg s)) =
     res_state (dispatch_message L (plugin_dispatcher L M other s) msg (s_daemon s))"
proof (cases "reaches_plugins L msg (s_daemon s)")
  case True
  then show ?thesis by (simp add: dispatch_reaches server_dispatch_def plugin_dispatcher_def split: res.split)
next
  case False
  with dispatch_not_reaches [OF False, of "plugin_dispatcher L M other s" other] show ?thesis
    by (simp add: server_dispatch_def put_daemon_def split: res.split)
qed

lemma clock_inv_plugin_dispatch: "clock_inv (s_clock (res_state (plugin_dispatch L M other msg s))) = clock_inv (s_clock s)"
proof -
  have "s_clock (put_loadavg s x) = s_clock s" for x by (cases x) (simp add: put_loadavg_def)
  moreover have "s_clock (put_clock s (msg_clock_status L msg (d, c))) = c" for d c
    by (cases "msg_clock_status L msg (d, c)")
      (auto simp: put_clock_def msg_clock_status_def dest: arg_cong [where f = snd] simp: send_clock_status_plugin split: option.splits)
  ultimately show ?thesis by (auto simp: plugin_dispatch_state clock_handler_of_def split: option.split if_splits)
qed

lemma server_message_inv:
  assumes "keeps_inv other" and "server_inv s" and "is_base (c_kind (obj (s_daemon s) i))"
  shows "server_inv (res_state (server_message L M other i msg s))"
proof -
  obtain m d where h: "handed_over i msg (s_daemon s) = (m, d)" by fastforce
  have d: "daemon_inv d" "from_base d m"
    using handed_over_inv [of "s_daemon s" i msg] handed_over_from [OF assms(3), of msg] assms(2) h
    by (simp_all add: server_inv_def)
  let ?s = "s\<lparr>s_daemon := d\<rparr>"
  have "daemon_inv (s_daemon (res_state (server_dispatch L M other m ?s)))"
    unfolding server_dispatch_daemon
    by (rule dispatch_message_inv) (use d plugin_dispatcher_keeps [OF assms(1)] in simp_all)
  moreover have "clock_inv (s_clock (res_state (server_dispatch L M other m ?s)))"
    using assms(2)
    by (cases "dispatch_message L other m d")
      (simp_all add: server_dispatch_def clock_inv_plugin_dispatch server_inv_def put_daemon_def)
  ultimately show ?thesis by (simp add: server_message_def h server_inv_def)
qed

lemma clock_part_inv:
  assumes "server_inv s" and "clock_inv (snd x)" and "daemon_inv (fst x)"
  shows "server_inv (put_clock s x)"
  using assms by (cases x) (simp add: server_inv_def put_clock_def)

lemma server_step_inv:
  assumes "server_step L M other s s'" and "keeps_inv other" and "server_inv s"
  shows "server_inv s'"
proof -
  have inv: "daemon_inv (s_daemon s)" "clock_inv (s_clock s)" using assms(3) by (simp_all add: server_inv_def)
  have clock: "server_inv (put_clock s x)" if "clock_step L (s_daemon s, s_clock s) x" "daemon_inv (fst x)" for x
    using clock_part_inv [OF assms(3) clock_step_inv [OF that(1)] that(2)] inv(2) by simp
  from assms(1) show ?thesis
  proof cases
    case (message i msg)
    with server_message_inv [OF assms(2,3)] show ?thesis by blast
  next
    case (callback d)
    with daemon_action_inv [OF callback(2) inv(1) assms(2)] inv(2) show ?thesis by (simp add: server_inv_def)
  next
    case (load_timer contents t)
    with inv process_load_balancing_inv [OF inv(1), of L M contents t "s_loadavg s"] show ?thesis
      by (cases "res_state (process_load_balancing L M contents t (s_daemon s, s_loadavg s))")
        (simp add: server_inv_def put_loadavg_def load_timer_timeout_def)
  next
    case (clock_timer E)
    show ?thesis
      unfolding clock_timer(1)
      by (rule clock [OF clock_step.timer])
        (auto simp: stable_clock_timeout_def intro: inv set_clock_status_inv)
  next
    case (ntp_exit cs command ds r)
    show ?thesis
      unfolding ntp_exit(1)
      by (rule clock [OF clock_step.ntp_exit [OF ntp_exit(2)]]) (simp add: ntp_wait_exited_def set_clock_status_inv inv)
  next
    case (timedate_exit cs command ds r)
    show ?thesis
      unfolding timedate_exit(1)
      by (rule clock [OF clock_step.timedate_exit [OF timedate_exit(2)]]) (simp add: timedate_wait_exited_def set_clock_status_inv inv)
  qed
qed

lemma server_start_inv: "server_start s \<Longrightarrow> server_inv s"
  using clock_start_inv by (fastforce simp: server_start_def server_inv_def intro: initial_daemon_inv)

interpretation sv: invariant_machine server_start "server_step L M other" "\<lambda>s. keeps_inv other \<longrightarrow> server_inv s" for L M other
  by unfold_locales (auto intro: server_start_inv server_step_inv)

text \<open>
  C17: In every reachable state of the server, whatever messages the daemon and its plugins get and whenever
  the timers expire, there is at most one outgoing connection to each daemon, all of them to smaller
  addresses, at most one command of the clock runs, and the plugin of the clock is idle just when none does.
\<close>

theorem server_safe:
  assumes "server_start s0" and "(server_step L M other)\<^sup>*\<^sup>* s0 s" and "keeps_inv other"
  shows "inj_on (\<lambda>i. f_address (obj (s_daemon s) i))
      {i. i \<in> set (connections (s_daemon s)) \<and> c_kind (obj (s_daemon s) i) = Remote_conn} \<and>
    (\<lambda>i. f_address (obj (s_daemon s) i)) `
      {i. i \<in> set (connections (s_daemon s)) \<and> c_kind (obj (s_daemon s) i) = Remote_conn}
      \<subseteq> {a. a < f_connection_address (s_daemon s)} \<and>
    length (p_children (s_clock s)) \<le> 1 \<and>
    (f_process_state (s_clock s) = PROCESS_STATE_IDLE \<longleftrightarrow> p_children (s_clock s) = [])"
proof -
  have inv: "daemon_inv (s_daemon s)" "clock_inv (s_clock s)"
    using sv.inv_run [OF assms(1,2)] assms(3) by (simp_all add: server_inv_def)
  have "inj_on (\<lambda>i. f_address (obj (s_daemon s) i))
      {i. i \<in> set (connections (s_daemon s)) \<and> c_kind (obj (s_daemon s) i) = Remote_conn}"
    using outgoing_smaller(1) [OF inv(1)] by (auto intro!: inj_onI) (metis option.inject)
  with outgoing_smaller(2) [OF inv(1)] inv(2) show ?thesis
    by (auto elim: clock_inv_cases)
qed

section \<open>Who gets the load averages\<close>

text \<open>The timer, if there is one, runs as long as a registered connection wants load averages.\<close>

definition timer_inv :: "('a, 'b) server \<Rightarrow> bool" where
  "timer_inv s \<longleftrightarrow> (f_loadavg_timer (s_loadavg s) \<longrightarrow>
     (\<forall>i \<in> set (connections (s_daemon s)). f_wants_loadavg (obj (s_daemon s) i) \<longrightarrow> timer_enabled (s_loadavg s)))"

definition same_timer :: "'b loadavg_plugin \<Rightarrow> 'b loadavg_plugin \<Rightarrow> bool" where
  "same_timer p p' \<longleftrightarrow> timer_enabled p' = timer_enabled p \<and> f_loadavg_timer p' = f_loadavg_timer p"

lemma same_timer_refl [simp]: "same_timer p p"
  by (simp add: same_timer_def)

lemma timer_inv_keep:
  assumes "timer_inv s" and "no_new_wants (s_daemon s) (s_daemon s')" and "same_timer (s_loadavg s) (s_loadavg s')"
  shows "timer_inv s'"
  using assms unfolding timer_inv_def no_new_wants_def same_timer_def by metis

lemma wants_clock [kept_intros]:
  assumes "no_new_wants (d0 :: 'a::linorder daemon) d"
  shows "no_new_wants d0 (fst (send_clock_status L r (d, c)))" "no_new_wants d0 (fst (set_clock_status L st (d, c)))"
    "no_new_wants d0 (fst (msg_clock_status L msg (d, c)))"
proof -
  show s: "no_new_wants d0 (fst (send_clock_status L r (d, c)))" for r c
    using assms by (simp add: send_clock_status_def Let_def kept_intros split: option.split)
  show "no_new_wants d0 (fst (set_clock_status L st (d, c)))" "no_new_wants d0 (fst (msg_clock_status L msg (d, c)))"
    using assms s by (simp_all add: set_clock_status_def msg_clock_status_def split: option.split)
qed

lemma put_loadavg_fields [simp]:
  "s_daemon (put_loadavg s x) = fst x" "s_loadavg (put_loadavg s x) = snd x" "s_clock (put_loadavg s x) = s_clock s"
  by (cases x; simp add: put_loadavg_def)+

lemma put_clock_fields [simp]:
  "s_daemon (put_clock s x) = fst x" "s_loadavg (put_clock s x) = s_loadavg s" "s_clock (put_clock s x) = snd x"
  by (cases x; simp add: put_clock_def)+

lemma listen_loadavg_timer:
  "no_new_wants (d0 :: 'a::linorder daemon) d \<Longrightarrow> no_new_wants d0 (fst (res_state (listen_loadavg L ips (d, p)))) \<and>
     same_timer p (snd (res_state (listen_loadavg L ips (d, p))))"
proof (induction ips arbitrary: d p)
  case (Cons ip ips)
  have "no_new_wants d0 (res_state (register_for_loadavg L ip d))"
    using Cons.prems by (auto simp: register_for_loadavg_def split: option.split intro: nw.kept_only_sends on_new_connection_only_sends)
  with Cons show ?case by (cases "register_for_loadavg L ip d") (auto simp: Let_def same_timer_def)
qed simp

lemma find_wants_none: "find_wants_loadavg d is = Inr False \<Longrightarrow> j \<in> set is \<Longrightarrow> \<not> f_wants_loadavg (obj d j)"
  by (induction d "is" rule: find_wants_loadavg.induct) (auto split: if_splits)

lemma loadavg_handler_timer:
  assumes "loadavg_handler_of L M msg = Some h" and "timer_inv (s :: ('a::linorder, 'b) server)"
  shows "timer_inv (put_loadavg s (res_state (h (s_daemon s, s_loadavg s))))"
proof -
  let ?d = "s_daemon s" and ?p = "s_loadavg s"
  have keep: "timer_inv (put_loadavg s x)" if "no_new_wants ?d (fst x)" "same_timer ?p (snd x)" for x
    by (rule timer_inv_keep [OF assms(2)]) (simp_all add: that)
  have listen: "timer_inv (put_loadavg s (res_state (msg_listen_loadavg L msg (?d, ?p))))"
    using listen_loadavg_timer [of ?d ?d L _ ?p] by (cases "get_parameter msg ''ips''") (simp_all add: msg_listen_loadavg_def keep)
  have save: "same_timer ?p (res_state (msg_save_loadavg L M msg ?p))"
    by (cases "get_parameter msg ''avg''"; cases "get_parameter msg ''my_address''"; cases "get_parameter msg ''timestamp''")
      (simp_all add: msg_save_loadavg_def same_timer_def Let_def split: option.split)
  have register: "timer_inv (put_loadavg s (res_state (msg_register_for_loadavg msg (?d, ?p))))"
    using assms(2)
    by (auto simp: msg_register_for_loadavg_def set_timer_enable_def timer_inv_def split: sum.split option.split)
  have upd: "no_new_wants ?d (upd_conn i (set_wants_loadavg False) ?d)" for i
    by (auto simp: no_new_wants_def upd_conn_def)
  have unregister: "timer_inv (put_loadavg s (res_state (msg_unregister_from_loadavg msg (?d, ?p))))"
    using keep [of "(?d, ?p)"] keep [of "(upd_conn i (set_wants_loadavg False) ?d, ?p)" for i] upd
    by (auto simp: msg_unregister_from_loadavg_def set_timer_enable_def Let_def timer_inv_def dest: find_wants_none
        split: sum.split option.split bool.split)
  show ?thesis
    using assms(1) listen register unregister keep [of "(?d, res_state (msg_save_loadavg L M msg ?p))"] save
    by (cases "msg_save_loadavg L M msg ?p") (auto simp: loadavg_handler_of_def split: if_splits)
qed


lemma plugin_dispatch_timer:
  assumes "timer_inv (s :: ('a::linorder, 'b) server)" and "keeps_wants other"
  shows "timer_inv (res_state (plugin_dispatch L M other msg s))"
proof -
  have c: "timer_inv (put_clock s (h (s_daemon s, s_clock s)))" if "clock_handler_of L msg = Some h" for h
    by (rule timer_inv_keep [OF assms(1)]) (use that in \<open>auto simp: clock_handler_of_def intro: kept_intros split: if_splits\<close>)
  have o: "timer_inv (s\<lparr>s_daemon := res_state (other msg (s_daemon s))\<rparr>)"
    by (rule timer_inv_keep [OF assms(1)]) (use assms(2) in \<open>simp_all add: keeps_wants_def\<close>)
  show ?thesis using loadavg_handler_timer [OF _ assms(1)] c o by (auto simp: plugin_dispatch_state split: option.split)
qed

lemma server_message_timer:
  assumes "timer_inv s" and "keeps_wants other"
  shows "timer_inv (res_state (server_message L M other i msg s))"
proof -
  obtain m d where h: "handed_over i msg (s_daemon s) = (m, d)" by fastforce
  have "no_new_wants (s_daemon s) (snd (handed_over i msg (s_daemon s)))"
    by (auto simp: handed_over_def intro: kept_intros split: conn_kind.split)
  then have d: "timer_inv (s\<lparr>s_daemon := d\<rparr>)" by (intro timer_inv_keep [OF assms(1)]) (simp_all add: h)
  have "timer_inv (res_state (put_daemon (s\<lparr>s_daemon := d\<rparr>) (dispatch_message L other m d)))"
    by (rule timer_inv_keep [OF d])
      (use wants_dispatch [of d d other L m] assms(2) in \<open>cases "dispatch_message L other m d"; simp add: put_daemon_def\<close>)+
  then show ?thesis by (simp add: server_message_def h server_dispatch_def plugin_dispatch_timer [OF d assms(2)])
qed

lemma load_balancing_timer:
  "no_new_wants d (fst (res_state (process_load_balancing L M contents t (d, p)))) \<and>
   same_timer p (snd (res_state (process_load_balancing L M contents t (d, p))))"
  by (auto simp: process_load_balancing_def same_timer_def Let_def send_loadavg_eq no_new_wants_def split: option.split)

lemma server_step_timer:
  assumes "server_step L M other s s'" and "keeps_wants other" and "timer_inv s"
  shows "timer_inv s'"
  using assms(1)
proof cases
  case (message i msg)
  with server_message_timer [OF assms(3,2)] show ?thesis by blast
next
  case (callback d)
  with daemon_action_wants [OF callback(2) assms(2)] show ?thesis by (intro timer_inv_keep [OF assms(3)]) simp_all
next
  case (load_timer contents t)
  then show ?thesis
    by (intro timer_inv_keep [OF assms(3)]) (simp_all add: load_timer_timeout_def load_balancing_timer)
next
  case (clock_timer E)
  then show ?thesis
    by (intro timer_inv_keep [OF assms(3)]) (auto simp: stable_clock_timeout_def intro: kept_intros)
qed (intro timer_inv_keep [OF assms(3)]; simp add: ntp_wait_exited_def timedate_wait_exited_def kept_intros)+

lemma server_start_timer: "server_start s \<Longrightarrow> timer_inv s"
  by (simp add: server_start_def timer_inv_def)

interpretation sw: invariant_machine server_start "server_step L M other" "\<lambda>s. keeps_wants other \<longrightarrow> timer_inv s" for L M other
  by unfold_locales (auto intro: server_start_timer server_step_timer)

lemma timer_invD:
  "timer_inv s \<Longrightarrow> f_loadavg_timer (s_loadavg s) \<Longrightarrow> i \<in> set (connections (s_daemon s)) \<Longrightarrow> f_wants_loadavg (obj (s_daemon s) i) \<Longrightarrow> timer_enabled (s_loadavg s)"
  by (auto simp: timer_inv_def)

lemma load_balancing_sends:
  assumes "i \<in> set (connections d)" and "f_wants_loadavg (obj d i)" and "c_kind (obj d i) \<in> {Service_conn, Remote_conn}"
    and "read_first_number [] contents = Some avg_str" and "stof M avg_str = Some load"
    and "1 / 10 \<le> \<bar>f_last_loadavg p - load / of_nat (f_number_of_processors p)\<bar>"
  shows "\<exists>m. m_command m = ''LOADAVG'' \<and> m_params m ''avg'' = Some (show_float M (load / of_nat (f_number_of_processors p))) \<and>
    Sent i m \<in> set (out (fst (res_state (process_load_balancing L M (Some contents) t (d, p)))))"
proof -
  let ?avg = "load / of_nat (f_number_of_processors p)"
  let ?m = "add_parameter ''timestamp'' t (add_parameter ''my_address'' (ip_port_string L (f_connection_address d))
    (add_parameter ''avg'' (show_float M ?avg) (daemon_message (f_server_name d) ''LOADAVG'')))"
  have "process_load_balancing L M (Some contents) t (d, p) = ok (send_loadavg ?m (connections d) d, p\<lparr>f_last_loadavg := ?avg\<rparr>)"
    using assms(4-6) by (simp add: process_load_balancing_def Let_def)
  then have "Sent i ?m \<in> set (out (fst (res_state (process_load_balancing L M (Some contents) t (d, p)))))"
    using assms(1-3) by (auto simp: send_loadavg_eq)
  then show ?thesis by (intro exI [of _ ?m]) simp
qed

text \<open>
  C18: A daemon or a TCP client that registered for load averages gets them as long as it is connected: if the
  event loop took the timer of the plugin, the timer runs, and when it expires and the load changed by a tenth
  or more, a LOADAVG message with the new load is sent to it. A client on the Unix socket is never sent one
  (\<open>unix_not_served\<close>); without the timer the registration fails on a null pointer.
\<close>

theorem subscribers_served:
  assumes "server_start s0" and "(server_step L M other)\<^sup>*\<^sup>* s0 s" and "keeps_wants other"
    and "i \<in> set (connections (s_daemon s))" and "f_wants_loadavg (obj (s_daemon s) i)"
    and "c_kind (obj (s_daemon s) i) \<in> {Service_conn, Remote_conn}" and "f_loadavg_timer (s_loadavg s)"
    and "read_first_number [] contents = Some avg_str" and "stof M avg_str = Some load"
    and "1 / 10 \<le> \<bar>f_last_loadavg (s_loadavg s) - load / of_nat (f_number_of_processors (s_loadavg s))\<bar>"
  shows "timer_enabled (s_loadavg s) \<and>
     (\<exists>m. m_command m = ''LOADAVG'' \<and>
        m_params m ''avg'' = Some (show_float M (load / of_nat (f_number_of_processors (s_loadavg s)))) \<and>
        Sent i m \<in> set (out (fst (res_state (load_timer_timeout L M (Some contents) t (s_daemon s, s_loadavg s))))))"
  unfolding load_timer_timeout_def
  using sw.inv_run [OF assms(1,2)] assms(3-5,7) timer_invD load_balancing_sends [OF assms(4-6,8-10)] by blast

section \<open>An example\<close>

definition sample_loadavg_lib :: "(int, int) loadavg_lib" where
  "sample_loadavg_lib = \<lparr>stof = (\<lambda>s. map_option of_int (undec_string s)), show_float = (\<lambda>r. dec_string \<lfloor>r\<rfloor>),
     get_timespec = undec_string, get_ipv6 = id, build_year_start = 0, load_io = no_io_error, save_io = no_io_error\<rparr>"

definition sample_plugin :: "int loadavg_plugin" where
  "sample_plugin = \<lparr>f_registered_neighbors_for_loadavg = {}, f_last_loadavg = 0, f_number_of_processors = 1,
     timer_enabled = False, loadavg_disk = None, f_loadavg_tag = Some 2, f_loadavg_timer = True\<rparr>"

definition sample_server :: "(int, int) server" where
  "sample_server = \<lparr>s_daemon = sample_daemon [], s_loadavg = sample_plugin, s_clock = sample_clock\<rparr>"

lemma sample_server_start: "server_start sample_server"
proof -
  have "loadavg_initialize ''/data'' 1 2 True (sample_plugin\<lparr>f_loadavg_tag := None\<rparr>, []) = ok (sample_plugin, ''/data/loadavg.lavg'')"
    by (simp add: loadavg_initialize_def set_loadavg_path_def sample_plugin_def Let_def ok_def)
  moreover have "f_loadavg_tag (sample_plugin\<lparr>f_loadavg_tag := None\<rparr>) = None" "\<not> timer_enabled (sample_plugin\<lparr>f_loadavg_tag := None\<rparr>)"
    by (simp_all add: sample_plugin_def)
  ultimately have "\<exists>path processors tag added g0 p0 g. f_loadavg_tag p0 = None \<and> \<not> timer_enabled p0 \<and>
        loadavg_initialize path processors tag added (p0, g0) = ok (sample_plugin, g)" by blast
  moreover have "initial_daemon (sample_daemon [])"
    by (simp add: initial_daemon_def own_ok_def own_connections_def) (simp add: sample_daemon_def)
  moreover have "connections (sample_daemon []) = []" by (simp add: sample_daemon_def)
  ultimately show ?thesis using sample_clock_start by (simp add: server_start_def sample_server_def)
qed

definition sample_client :: "(int, int) server" where
  "sample_client = sample_server\<lparr>s_daemon := listener_process_accept sample_lib
     \<lparr>l_local = False, l_server_name = ''alpha'', l_username = [], l_password = []\<rparr> (Some (20, 4042, 7)) (s_daemon sample_server)\<rparr>"

definition sample_subscribe :: message where
  "sample_subscribe = new_message\<lparr>m_command := ''REGISTER_FOR_LOADAVG''\<rparr>"

lemma sample_subscribed:
  "(server_step sample_lib sample_loadavg_lib no_other)\<^sup>*\<^sup>* sample_server
     (res_state (server_message sample_lib sample_loadavg_lib no_other 0 sample_subscribe sample_client))"
proof -
  have "server_step sample_lib sample_loadavg_lib no_other sample_server sample_client"
    unfolding sample_client_def
    by (rule server_step.callback, rule daemon_action.intros(5), rule daemon_step.accept)
  moreover have "server_step sample_lib sample_loadavg_lib no_other sample_client
     (res_state (server_message sample_lib sample_loadavg_lib no_other 0 sample_subscribe sample_client))"
    by (rule server_step.message)
      (simp_all add: sample_client_def sample_server_def sample_daemon_def listener_process_accept_def Let_def sample_lib_def
        new_object_def add_connection_def service_connection_object_def blank_conn_def mark_as_remote_def)
  ultimately show ?thesis by (rule rtranclp.rtrancl_into_rtrancl [OF r_into_rtranclp])
qed

theorem server_safe_witness:
  "length (p_children (s_clock (res_state (server_message sample_lib sample_loadavg_lib no_other 0 sample_subscribe sample_client)))) \<le> 1"
  using server_safe [OF sample_server_start sample_subscribed no_other_keeps] by blast

theorem subscribers_served_witness:
  "timer_enabled (s_loadavg (res_state (server_message sample_lib sample_loadavg_lib no_other 0 sample_subscribe sample_client)))"
proof -
  let ?s = "res_state (server_message sample_lib sample_loadavg_lib no_other 0 sample_subscribe sample_client)"
  have k: "keeps_wants no_other" by (simp add: keeps_wants_def no_other_def)
  have c: "0 \<in> set (connections (s_daemon ?s))" "f_wants_loadavg (obj (s_daemon ?s) 0)"
    "c_kind (obj (s_daemon ?s) 0) = Service_conn" "f_loadavg_timer (s_loadavg ?s)"
    "f_last_loadavg (s_loadavg ?s) = 0" "f_number_of_processors (s_loadavg ?s) = 1"
    by code_simp+
  have r: "read_first_number [] ''3 '' = Some ''3''" "stof sample_loadavg_lib ''3'' = Some 3"
    by (simp_all add: sample_loadavg_lib_def undec_string_def)
  show ?thesis
    by (rule conjunct1 [OF subscribers_served [OF sample_server_start sample_subscribed k c(1,2) _ c(4) r]]) (simp_all add: c)
qed

end
